(* ===== verification/Relay_Prelude.thy ===== *)
theory Relay_Prelude
  imports Complex_Main "HOL-Library.Word" "HOL-Library.Char_ord"
begin

text \<open>
  What the component theories share: the machine types of the Go code, its errors as values,
  its effectful functions as actions over a state, and the rules that compute what an action
  guarantees.

  A Go function that returns an error is an action: from a state it gives a result and the
  next state, and the result is \<open>Ok\<close> of a value, \<open>Fail\<close> of an error or \<open>Panic\<close>.
  The calculus \<open>wpA\<close> turns a statement about an action into one about its parts, by
  rewriting; the collection \<open>wp\<close> holds its rules.
\<close>

section \<open>Collections of rules\<close>

named_theorems wp \<open>rules that compute the weakest precondition of an action\<close>
named_theorems go_defs \<open>definitions of straight-line code that proofs unfold\<close>

section \<open>Machine types\<close>

text \<open>
  Fixed-size byte arrays that the code only compares and copies are words of their size, so
  that Go's array equality is equality; slices of bytes are lists. A Go string is a list of
  bytes, which \<open>string\<close> is.
\<close>

type_synonym u8 = "8 word"
type_synonym u64 = "64 word"
type_synonym i64 = "64 word"
type_synonym bytes = "u8 list"
type_synonym hash = "256 word"
type_synonym address = "160 word"
type_synonym att_id = "512 word"

text \<open>
  Durations and instants are nanoseconds. An instant counts from the first of January of the
  year one, Go's zero time, so \<open>IsZero\<close> is the test for 0.
\<close>

type_synonym duration = int
type_synonym time = int

abbreviation second :: duration where
  "second \<equiv> 1000000000"

abbreviation minute :: duration where
  "minute \<equiv> 60 * second"

section \<open>Errors as values\<close>

text \<open>
  \<open>New\<close> is \<open>errors.New\<close>; \<open>Errorf\<close> is \<open>fmt.Errorf\<close> without a wrapped error,
  \<open>Wrapf\<close> with one at the end of the format (\<open>...: %w\<close>), \<open>WrapPre\<close> with one at its
  start. Formats are kept with their arguments, of which \<open>AQuoted\<close> is a string
  passed through \<open>strconv.Quote\<close>; \<open>WrapText\<close> is a \<open>Wrapf\<close> whose prefix the code's
  own text operations have to be read off, so it is already rendered. \<open>Lib\<close> is an error value a library
  returned, with its text. The last constructors are the package-level sentinels and
  \<open>ctx.Err()\<close> of a finished context.
\<close>

datatype arg =
    AInt int
  | AStr string
  | AQuoted string
  | AHash hash
  | AAddr address

datatype error =
    New string
  | Errorf string "arg list"
  | Wrapf string "arg list" error
  | WrapPre error string "arg list"
  | WrapText string error
  | Lib string
  | CtxErr
  | ErrStartupNotFinished
  | ErrNoIndexerState
  | ErrIndexerStale
  | ErrUnknownStatus
  | ErrEmptyResponseBody
  | ErrResponseBodyTooBig
  | ErrNetClosed
  | Join error error

text \<open>\<open>errors.Is\<close>: the error or one it wraps is the target.\<close>

fun errors_Is :: "error \<Rightarrow> error \<Rightarrow> bool" where
  "errors_Is (Wrapf f as e) t = (Wrapf f as e = t \<or> errors_Is e t)"
| "errors_Is (WrapPre e f as) t = (WrapPre e f as = t \<or> errors_Is e t)"
| "errors_Is (WrapText s e) t = (WrapText s e = t \<or> errors_Is e t)"
| "errors_Is (Join a b) t = (Join a b = t \<or> errors_Is a t \<or> errors_Is b t)"
| "errors_Is e t = (e = t)"

text \<open>A Go result of type \<open>error\<close>: \<open>None\<close> is nil.\<close>

type_synonym errorp = "error option"

section \<open>Results and actions\<close>

datatype 'a res = Ok 'a | Fail error | Panic string

type_synonym ('s, 'a) act = "'s \<Rightarrow> 'a res \<times> 's"

definition retA :: "'a \<Rightarrow> ('s, 'a) act" where
  "retA a = (\<lambda>s. (Ok a, s))"

definition failA :: "error \<Rightarrow> ('s, 'a) act" where
  "failA e = (\<lambda>s. (Fail e, s))"

definition panicA :: "string \<Rightarrow> ('s, 'a) act" where
  "panicA p = (\<lambda>s. (Panic p, s))"

definition bindA :: "('s, 'a) act \<Rightarrow> ('a \<Rightarrow> ('s, 'b) act) \<Rightarrow> ('s, 'b) act" where
  "bindA m f = (\<lambda>s. case m s of
       (Ok a, t) \<Rightarrow> f a t
     | (Fail e, t) \<Rightarrow> (Fail e, t)
     | (Panic p, t) \<Rightarrow> (Panic p, t))"

text \<open>\<open>if err != nil { return fmt.Errorf("...: %w", err) }\<close>, and the same with any change
  of the error.\<close>

definition mapErr :: "(error \<Rightarrow> error) \<Rightarrow> ('s, 'a) act \<Rightarrow> ('s, 'a) act" where
  "mapErr g m = (\<lambda>s. case m s of
       (Ok a, t) \<Rightarrow> (Ok a, t)
     | (Fail e, t) \<Rightarrow> (Fail (g e), t)
     | (Panic p, t) \<Rightarrow> (Panic p, t))"

definition wrapA :: "string \<Rightarrow> arg list \<Rightarrow> ('s, 'a) act \<Rightarrow> ('s, 'a) act" where
  "wrapA f as m = mapErr (Wrapf f as) m"

text \<open>A call of a pure library function that may fail.\<close>

definition liftA :: "error + 'a \<Rightarrow> ('s, 'a) act" where
  "liftA r = (case r of Inl e \<Rightarrow> failA e | Inr a \<Rightarrow> retA a)"

text \<open>A call of a function whose only result is an error.\<close>

definition checkA :: "errorp \<Rightarrow> ('s, unit) act" where
  "checkA r = (case r of None \<Rightarrow> retA () | Some e \<Rightarrow> failA e)"

definition readA :: "('s \<Rightarrow> 'a) \<Rightarrow> ('s, 'a) act" where
  "readA g = (\<lambda>s. (Ok (g s), s))"

definition writeA :: "('s \<Rightarrow> 's) \<Rightarrow> ('s, unit) act" where
  "writeA g = (\<lambda>s. (Ok (), g s))"

text \<open>\<open>defer func() { if rec := recover(); rec != nil { err = ... } }()\<close>.\<close>

definition recoverA :: "(string \<Rightarrow> error) \<Rightarrow> ('s, 'a) act \<Rightarrow> ('s, 'a) act" where
  "recoverA g m = (\<lambda>s. case m s of
       (Panic p, t) \<Rightarrow> (Fail (g p), t)
     | (Ok a, t) \<Rightarrow> (Ok a, t)
     | (Fail e, t) \<Rightarrow> (Fail e, t))"

text \<open>An action on one component of a larger state.\<close>

definition zoomA :: "('s \<Rightarrow> 'x) \<Rightarrow> ('x \<Rightarrow> 's \<Rightarrow> 's) \<Rightarrow> ('x, 'a) act \<Rightarrow> ('s, 'a) act" where
  "zoomA g u m = (\<lambda>s. case m (g s) of (r, x) \<Rightarrow> (r, u x s))"

text \<open>Slice indexing: out of range panics.\<close>

definition indexA :: "'a list \<Rightarrow> nat \<Rightarrow> ('s, 'a) act" where
  "indexA xs i = (if i < length xs then retA (xs ! i) else panicA ''index out of range'')"

section \<open>What an action guarantees\<close>

text \<open>
  From \<open>s\<close>, \<open>m\<close> either succeeds with \<open>Q\<close> of its value and next state, or ends
  otherwise with \<open>E\<close> of the error (\<open>None\<close> for a panic) and next state.
\<close>

definition wpA :: "('s, 'a) act \<Rightarrow> ('a \<Rightarrow> 's \<Rightarrow> bool) \<Rightarrow> (error option \<Rightarrow> 's \<Rightarrow> bool) \<Rightarrow> 's \<Rightarrow> bool" where
  "wpA m Q E s = (case m s of
       (Ok a, t) \<Rightarrow> Q a t
     | (Fail e, t) \<Rightarrow> E (Some e) t
     | (Panic p, t) \<Rightarrow> E None t)"

lemma wpA_ret [wp]: "wpA (retA a) Q E s = Q a s"
  by (simp add: wpA_def retA_def)

lemma wpA_fail [wp]: "wpA (failA e) Q E s = E (Some e) s"
  by (simp add: wpA_def failA_def)

lemma wpA_panic [wp]: "wpA (panicA p) Q E s = E None s"
  by (simp add: wpA_def panicA_def)

lemma wpA_bind [wp]: "wpA (bindA m f) Q E s = wpA m (\<lambda>a. wpA (f a) Q E) E s"
  by (auto simp: wpA_def bindA_def split: prod.splits res.splits)

lemma wpA_mapErr [wp]: "wpA (mapErr g m) Q E s = wpA m Q (\<lambda>e. E (map_option g e)) s"
  by (auto simp: wpA_def mapErr_def split: prod.splits res.splits)

lemma wpA_wrap [wp]: "wpA (wrapA f as m) Q E s = wpA m Q (\<lambda>e. E (map_option (Wrapf f as) e)) s"
  by (simp add: wrapA_def wp)

lemma wpA_lift [wp]:
  "wpA (liftA r) Q E s = (case r of Inl e \<Rightarrow> E (Some e) s | Inr a \<Rightarrow> Q a s)"
  by (simp add: liftA_def wp split: sum.splits)

lemma wpA_check [wp]:
  "wpA (checkA r) Q E s = (case r of None \<Rightarrow> Q () s | Some e \<Rightarrow> E (Some e) s)"
  by (simp add: checkA_def wp split: option.splits)

lemma wpA_read [wp]: "wpA (readA g) Q E s = Q (g s) s"
  by (simp add: wpA_def readA_def)

lemma wpA_write [wp]: "wpA (writeA g) Q E s = Q () (g s)"
  by (simp add: wpA_def writeA_def)

lemma wpA_recover [wp]:
  "wpA (recoverA g m) Q E s =
     (case m s of (Ok a, t) \<Rightarrow> Q a t | (Fail e, t) \<Rightarrow> E (Some e) t | (Panic p, t) \<Rightarrow> E (Some (g p)) t)"
  by (auto simp: wpA_def recoverA_def split: prod.splits res.splits)

lemma wpA_zoom [wp]:
  "wpA (zoomA g u m) Q E s = wpA m (\<lambda>a x. Q a (u x s)) (\<lambda>e x. E e (u x s)) (g s)"
  by (auto simp: wpA_def zoomA_def split: prod.splits res.splits)

lemma wpA_index [wp]:
  "wpA (indexA xs i) Q E s = (if i < length xs then Q (xs ! i) s else E None s)"
  by (simp add: indexA_def wp)

lemma wpA_if [wp]:
  "wpA (if b then m else n) Q E s = (if b then wpA m Q E s else wpA n Q E s)"
  by simp

lemma wpA_option [wp]:
  "wpA (case x of None \<Rightarrow> m | Some a \<Rightarrow> f a) Q E s =
     (case x of None \<Rightarrow> wpA m Q E s | Some a \<Rightarrow> wpA (f a) Q E s)"
  by (simp split: option.splits)

lemma wpA_mono:
  assumes "wpA m Q E s" and "\<And>a t. Q a t \<Longrightarrow> Q' a t" and "\<And>e t. E e t \<Longrightarrow> E' e t"
  shows "wpA m Q' E' s"
  using assms by (auto simp: wpA_def split: prod.splits res.splits)

text \<open>An action about which nothing is known establishes what holds of every outcome.\<close>

lemma wpA_any: "(\<And>a t. Q a t) \<Longrightarrow> (\<And>e t. E e t) \<Longrightarrow> wpA m Q E s"
  by (auto simp: wpA_def split: prod.splits res.splits)

lemma wpA_OkD: "wpA m Q E s \<Longrightarrow> m s = (Ok a, t) \<Longrightarrow> Q a t"
  by (simp add: wpA_def)

lemma wpA_FailD: "wpA m Q E s \<Longrightarrow> m s = (Fail e, t) \<Longrightarrow> E (Some e) t"
  by (simp add: wpA_def)

lemma wpA_PanicD: "wpA m Q E s \<Longrightarrow> m s = (Panic p, t) \<Longrightarrow> E None t"
  by (simp add: wpA_def)

lemmas wpAD = wpA_OkD wpA_FailD wpA_PanicD

section \<open>Equations of actions\<close>

lemma bindA_Ok_iff:
  "bindA m f s = (Ok b, t) \<longleftrightarrow> (\<exists>a s'. m s = (Ok a, s') \<and> f a s' = (Ok b, t))"
  by (auto simp: bindA_def split: prod.splits res.splits)

lemma mapErr_Ok_iff [simp]: "mapErr g m s = (Ok a, t) \<longleftrightarrow> m s = (Ok a, t)"
  by (auto simp: mapErr_def split: prod.splits res.splits)

lemma wrapA_Ok_iff [simp]: "wrapA f as m s = (Ok a, t) \<longleftrightarrow> m s = (Ok a, t)"
  by (simp add: wrapA_def)

lemma liftA_Ok_iff [simp]: "liftA r s = (Ok a, t) \<longleftrightarrow> r = Inr a \<and> t = s"
  by (auto simp: liftA_def failA_def retA_def split: sum.splits)

lemma checkA_Ok_iff [simp]: "checkA r s = (Ok u, t) \<longleftrightarrow> r = None \<and> t = s"
  by (auto simp: checkA_def failA_def retA_def split: option.splits)

lemma retA_apply [simp]: "retA a s = (Ok a, s)"
  by (simp add: retA_def)

lemma failA_apply [simp]: "failA e s = (Fail e, s)"
  by (simp add: failA_def)

lemma panicA_apply [simp]: "panicA p s = (Panic p, s)"
  by (simp add: panicA_def)

lemma readA_apply [simp]: "readA g s = (Ok (g s), s)"
  by (simp add: readA_def)

lemma writeA_apply [simp]: "writeA g s = (Ok (), g s)"
  by (simp add: writeA_def)

lemma indexA_Ok_iff [simp]: "indexA xs i s = (Ok a, t) \<longleftrightarrow> i < length xs \<and> a = xs ! i \<and> t = s"
  by (auto simp: indexA_def)

lemma recoverA_no_panic: "fst (recoverA g m s) \<noteq> Panic p"
  by (auto simp: recoverA_def split: prod.splits res.splits)

text \<open>Steps that only read, or call a pure function, can be run.\<close>

lemma bindA_read [simp]: "bindA (readA g) f s = f (g s) s"
  by (simp add: bindA_def)

lemma bindA_ret [simp]: "bindA (retA a) f s = f a s"
  by (simp add: bindA_def)

lemma bindA_fail [simp]: "bindA (failA e) f s = (Fail e, s)"
  by (simp add: bindA_def)

lemma bindA_write [simp]: "bindA (writeA g) f s = f () (g s)"
  by (simp add: bindA_def)

lemma liftA_simps [simp]: "liftA (Inr a) = retA a" "liftA (Inl e) = failA e"
  by (simp_all add: liftA_def)

lemma checkA_simps [simp]: "checkA None = retA ()" "checkA (Some e) = failA e"
  by (simp_all add: checkA_def)

lemma wrapA_simps [simp]: "wrapA f as (retA a) = retA a" "wrapA f as (failA e) = failA (Wrapf f as e)"
  by (auto simp: wrapA_def mapErr_def retA_def failA_def)

lemma wpA_run: "m s = m' s \<Longrightarrow> wpA m' Q E s \<Longrightarrow> wpA m Q E s"
  by (simp add: wpA_def)

text \<open>The definitions that evaluate an action on a concrete state.\<close>

lemmas act_eval = bindA_def mapErr_def wrapA_def liftA_def checkA_def recoverA_def zoomA_def indexA_def

section \<open>Text\<close>

text \<open>\<open>strconv.Itoa\<close> and \<open>%d\<close>.\<close>

definition digit :: "nat \<Rightarrow> char" where
  "digit n = char_of (48 + n)"

fun itoa_nat :: "nat \<Rightarrow> string" where
  "itoa_nat n = (if n < 10 then [digit n] else itoa_nat (n div 10) @ [digit (n mod 10)])"

declare itoa_nat.simps [simp del]

definition itoa :: "int \<Rightarrow> string" where
  "itoa i = (if i < 0 then CHR ''-'' # itoa_nat (nat (- i)) else itoa_nat (nat i))"

text \<open>\<open>strings.CutPrefix\<close>, its first result.\<close>

fun cut_prefix :: "string \<Rightarrow> string \<Rightarrow> string option" where
  "cut_prefix [] s = Some s"
| "cut_prefix (c # p) [] = None"
| "cut_prefix (c # p) (d # s) = (if c = d then cut_prefix p s else None)"

lemma cut_prefix_iff: "cut_prefix p s = Some r \<longleftrightarrow> s = p @ r"
  by (induction p s rule: cut_prefix.induct) auto

definition CutPrefix :: "string \<Rightarrow> string \<Rightarrow> string" where
  "CutPrefix s p = (case cut_prefix p s of None \<Rightarrow> s | Some r \<Rightarrow> r)"

text \<open>\<open>s[:n] + "..."\<close> when \<open>s\<close> is longer than \<open>n\<close>, which several places write out.\<close>

definition cap_text :: "nat \<Rightarrow> string \<Rightarrow> string" where
  "cap_text n s = (if length s \<le> n then s else take n s @ ''...'')"

lemma cap_text_length: "length (cap_text n s) \<le> n + 3"
  by (simp add: cap_text_def)

lemma cap_text_prefix: "take n (cap_text n s) = take n s"
  by (simp add: cap_text_def)

lemma cap_text_idle: "length s \<le> n \<Longrightarrow> cap_text n s = s"
  by (simp add: cap_text_def)

section \<open>Lists\<close>

text \<open>Position of the first occurrence, \<open>slices.Index\<close>; \<open>None\<close> is -1.\<close>

fun slices_Index :: "'a list \<Rightarrow> 'a \<Rightarrow> nat option" where
  "slices_Index [] x = None"
| "slices_Index (y # ys) x = (if y = x then Some 0 else map_option Suc (slices_Index ys x))"

lemma slices_Index_None [simp]: "slices_Index xs x = None \<longleftrightarrow> x \<notin> set xs"
  by (induction xs) auto

lemma slices_Index_Some: "slices_Index xs x = Some i \<Longrightarrow> i < length xs \<and> xs ! i = x"
  by (induction xs arbitrary: i) (auto split: if_splits)

section \<open>Time\<close>

text \<open>
  \<open>time.Unix(sec, 0)\<close> stores the seconds since the year one in 64 bits, so the addition wraps.
  \<open>Sub\<close> saturates at the ends of a 64-bit duration; \<open>Round\<close> rounds half away from zero and
  saturates.
\<close>

definition max_duration :: duration where
  "max_duration = 2 ^ 63 - 1"

definition min_duration :: duration where
  "min_duration = - (2 ^ 63)"

definition time_Unix :: "i64 \<Rightarrow> time" where
  "time_Unix sec = sint (sec + 62135596800) * second"

definition time_Sub :: "time \<Rightarrow> time \<Rightarrow> duration" where
  "time_Sub t u = max min_duration (min max_duration (t - u))"

definition duration_Round :: "duration \<Rightarrow> duration \<Rightarrow> duration" where
  "duration_Round d m =
     (let r = \<bar>d\<bar> mod m; a = \<bar>d\<bar> - r; b = (if r + r < m then a else a + m) in
      max min_duration (min max_duration (if d < 0 then - b else b)))"

lemma time_Sub_mono: "t \<le> t' \<Longrightarrow> time_Sub t u \<le> time_Sub t' u"
  by (auto simp: time_Sub_def)

lemma time_Sub_le_iff: "- (2 ^ 63) \<le> d \<Longrightarrow> d < 2 ^ 63 - 1 \<Longrightarrow> time_Sub t u \<le> d \<longleftrightarrow> t - u \<le> d"
  by (auto simp: time_Sub_def min_duration_def max_duration_def)

section \<open>Text of errors\<close>

text \<open>
  \<open>err.Error()\<close>. How \<open>fmt\<close> renders a format with its arguments is the parameter \<open>sprintf\<close>.
\<close>

fun error_text :: "(string \<Rightarrow> arg list \<Rightarrow> string) \<Rightarrow> error \<Rightarrow> string" where
  "error_text sprintf (New s) = s"
| "error_text sprintf (Errorf f as) = sprintf f as"
| "error_text sprintf (Wrapf f as e) = sprintf f as @ error_text sprintf e"
| "error_text sprintf (WrapPre e f as) = error_text sprintf e @ sprintf f as"
| "error_text sprintf (WrapText s e) = s @ error_text sprintf e"
| "error_text sprintf (Lib s) = s"
| "error_text sprintf CtxErr = ''context canceled''"
| "error_text sprintf ErrStartupNotFinished = ''startup not finished yet''"
| "error_text sprintf ErrNoIndexerState = ''no indexer state observed yet''"
| "error_text sprintf ErrIndexerStale = ''indexer block too old''"
| "error_text sprintf ErrUnknownStatus = ''unknown verifier status''"
| "error_text sprintf ErrEmptyResponseBody = ''VERIFIED verifier response with empty response body''"
| "error_text sprintf ErrResponseBodyTooBig = ''verifier response body exceeds the instruction size limit''"
| "error_text sprintf ErrNetClosed = ''use of closed network connection''"
| "error_text sprintf (Join a b) = error_text sprintf a @ [CHR 0x0A] @ error_text sprintf b"

end
