(* ===== verification/Config.thy ===== *)
theory Config
  imports Relay_Prelude
begin

text \<open>
  The relay's configuration, \<open>pkg/config/config.go\<close>: its structs, the default values, the
  overrides read from the environment and the checks that startup runs.

  Parameters stand for what the code calls outside the repository: the environment
  (\<open>os.LookupEnv\<close>), \<open>common.Address.UnmarshalText\<close>, \<open>url.Parse\<close> (its scheme and host),
  \<open>convert.StringToCommonHash\<close> and \<open>crypto.HexToECDSA\<close>. A Go map is an association list in
  the order in which \<open>range\<close> happens to visit it. The fields \<open>DB\<close> and \<open>Logging\<close>, structs of
  another module that this package only carries, are left out.
\<close>

section \<open>Structs\<close>

text \<open>Of \<open>priority.Params\<close>, a struct of another module, the three fields the code names.\<close>

record priority_params =
  MaxAttempts :: int
  TimeOff :: duration
  ErrorChan :: bool

record credentials =
  KeyName :: string
  Key :: string
  URL :: string

record signer_cfg =
  Credentials :: credentials
  Local :: bool
  PrivateKeyVariable :: string

record verifier_cfg =
  AttType :: string
  SourceID :: string
  Server :: credentials
  QueueName :: string

record fdc_cfg =
  Queues :: "(string \<times> priority_params) list"
  Verifiers :: "(string \<times> verifier_cfg) list"

record collector_cfg =
  StartInterval :: i64

record health_cfg =
  Disabled :: bool
  Port :: int
  MaxIndexerLag :: duration

record config =
  FlareTeeManager :: address
  ChainID :: u64
  IsCosigner :: bool
  Signer :: signer_cfg
  FDC :: fdc_cfg
  Collector :: collector_cfg
  Health :: health_cfg
  AllowUnsafeURLs :: bool

section \<open>Defaults\<close>

definition DefaultPrivateKeyVariable :: string where
  "DefaultPrivateKeyVariable = ''PRIVATE_KEY''"

definition FlareTeeManagerVariable :: string where
  "FlareTeeManagerVariable = ''FLARE_TEE_MANAGER_CONTRACT_ADDRESS''"

definition DefaultStartInterval :: i64 where
  "DefaultStartInterval = 100"

definition DefaultHealthPort :: int where
  "DefaultHealthPort = 8080"

definition DefaultMaxIndexerLag :: duration where
  "DefaultMaxIndexerLag = 30 * second"

definition Default :: config where
  "Default = \<lparr>
     FlareTeeManager = 0, ChainID = 0, IsCosigner = False,
     Signer = \<lparr>Credentials = \<lparr>KeyName = [], Key = [], URL = []\<rparr>, Local = False, PrivateKeyVariable = []\<rparr>,
     FDC = \<lparr>Queues = [], Verifiers = []\<rparr>,
     Collector = \<lparr>StartInterval = DefaultStartInterval\<rparr>,
     Health = \<lparr>Disabled = False, Port = DefaultHealthPort, MaxIndexerLag = DefaultMaxIndexerLag\<rparr>,
     AllowUnsafeURLs = False\<rparr>"

section \<open>The environment override of the manager address\<close>

text \<open>
  \<open>strings.TrimSpace\<close>: the white space of \<open>unicode.IsSpace\<close>, as its UTF-8 byte sequences,
  is cut from both ends.
\<close>

definition space_seqs :: "string list" where
  "space_seqs =
     [[CHR 0x09], [CHR 0x0A], [CHR 0x0B], [CHR 0x0C], [CHR 0x0D], [CHR 0x20], [CHR 0xC2, CHR 0x85],
      [CHR 0xC2, CHR 0xA0], [CHR 0xE1, CHR 0x9A, CHR 0x80]]
     @ map (\<lambda>c. [CHR 0xE2, CHR 0x80, c])
         [CHR 0x80, CHR 0x81, CHR 0x82, CHR 0x83, CHR 0x84, CHR 0x85, CHR 0x86, CHR 0x87, CHR 0x88,
          CHR 0x89, CHR 0x8A, CHR 0xA8, CHR 0xA9, CHR 0xAF]
     @ [[CHR 0xE2, CHR 0x81, CHR 0x9F], [CHR 0xE3, CHR 0x80, CHR 0x80]]"

lemma space_seqs_ne: "p \<in> set space_seqs \<Longrightarrow> p \<noteq> []"
  by (auto simp: space_seqs_def)

text \<open>One leading (or, on a reversed string, trailing) space, when there is one.\<close>

definition strip_one :: "string list \<Rightarrow> string \<Rightarrow> string option" where
  "strip_one ps s = (case filter (\<lambda>p. cut_prefix p s \<noteq> None) ps of [] \<Rightarrow> None | p # _ \<Rightarrow> cut_prefix p s)"

lemma strip_one_shorter:
  assumes "strip_one ps s = Some r" and "\<And>p. p \<in> set ps \<Longrightarrow> p \<noteq> []"
  shows "length r < length s"
proof -
  let ?hits = "filter (\<lambda>p. cut_prefix p s \<noteq> None) ps"
  from assms(1) obtain p ps' where hits: "?hits = p # ps'" and r: "cut_prefix p s = Some r"
    by (auto simp: strip_one_def split: list.splits)
  have "p \<in> set ?hits" unfolding hits by simp
  then have p: "p \<in> set ps" by simp
  from r have "s = p @ r" by (simp add: cut_prefix_iff)
  moreover from p assms(2) have "p \<noteq> []" by blast
  ultimately show ?thesis by simp
qed

function trim_left :: "string \<Rightarrow> string" where
  "trim_left s = (case strip_one space_seqs s of None \<Rightarrow> s | Some r \<Rightarrow> trim_left r)"
  by pat_completeness auto
termination
  by (relation "measure length") (auto intro!: strip_one_shorter dest: space_seqs_ne)

function trim_left_rev :: "string \<Rightarrow> string" where
  "trim_left_rev s = (case strip_one (map rev space_seqs) s of None \<Rightarrow> s | Some r \<Rightarrow> trim_left_rev r)"
  by pat_completeness auto
termination
  by (relation "measure length") (auto intro!: strip_one_shorter dest: space_seqs_ne)

declare trim_left.simps [simp del] trim_left_rev.simps [simp del]

definition TrimSpace :: "string \<Rightarrow> string" where
  "TrimSpace s = rev (trim_left_rev (rev (trim_left s)))"

definition ApplyFlareTeeManagerEnv ::
    "(string \<Rightarrow> string option) \<Rightarrow> (string \<Rightarrow> error + address) \<Rightarrow> config \<Rightarrow> errorp \<times> config" where
  "ApplyFlareTeeManagerEnv lookupEnv unmarshalText c =
     (case lookupEnv FlareTeeManagerVariable of
        None \<Rightarrow> (None, c)
      | Some v \<Rightarrow>
         (let value = TrimSpace v in
          case unmarshalText value of
            Inl e \<Rightarrow> (Some (Wrapf ''parsing %s: '' [AStr FlareTeeManagerVariable] e), c)
          | Inr address \<Rightarrow>
              if address = 0 then (Some (Errorf ''%s is the zero address'' [AStr FlareTeeManagerVariable]), c)
              else if FlareTeeManager c \<noteq> 0 \<and> FlareTeeManager c \<noteq> address then
                (Some (Errorf ''%s is %s but flare_tee_manager in the config file is %s''
                   [AStr FlareTeeManagerVariable, AAddr address, AAddr (FlareTeeManager c)]), c)
              else (None, c\<lparr>FlareTeeManager := address\<rparr>)))"

section \<open>The checks of startup\<close>

definition CheckAddress :: "config \<Rightarrow> errorp" where
  "CheckAddress c = (if FlareTeeManager c = 0 then Some (New ''FlareTeeManager address not set'') else None)"

definition CheckChainID :: "config \<Rightarrow> errorp" where
  "CheckChainID c = (if ChainID c = 0 then Some (New ''chain id should be a positive integer'') else None)"

definition CheckStartInterval :: "config \<Rightarrow> errorp" where
  "CheckStartInterval c =
     (if StartInterval (Collector c) <s 0
      then Some (Errorf ''collector start_interval must not be negative, got %d'' [AInt (sint (StartInterval (Collector c)))])
      else None)"

fun CheckQueues_range :: "(string \<times> priority_params) list \<Rightarrow> errorp" where
  "CheckQueues_range [] = None"
| "CheckQueues_range ((name, q) # qs) =
     (if MaxAttempts q < 1 then
        Some (Errorf ''queue %q: max_attempts must be at least 1, got %d'' [AStr name, AInt (MaxAttempts q)])
      else if MaxAttempts q > 1 \<and> TimeOff q \<le> 0 then
        Some (Errorf ''queue %q: time_off must be positive when max_attempts > 1'' [AStr name])
      else CheckQueues_range qs)"

definition CheckQueues :: "config \<Rightarrow> errorp" where
  "CheckQueues c = CheckQueues_range (Queues (FDC c))"

text \<open>\<open>net.JoinHostPort("", strconv.Itoa(h.Port))\<close>: an empty host has no colon, so no brackets.\<close>

definition Address :: "health_cfg \<Rightarrow> string" where
  "Address h = '':'' @ itoa (Port h)"

definition CheckHealth :: "config \<Rightarrow> errorp" where
  "CheckHealth c =
     (let h = Health c in
      if Disabled h then None
      else if Port h < 1 \<or> Port h > 65535 then
        Some (Errorf ''health port must be in 1-65535, got %d'' [AInt (Port h)])
      else if MaxIndexerLag h \<le> 0 then
        Some (Errorf ''health max_indexer_lag must be positive, got %s'' [AInt (MaxIndexerLag h)])
      else None)"

section \<open>Credentials\<close>

definition headerTokenSpecials :: string where
  "headerTokenSpecials = ''!#$%&'' @ [CHR 0x27] @ ''*+-.^_`|~''"

definition token_byte :: "char \<Rightarrow> bool" where
  "token_byte b = ((CHR ''a'' \<le> b \<and> b \<le> CHR ''z'') \<or> (CHR ''A'' \<le> b \<and> b \<le> CHR ''Z'')
     \<or> (CHR ''0'' \<le> b \<and> b \<le> CHR ''9'') \<or> b \<in> set headerTokenSpecials)"

fun checkHeaderName :: "string \<Rightarrow> errorp" where
  "checkHeaderName [] = None"
| "checkHeaderName (b # name) =
     (if token_byte b then checkHeaderName name
      else Some (Errorf ''byte %q is not a valid HTTP header name character'' [AStr [b]]))"

definition Check :: "(string \<Rightarrow> error + string \<times> string) \<Rightarrow> credentials \<Rightarrow> errorp" where
  "Check urlParse c =
     (if URL c = '''' then Some (New ''URL not set'')
      else case urlParse (URL c) of
        Inl e \<Rightarrow> Some (Wrapf ''invalid URL: '' [] e)
      | Inr (scheme, host) \<Rightarrow>
          if scheme \<noteq> ''http'' \<and> scheme \<noteq> ''https'' then
            Some (Errorf ''URL scheme must be http or https, got %q'' [AStr scheme])
          else if host = '''' then Some (New ''URL host not set'')
          else if length (Key c) \<noteq> 0 \<and> length (KeyName c) = 0 then Some (New ''unnamed api key'')
          else case checkHeaderName (KeyName c) of
            Some e \<Rightarrow> Some (Wrapf ''key_name: '' [] e)
          | None \<Rightarrow>
              if CHR 0x0D \<in> set (Key c) \<or> CHR 0x0A \<in> set (Key c) then
                Some (New ''key must not contain CR or LF'')
              else None)"

text \<open>\<open>call.APIKey\<close>, a name and a key.\<close>

definition APIKey :: "credentials \<Rightarrow> string \<times> string" where
  "APIKey c = (KeyName c, Key c)"

section \<open>Identifiers of verifiers\<close>

text \<open>Two 32-byte arrays copied side by side into a 64-byte array.\<close>

definition join_halves :: "hash \<Rightarrow> hash \<Rightarrow> att_id" where
  "join_halves h l = word_cat h l"

definition JoinAttTypeAndSourceID :: "(string \<Rightarrow> error + hash) \<Rightarrow> string \<Rightarrow> string \<Rightarrow> error + att_id" where
  "JoinAttTypeAndSourceID toHash attType sourceID =
     (case toHash attType of
        Inl e \<Rightarrow> Inl (Wrapf ''att type: '' [] e)
      | Inr h \<Rightarrow>
        (case toHash sourceID of
           Inl e \<Rightarrow> Inl (Wrapf ''source ID: '' [] e)
         | Inr si \<Rightarrow> Inr (join_halves h si)))"

definition verifier_AttTypeAndSourceID :: "(string \<Rightarrow> error + hash) \<Rightarrow> verifier_cfg \<Rightarrow> error + att_id" where
  "verifier_AttTypeAndSourceID toHash v = JoinAttTypeAndSourceID toHash (AttType v) (SourceID v)"

section \<open>The private key\<close>

definition PrivateKeyFromEnv ::
    "(string \<Rightarrow> string option) \<Rightarrow> (string \<Rightarrow> error + 'k) \<Rightarrow> string \<Rightarrow> error + 'k" where
  "PrivateKeyFromEnv lookupEnv hexToECDSA variableName =
     (let name = (if length variableName = 0 then DefaultPrivateKeyVariable else variableName) in
      case lookupEnv name of
        None \<Rightarrow> Inl (New ''private key not set'')
      | Some skStr \<Rightarrow> hexToECDSA (CutPrefix (CutPrefix skStr ''0x'') ''0X''))"

section \<open>What the checks accept\<close>

definition queue_ok :: "priority_params \<Rightarrow> bool" where
  "queue_ok q \<longleftrightarrow> 1 \<le> MaxAttempts q \<and> (1 < MaxAttempts q \<longrightarrow> 0 < TimeOff q)"

lemma CheckQueues_range_None: "CheckQueues_range qs = None \<longleftrightarrow> list_all (\<lambda>nq. queue_ok (snd nq)) qs"
  by (induction qs rule: CheckQueues_range.induct) (auto simp: queue_ok_def)

lemma CheckQueues_None: "CheckQueues c = None \<longleftrightarrow> (\<forall>nq \<in> set (Queues (FDC c)). queue_ok (snd nq))"
  by (simp add: CheckQueues_def CheckQueues_range_None list_all_iff)

lemma CheckAddress_None: "CheckAddress c = None \<longleftrightarrow> FlareTeeManager c \<noteq> 0"
  by (simp add: CheckAddress_def)

lemma CheckChainID_None: "CheckChainID c = None \<longleftrightarrow> ChainID c \<noteq> 0"
  by (simp add: CheckChainID_def)

lemma CheckStartInterval_None: "CheckStartInterval c = None \<longleftrightarrow> 0 \<le> sint (StartInterval (Collector c))"
  by (simp add: CheckStartInterval_def word_sless_alt linorder_not_less)

lemma CheckHealth_None:
  "CheckHealth c = None \<longleftrightarrow>
     Disabled (Health c) \<or> (1 \<le> Port (Health c) \<and> Port (Health c) \<le> 65535 \<and> 0 < MaxIndexerLag (Health c))"
  by (auto simp: CheckHealth_def Let_def)

lemma checkHeaderName_None: "checkHeaderName name = None \<longleftrightarrow> (\<forall>b \<in> set name. token_byte b)"
  by (induction name) auto

lemmas check_iffs = CheckAddress_None CheckChainID_None CheckStartInterval_None CheckQueues_None CheckHealth_None

text \<open>The credentials \<open>Check\<close> lets through.\<close>

definition creds_ok :: "(string \<Rightarrow> error + string \<times> string) \<Rightarrow> credentials \<Rightarrow> bool" where
  "creds_ok urlParse c \<longleftrightarrow>
     URL c \<noteq> '''' \<and>
     (\<exists>scheme host. urlParse (URL c) = Inr (scheme, host) \<and> scheme \<in> {''http'', ''https''} \<and> host \<noteq> '''') \<and>
     (Key c \<noteq> '''' \<longrightarrow> KeyName c \<noteq> '''') \<and>
     (\<forall>b \<in> set (KeyName c). token_byte b) \<and>
     CHR 0x0D \<notin> set (Key c) \<and> CHR 0x0A \<notin> set (Key c)"

lemma Check_None: "Check urlParse c = None \<longleftrightarrow> creds_ok urlParse c"
proof (cases "urlParse (URL c)")
  case (Inr sh)
  then show ?thesis
    by (cases sh; cases "checkHeaderName (KeyName c)")
      (auto simp: Check_def creds_ok_def simp flip: checkHeaderName_None)
qed (simp add: Check_def creds_ok_def)

section \<open>Identifiers are determined by their halves\<close>

lemma word_split_join: "word_split (join_halves a b) = (a, b)"
  by (rule word_split_cat_alt [OF join_halves_def]) (simp add: word_size)

lemma join_halves_eq_iff: "join_halves a b = join_halves c d \<longleftrightarrow> a = c \<and> b = d"
  by (metis word_split_join prod.inject)

lemma join_halves_surj: "\<exists>a b. w = join_halves a b"
proof -
  obtain a b :: hash where "word_split w = (a, b)" by fastforce
  then have "word_cat a b = w"
    by (intro word_cat_split_alt) (simp_all add: word_size)
  then show ?thesis by (auto simp: join_halves_def)
qed

lemma JoinAttTypeAndSourceID_Inr:
  "JoinAttTypeAndSourceID toHash t s = Inr w \<longleftrightarrow>
     (\<exists>h l. toHash t = Inr h \<and> toHash s = Inr l \<and> w = join_halves h l)"
  by (auto simp: JoinAttTypeAndSourceID_def split: sum.splits)

section \<open>Trimming\<close>

text \<open>No white-space sequence starts another, so at most one matches at the front.\<close>

lemma cut_prefix_append:
  "cut_prefix q (p @ s) = Some r \<Longrightarrow> cut_prefix q p \<noteq> None \<or> cut_prefix p q \<noteq> None"
  by (induction q p rule: cut_prefix.induct) (auto split: if_splits)

definition prefix_free :: "string list \<Rightarrow> bool" where
  "prefix_free ps \<longleftrightarrow> list_all (\<lambda>p. list_all (\<lambda>q. p = q \<or> cut_prefix p q = None) ps) ps \<and> distinct ps"

lemma strip_one_hit:
  assumes "prefix_free ps" and "p \<in> set ps"
  shows "strip_one ps (p @ s) = Some s"
proof -
  let ?hits = "filter (\<lambda>q. cut_prefix q (p @ s) \<noteq> None) ps"
  have self: "cut_prefix p (p @ s) = Some s"
    by (simp add: cut_prefix_iff)
  have only: "q = p" if "q \<in> set ?hits" for q
  proof -
    from that obtain r where "cut_prefix q (p @ s) = Some r" and q: "q \<in> set ps" by auto
    then have "cut_prefix q p \<noteq> None \<or> cut_prefix p q \<noteq> None" by (blast dest: cut_prefix_append)
    with assms q show ?thesis unfolding prefix_free_def list_all_iff by metis
  qed
  from self assms(2) have "p \<in> set ?hits" by simp
  then obtain h hs where hits: "?hits = h # hs" by (metis empty_iff list.exhaust list.set(1))
  have "h \<in> set ?hits" unfolding hits by simp
  then have "h = p" by (rule only)
  with hits self show ?thesis by (simp add: strip_one_def)
qed

lemma prefix_free_spaces: "prefix_free space_seqs" "prefix_free (map rev space_seqs)"
  by (simp_all add: prefix_free_def space_seqs_def)

lemma trim_left_space: "p \<in> set space_seqs \<Longrightarrow> trim_left (p @ s) = trim_left s"
  by (subst trim_left.simps) (simp add: strip_one_hit [OF prefix_free_spaces(1)])

lemma trim_left_rev_space: "p \<in> set space_seqs \<Longrightarrow> trim_left_rev (rev p @ s) = trim_left_rev s"
  by (subst trim_left_rev.simps) (simp add: strip_one_hit [OF prefix_free_spaces(2)])

lemma trim_left_spaces: "set ps \<subseteq> set space_seqs \<Longrightarrow> trim_left (concat ps @ s) = trim_left s"
  by (induction ps) (auto simp: trim_left_space)

lemma trim_left_rev_spaces:
  "set ps \<subseteq> set space_seqs \<Longrightarrow> trim_left_rev (rev (concat ps) @ s) = trim_left_rev s"
  by (induction ps rule: rev_induct) (auto simp: trim_left_rev_space)

lemma strip_one_miss: "(\<And>p. p \<in> set ps \<Longrightarrow> p \<noteq> [] \<and> hd p \<noteq> c) \<Longrightarrow> strip_one ps (c # s) = None"
proof -
  assume miss: "\<And>p. p \<in> set ps \<Longrightarrow> p \<noteq> [] \<and> hd p \<noteq> c"
  have "cut_prefix p (c # s) = None" if "p \<in> set ps" for p
    using miss [OF that] by (cases p) auto
  then have "filter (\<lambda>p. cut_prefix p (c # s) \<noteq> None) ps = []"
    by (auto simp: filter_empty_conv)
  then show ?thesis by (simp add: strip_one_def)
qed

definition printable :: "char \<Rightarrow> bool" where
  "printable c \<longleftrightarrow> (CHR ''!'' \<le> c \<and> c \<le> CHR ''~'')"

lemma space_edges:
  "list_all (\<lambda>p. p \<noteq> [] \<and> \<not> printable (hd p) \<and> \<not> printable (hd (rev p))) space_seqs"
  by code_simp

lemma trim_left_printable:
  assumes "printable c"
  shows "trim_left (c # s) = c # s" and "trim_left_rev (c # s) = c # s"
proof -
  have "strip_one space_seqs (c # s) = None" "strip_one (map rev space_seqs) (c # s) = None"
    using space_edges assms by (auto simp: list_all_iff intro!: strip_one_miss)
  then show "trim_left (c # s) = c # s" and "trim_left_rev (c # s) = c # s"
    by (simp_all add: trim_left.simps [of "c # s"] trim_left_rev.simps [of "c # s"])
qed

lemma TrimSpace_padded:
  assumes "set ps \<subseteq> set space_seqs" "set qs \<subseteq> set space_seqs"
    and "s \<noteq> []" "printable (hd s)" "printable (last s)"
  shows "TrimSpace (concat ps @ s @ concat qs) = s"
proof -
  have "trim_left (concat ps @ s @ concat qs) = s @ concat qs"
    using assms by (cases s) (simp_all add: trim_left_spaces trim_left_printable)
  moreover have "trim_left_rev (rev (concat qs) @ rev s) = rev s"
    using assms by (cases s rule: rev_cases) (simp_all add: trim_left_rev_spaces trim_left_printable)
  ultimately show ?thesis by (simp add: TrimSpace_def)
qed

section \<open>The manager address\<close>

text \<open>
  What the override does when the variable is set: it never replaces a different configured
  address, and what it leaves is the address the variable names.
\<close>

lemma ApplyFlareTeeManagerEnv_ok:
  assumes "lookupEnv FlareTeeManagerVariable = Some v"
  shows "ApplyFlareTeeManagerEnv lookupEnv unmarshalText c = (None, c') \<longleftrightarrow>
     (\<exists>a. unmarshalText (TrimSpace v) = Inr a \<and> a \<noteq> 0 \<and> FlareTeeManager c \<in> {0, a}
        \<and> c' = c\<lparr>FlareTeeManager := a\<rparr>)"
  using assms by (auto simp: ApplyFlareTeeManagerEnv_def Let_def split: sum.splits)

lemma ApplyFlareTeeManagerEnv_err:
  "ApplyFlareTeeManagerEnv lookupEnv unmarshalText c = (Some e, c') \<Longrightarrow> c' = c"
  by (auto simp: ApplyFlareTeeManagerEnv_def Let_def split: option.splits sum.splits if_splits)

lemma ApplyFlareTeeManagerEnv_unset:
  "lookupEnv FlareTeeManagerVariable = None \<Longrightarrow> ApplyFlareTeeManagerEnv lookupEnv unmarshalText c = (None, c)"
  by (simp add: ApplyFlareTeeManagerEnv_def)

section \<open>Properties\<close>

text \<open>
  The credentials check accepts exactly the credentials with a parsable http or https URL that
  has a host, a name made of token bytes that is only empty when the key is, and a key without line
  breaks.
\<close>

lemma credentials_accepted: "Check urlParse c = None \<longleftrightarrow> creds_ok urlParse c"
  by (rule Check_None)

text \<open>
  White space around the address in the environment, of any of the kinds Go knows, makes no
  difference to the override.
\<close>

lemma manager_env_padding:
  assumes "set ps \<subseteq> set space_seqs" and "set qs \<subseteq> set space_seqs"
    and "s \<noteq> []" and "printable (hd s)" and "printable (last s)"
  shows "ApplyFlareTeeManagerEnv (\<lambda>n. Some (concat ps @ s @ concat qs)) unmarshalText c =
    ApplyFlareTeeManagerEnv (\<lambda>n. Some s) unmarshalText c"
proof -
  have "TrimSpace (concat ps @ s @ concat qs) = s" using assms by (rule TrimSpace_padded)
  moreover have "TrimSpace s = s" using TrimSpace_padded [of "[]" "[]" s] assms by simp
  ultimately show ?thesis by (simp add: ApplyFlareTeeManagerEnv_def)
qed

lemma manager_env_padding_witness:
  "ApplyFlareTeeManagerEnv (\<lambda>n. Some (concat [[CHR 0x09], [CHR 0xC2, CHR 0xA0]] @ ''0x7'' @ concat [[CHR 0x0A]]))
     (\<lambda>t. if t = ''0x7'' then Inr 7 else Inl CtxErr) Default = (None, Default\<lparr>FlareTeeManager := 7\<rparr>)"
proof -
  have pre: "set [[CHR 0x09], [CHR 0xC2, CHR 0xA0]] \<subseteq> set space_seqs" "set [[CHR 0x0A]] \<subseteq> set space_seqs"
    "''0x7'' \<noteq> []" "printable (hd ''0x7'')" "printable (last ''0x7'')"
    by (simp_all add: space_seqs_def printable_def)
  have trim: "TrimSpace ''0x7'' = ''0x7''"
    using TrimSpace_padded [of "[]" "[]" "''0x7''"] pre by simp
  show ?thesis
    unfolding manager_env_padding [OF pre]
    by (simp add: ApplyFlareTeeManagerEnv_def trim Default_def)
qed

text \<open>
  With the variable set, the override succeeds exactly when its text is a nonzero address that
  the configuration does not contradict, and then the manager is that address; on an error the
  configuration stays as it was.
\<close>

lemma manager_env_override:
  assumes "lookupEnv FlareTeeManagerVariable = Some v"
  shows "(ApplyFlareTeeManagerEnv lookupEnv unmarshalText c = (None, c') \<longleftrightarrow>
      (\<exists>a. unmarshalText (TrimSpace v) = Inr a \<and> a \<noteq> 0 \<and> FlareTeeManager c \<in> {0, a}
         \<and> c' = c\<lparr>FlareTeeManager := a\<rparr>)) \<and>
    (ApplyFlareTeeManagerEnv lookupEnv unmarshalText c = (Some e, c') \<longrightarrow> c' = c)"
  using ApplyFlareTeeManagerEnv_ok [where lookupEnv = lookupEnv, OF assms]
  by (intro conjI impI) (assumption, erule ApplyFlareTeeManagerEnv_err)

lemma manager_env_override_witness:
  "ApplyFlareTeeManagerEnv (\<lambda>n. Some ''0x7'') (\<lambda>t. Inr 7) (Default\<lparr>FlareTeeManager := 9\<rparr>) \<noteq>
     (None, Default\<lparr>FlareTeeManager := 7\<rparr>)"
  using manager_env_override [of "\<lambda>n. Some ''0x7''" "''0x7''" "\<lambda>t. Inr 7" "Default\<lparr>FlareTeeManager := 9\<rparr>"
      "Default\<lparr>FlareTeeManager := 7\<rparr>"]
  by simp

end
