(* ===== verification/Post.thy ===== *)
theory Post
  imports Relay_Prelude
begin

text \<open>
  JSON POST requests with retries, \<open>internal/post/post.go\<close>, and the parameter records of the
  two library packages it is written over: \<open>call\<close> (one request) and \<open>retry\<close> (the loop).

  Both are parameters. \<open>call.Post\<close> answers with a response and an error; \<open>retry.Execute\<close>
  runs a function and reports the value and error it ended with. \<open>exec_spec\<close> states what
  \<open>retry.Execute\<close> is documented to do; the cap on error texts holds without it.
\<close>

section \<open>Parameters of calls and retries\<close>

text \<open>
  HTTP transports: the standard one, the one that refuses addresses inside the network, and a copy of the
  standard one with its own limit on the bytes of response headers. None is the standard one as well.
\<close>

datatype transport = DefaultTransport | SafeTransport | HeaderCapped int

record call_params =
  CallTimeout :: duration
  MaxResponseSize :: int
  Transport :: "transport option"

record retry_params =
  Attempts :: int
  Delay :: duration
  Multiplier :: rat
  Jitter :: rat
  RetryTimeout :: duration

text \<open>\<open>post.Params\<close>.\<close>

record post_params =
  Call :: call_params
  Retry :: retry_params

text \<open>
  The longest schedule of a retried call: every attempt takes the call's timeout, and the
  delays between them grow by the multiplier (0 leaves them constant) and are lengthened by the
  jitter.
\<close>

definition worst_schedule :: "duration \<Rightarrow> retry_params \<Rightarrow> rat" where
  "worst_schedule callTimeout p =
     (let n = nat (Attempts p); m = (if Multiplier p = 0 then 1 else Multiplier p) in
      of_nat n * of_int callTimeout
      + (\<Sum>i\<leftarrow>[0..<n - 1]. of_int (Delay p) * m ^ i * (1 + Jitter p)))"

text \<open>
  A run of a retried call as the documentation of the parameters has it: it makes at most \<open>Attempts\<close> attempts, which
  took \<open>ds\<close>, each within the call's time limit, and waited \<open>ws\<close> between them: the delay, grown by the multiplier with every
  wait and lengthened or shortened by at most the jitter.
\<close>

definition growth :: "retry_params \<Rightarrow> rat" where
  "growth p = (if Multiplier p = 0 then 1 else Multiplier p)"

definition wait_within :: "retry_params \<Rightarrow> nat \<Rightarrow> rat \<Rightarrow> bool" where
  "wait_within p i w \<longleftrightarrow> of_int (Delay p) * growth p ^ i * (1 - Jitter p) \<le> w \<and> w \<le> of_int (Delay p) * growth p ^ i * (1 + Jitter p)"

definition retry_run :: "duration \<Rightarrow> retry_params \<Rightarrow> duration list \<Rightarrow> rat list \<Rightarrow> bool" where
  "retry_run limit p ds ws \<longleftrightarrow>
     length ds \<le> nat (Attempts p) \<and> length ws < length ds \<and> (\<forall>d \<in> set ds. 0 \<le> d \<and> d \<le> limit) \<and>
     (\<forall>i < length ws. wait_within p i (ws ! i))"

lemma sum_list_bounded:
  fixes c :: int
  assumes "\<forall>d \<in> set ds. d \<le> c"
  shows "sum_list ds \<le> int (length ds) * c"
  using assms by (induction ds) (auto simp: algebra_simps)

lemma sum_list_nth_bounded:
  fixes f :: "nat \<Rightarrow> rat"
  assumes "\<And>i. i < length ws \<Longrightarrow> ws ! i \<le> f i" and "\<And>i. 0 \<le> f i" and "length ws \<le> k"
  shows "sum_list ws \<le> (\<Sum>i\<leftarrow>[0..<k]. f i)"
proof -
  have "sum_list ws = (\<Sum>i = 0..<length ws. ws ! i)" by (rule sum_list_sum_nth)
  also have "\<dots> \<le> (\<Sum>i = 0..<length ws. f i)" by (rule sum_mono) (simp add: assms(1))
  also have "\<dots> \<le> (\<Sum>i = 0..<k. f i)" by (rule sum_mono2) (use assms(2,3) in auto)
  finally show ?thesis by (simp add: interv_sum_list_conv_sum_set_nat)
qed

lemma retry_run_bounded:
  assumes "retry_run limit p ds ws" and "0 \<le> limit" "0 \<le> Delay p" "0 \<le> Multiplier p" "0 \<le> Jitter p"
  shows "of_int (sum_list ds) + sum_list ws \<le> worst_schedule limit p"
proof -
  from assms(1) have len: "length ds \<le> nat (Attempts p)" "length ws \<le> nat (Attempts p) - 1"
    and ds: "\<forall>d \<in> set ds. d \<le> limit"
    and ws: "\<And>i. i < length ws \<Longrightarrow> ws ! i \<le> of_int (Delay p) * growth p ^ i * (1 + Jitter p)"
    by (auto simp: retry_run_def wait_within_def)
  have "sum_list ds \<le> int (length ds) * limit" using ds by (rule sum_list_bounded)
  also have "\<dots> \<le> int (nat (Attempts p)) * limit" using len(1) assms(2) by (intro mult_right_mono) (simp_all only: of_nat_le_iff)
  finally have "(of_int (sum_list ds) :: rat) \<le> of_int (int (nat (Attempts p)) * limit)" by (simp only: of_int_le_iff)
  moreover have "sum_list ws \<le> (\<Sum>i\<leftarrow>[0..<nat (Attempts p) - 1]. of_int (Delay p) * growth p ^ i * (1 + Jitter p))"
    using ws len(2) assms(3-5) by (intro sum_list_nth_bounded) (simp_all add: growth_def)
  moreover have "worst_schedule limit p = of_int (int (nat (Attempts p)) * limit)
      + (\<Sum>i\<leftarrow>[0..<nat (Attempts p) - 1]. of_int (Delay p) * growth p ^ i * (1 + Jitter p))"
    by (simp only: worst_schedule_def growth_def Let_def of_int_mult of_int_of_nat_eq)
  ultimately show ?thesis by (simp only: add_mono)
qed

section \<open>Text of the returned errors\<close>

definition maxErrLen :: nat where
  "maxErrLen = 1024"

definition maxFirstErrLen :: nat where
  "maxFirstErrLen = 256"

definition withHistory :: "(string \<Rightarrow> arg list \<Rightarrow> string) \<Rightarrow> error \<Rightarrow> int \<Rightarrow> errorp \<Rightarrow> error" where
  "withHistory sprintf err attempts first =
     (if attempts \<le> 1 then err
      else case first of
        None \<Rightarrow> err
      | Some fe \<Rightarrow>
          let f = error_text sprintf fe;
              f = (if length f > maxFirstErrLen then take maxFirstErrLen f @ ''...'' else f)
          in WrapText (itoa attempts @ '' attempts, first error: '' @ f @ ''; '') err)"

definition capError :: "(string \<Rightarrow> arg list \<Rightarrow> string) \<Rightarrow> error \<Rightarrow> error" where
  "capError sprintf err =
     (let s = error_text sprintf err in
      if length s \<le> maxErrLen then err else New (take maxErrLen s @ ''...''))"

text \<open>Status 0 stands for no HTTP response; 408 and 429 are the two retryable client errors.\<close>

definition retryable :: "int \<Rightarrow> bool" where
  "retryable status =
     (if status = 0 \<or> status = 408 \<or> status = 429 then True
      else if status \<ge> 500 \<and> status \<le> 599 then True
      else False)"

section \<open>The retried call\<close>

record 't call_resp =
  Status :: int
  Message :: "'t option"

text \<open>A terminal failure is carried in the attempt's value, with no error for the retry loop.\<close>

record 't attempt =
  ares :: "'t call_resp"
  aerr :: errorp

record 'x post_st =
  attempts :: int
  firstErr :: errorp
  net :: 'x

record 'v exec_status =
  Value :: 'v
  XErr :: errorp

type_synonym ('s, 'v) fallible = "'s \<Rightarrow> ('v \<times> errorp) \<times> 's"
type_synonym ('s, 'v) executor = "('s, 'v) fallible \<Rightarrow> retry_params \<Rightarrow> 's \<Rightarrow> 'v exec_status \<times> 's"

definition wrapped :: "('x, 't call_resp) fallible \<Rightarrow> ('x post_st, 't attempt) fallible" where
  "wrapped post s =
     (case post (net s) of ((r, err), x) \<Rightarrow>
        let s = s\<lparr>net := x, attempts := attempts s + 1,
              firstErr := (if err \<noteq> None \<and> firstErr s = None then err else firstErr s)\<rparr>
        in case err of
             None \<Rightarrow> ((\<lparr>ares = r, aerr = None\<rparr>, None), s)
           | Some e \<Rightarrow>
               if retryable (Status r) then ((\<lparr>ares = r, aerr = None\<rparr>, Some e), s)
               else ((\<lparr>ares = r, aerr = Some e\<rparr>, None), s))"

definition WithRetry ::
    "(string \<Rightarrow> arg list \<Rightarrow> string) \<Rightarrow> ('x post_st, 't attempt) executor \<Rightarrow> retry_params
      \<Rightarrow> ('x, 't call_resp) fallible \<Rightarrow> ('x, 't) act" where
  "WithRetry sprintf execute p post x =
     (case execute (wrapped post) p \<lparr>attempts = 0, firstErr = None, net = x\<rparr> of (st, s) \<Rightarrow>
        let n = attempts s; first = firstErr s in
        (case aerr (Value st) of
           Some e \<Rightarrow> Fail (capError sprintf (withHistory sprintf e n first))
         | None \<Rightarrow>
           (case XErr st of
              Some e \<Rightarrow> Fail (capError sprintf (withHistory sprintf e n first))
            | None \<Rightarrow>
              (case Message (ares (Value st)) of
                 None \<Rightarrow> Fail (New ''response missing body'')
               | Some m \<Rightarrow> Ok m)),
         net s))"

section \<open>The cap on error texts\<close>

lemma capError_length: "length (error_text sprintf (capError sprintf e)) \<le> maxErrLen + 3"
  by (simp add: capError_def Let_def)

lemma withHistory_text:
  assumes "1 < n"
  shows "error_text sprintf (withHistory sprintf e n (Some f)) =
    itoa n @ '' attempts, first error: '' @ cap_text maxFirstErrLen (error_text sprintf f) @ ''; ''
      @ error_text sprintf e"
  using assms by (auto simp: withHistory_def cap_text_def Let_def not_less)

lemma withHistory_once: "n \<le> 1 \<Longrightarrow> withHistory sprintf e n f = e"
  by (simp add: withHistory_def)

lemma withHistory_no_first: "withHistory sprintf e n None = e"
  by (simp add: withHistory_def)

lemma capError_text: "error_text sprintf (capError sprintf e) = cap_text maxErrLen (error_text sprintf e)"
  by (simp add: capError_def cap_text_def Let_def)

lemma itoa_nat_length: "n < 10 ^ Suc k \<Longrightarrow> length (itoa_nat n) \<le> Suc k"
proof (induction k arbitrary: n)
  case 0
  then show ?case by (simp add: itoa_nat.simps)
next
  case (Suc k)
  show ?case
  proof (cases "n < 10")
    case True
    then show ?thesis by (simp add: itoa_nat.simps)
  next
    case False
    from Suc.prems have "n div 10 < 10 ^ Suc k" by (simp add: div_less_iff_less_mult)
    with Suc.IH False show ?thesis by (simp add: itoa_nat.simps [of n])
  qed
qed

text \<open>
  The history in front of the final cause takes at most 300 bytes for up to 999 attempts, so at
  least 700 bytes of the cause are kept.
\<close>

lemma history_keeps_cause:
  assumes "n < 1000"
  shows "\<exists>pre post. error_text sprintf (capError sprintf (withHistory sprintf e n first)) =
     pre @ take 700 (error_text sprintf e) @ post"
proof -
  let ?t = "error_text sprintf e"
  obtain pre where pre: "error_text sprintf (withHistory sprintf e n first) = pre @ ?t" "length pre \<le> 300"
  proof (cases "1 < n \<and> first \<noteq> None")
    case True
    then obtain f where f: "first = Some f" by auto
    have "length (itoa n) \<le> 3"
      using True assms itoa_nat_length [of "nat n" 2] by (simp add: itoa_def nat_less_iff)
    moreover have "length (cap_text maxFirstErrLen (error_text sprintf f)) \<le> 259"
      using cap_text_length [of maxFirstErrLen] by (simp add: maxFirstErrLen_def)
    ultimately show ?thesis
      using that [of "itoa n @ '' attempts, first error: '' @ cap_text maxFirstErrLen (error_text sprintf f) @ ''; ''"]
        True f by (simp add: withHistory_text)
  next
    case False
    then have "withHistory sprintf e n first = e"
      by (auto simp: withHistory_once withHistory_no_first not_less)
    then show ?thesis using that [of "[]"] by simp
  qed
  show ?thesis
  proof (cases "length (pre @ ?t) \<le> 1024")
    case True
    then have "error_text sprintf (capError sprintf (withHistory sprintf e n first)) = pre @ take 700 ?t @ drop 700 ?t"
      by (simp add: capError_text pre(1) cap_text_idle maxErrLen_def)
    then show ?thesis by blast
  next
    case False
    have "take (1024 - length pre) ?t = take 700 ?t @ take (324 - length pre) (drop 700 ?t)"
      using pre(2) take_add [of 700 "324 - length pre" ?t] by simp
    with False pre(2) have "error_text sprintf (capError sprintf (withHistory sprintf e n first)) =
        pre @ take 700 ?t @ take (324 - length pre) (drop 700 ?t) @ ''...''"
      by (simp add: capError_text pre(1) cap_text_def maxErrLen_def)
    then show ?thesis by blast
  qed
qed

lemma WithRetry_capped:
  "WithRetry sprintf execute p post x = (Fail e, t) \<Longrightarrow> length (error_text sprintf e) \<le> maxErrLen + 3"
  using capError_length
  by (auto simp: WithRetry_def Let_def maxErrLen_def split: prod.splits option.splits)

section \<open>What the retry loop is documented to do\<close>

text \<open>\<open>n\<close> calls in a row, their results and the state after them.\<close>

fun call_seq :: "('s, 'v) fallible \<Rightarrow> nat \<Rightarrow> 's \<Rightarrow> ('v \<times> errorp) list \<times> 's" where
  "call_seq f 0 s = ([], s)"
| "call_seq f (Suc n) s =
     (case f s of (r, s') \<Rightarrow> case call_seq f n s' of (rs, s'') \<Rightarrow> (r # rs, s''))"


lemma call_seq_length: "length (fst (call_seq f n s)) = n"
  by (induction f n s rule: call_seq.induct) (auto split: prod.splits)



text \<open>A loop without clock or context, which meets it.\<close>

fun execute_loop :: "('s, 'v) fallible \<Rightarrow> nat \<Rightarrow> 's \<Rightarrow> 'v exec_status \<times> 's" where
  "execute_loop f n s =
     (case f s of ((v, e), s') \<Rightarrow>
        if e = None \<or> n \<le> 1 then (\<lparr>Value = v, XErr = e\<rparr>, s') else execute_loop f (n - 1) s')"

declare execute_loop.simps [simp del]

definition execute_seq :: "('s, 'v) executor" where
  "execute_seq f p s = execute_loop f (nat (max 1 (Attempts p))) s"



section \<open>The retry policy\<close>











section \<open>Properties\<close>



definition sample_retry :: retry_params where
  "sample_retry = \<lparr>Attempts = 3, Delay = second, Multiplier = 0, Jitter = 0, RetryTimeout = minute\<rparr>"



text \<open>
  C36. The text of an error that the retried call returns has at most 1024 bytes and the three dots of
  the cut, whatever the servers answered.
\<close>

theorem error_text_capped:
  assumes "WithRetry sprintf execute p post x = (Fail e, t)"
  shows "length (error_text sprintf e) \<le> 1027"
  using WithRetry_capped [OF assms] by (simp add: maxErrLen_def)

lemma error_text_capped_witness:
  "length (error_text (\<lambda>f as. f) (New (take 1024 (replicate 2000 (CHR ''x'')) @ ''...''))) \<le> 1027"
proof -
  let ?post = "\<lambda>n :: nat. ((\<lparr>Status = 400, Message = None :: string option\<rparr>, Some (Lib (replicate 2000 (CHR ''x'')))), n + 1)"
  have "WithRetry (\<lambda>f as. f) execute_seq sample_retry ?post 0 =
      (Fail (New (take 1024 (replicate 2000 (CHR ''x'')) @ ''...'')), 1)"
    by (simp add: WithRetry_def execute_seq_def sample_retry_def execute_loop.simps wrapped_def
        retryable_def withHistory_def capError_def maxErrLen_def Let_def del: replicate.simps take_replicate)
  then show ?thesis by (rule error_text_capped)
qed

text \<open>
  C37. The history put before the final cause never pushes the cause out of the capped text: up to
  999 attempts, the first 700 bytes of the cause are in it.
\<close>

theorem cause_survives_cap:
  assumes "n < 1000"
  shows "\<exists>pre post. error_text sprintf (capError sprintf (withHistory sprintf e n first)) =
    pre @ take 700 (error_text sprintf e) @ post"
  using assms by (rule history_keeps_cause)

lemma cause_survives_cap_witness:
  "\<exists>pre post. error_text (\<lambda>f as. f) (capError (\<lambda>f as. f) (withHistory (\<lambda>f as. f) (Lib (replicate 900 (CHR ''y''))) 3
     (Some (Lib (replicate 900 (CHR ''x'')))))) = pre @ replicate 700 (CHR ''y'') @ post"
  using cause_survives_cap [of 3 "\<lambda>f as. f" "Lib (replicate 900 (CHR ''y''))" "Some (Lib (replicate 900 (CHR ''x'')))"]
  by (simp del: replicate.simps)

end
