(* ===== verification/Signer.thy ===== *)
theory Signer
  imports Config Post
begin

text \<open>
  The signer interface and its two implementations, \<open>pkg/signer\<close>: \<open>Local\<close> signs with an
  in-process key, \<open>Remote\<close> asks a signer service.

  The interface is the record \<open>signer\<close> of three actions over the outside world \<open>'x\<close>; the
  locale \<open>signer_contract\<close> states what the rest of the relay relies on, one signature per hash
  and in the order of the hashes, each of them valid in a sense the implementation can vouch for,
  and both implementations are shown to keep it: \<open>Local\<close> for signatures its key makes,
  \<open>Remote\<close>, which does not verify what the service answers, for any bytes. The cryptography of the key and the library's
  POST with retries are parameters. Log lines are left out.
\<close>

section \<open>The interface\<close>

text \<open>\<open>types.PublicKey\<close>, the two coordinates of a key.\<close>

record public_key =
  PX :: hash
  PY :: hash

record 'x signer =
  Sign :: "hash list \<Rightarrow> ('x, bytes list) act"
  Decrypt :: "bytes \<Rightarrow> ('x, bytes) act"
  Identify :: "('x, public_key) act"

locale signer_contract =
  fixes sgnr :: "'x signer"
    and valid :: "hash \<Rightarrow> bytes \<Rightarrow> bool"
  assumes sign_valid: "Sign sgnr hs x = (Ok sigs, x') \<Longrightarrow> list_all2 valid hs sigs"
begin

lemma sign_length: "Sign sgnr hs x = (Ok sigs, x') \<Longrightarrow> length sigs = length hs"
  by (drule sign_valid) (simp add: list_all2_lengthD)

lemma wp_Sign:
  "(\<And>sigs x'. list_all2 valid hs sigs \<Longrightarrow> Q sigs x') \<Longrightarrow> (\<And>e x'. E e x') \<Longrightarrow> wpA (Sign sgnr hs) Q E x"
  using sign_valid [of hs x] by (auto simp: wpA_def split: prod.splits res.splits)

end

section \<open>The local signer\<close>

text \<open>\<open>utils.Sign\<close> of every hash in turn; the first failure ends the loop.\<close>

fun Local_Sign_loop :: "(hash \<Rightarrow> 'k \<Rightarrow> error + bytes) \<Rightarrow> 'k \<Rightarrow> hash list \<Rightarrow> error + bytes list" where
  "Local_Sign_loop utilsSign priv [] = Inr []"
| "Local_Sign_loop utilsSign priv (h # hs) =
     (case utilsSign h priv of
        Inl e \<Rightarrow> Inl (Wrapf ''signing hash: '' [] e)
      | Inr sig \<Rightarrow>
          (case Local_Sign_loop utilsSign priv hs of Inl e \<Rightarrow> Inl e | Inr sigs \<Rightarrow> Inr (sig # sigs)))"

definition Local_Sign :: "(hash \<Rightarrow> 'k \<Rightarrow> error + bytes) \<Rightarrow> 'k \<Rightarrow> hash list \<Rightarrow> ('x, bytes list) act" where
  "Local_Sign utilsSign priv hashes = liftA (Local_Sign_loop utilsSign priv hashes)"

definition Local_Decrypt :: "(bytes \<Rightarrow> 'k \<Rightarrow> error + bytes) \<Rightarrow> 'k \<Rightarrow> bytes \<Rightarrow> ('x, bytes) act" where
  "Local_Decrypt utilsDecrypt priv cipher = wrapA ''decrypting: '' [] (liftA (utilsDecrypt cipher priv))"

definition Local_Identify :: "('k \<Rightarrow> public_key) \<Rightarrow> 'k \<Rightarrow> ('x, public_key) act" where
  "Local_Identify pubKeyToStruct priv = retA (pubKeyToStruct priv)"

definition NewLocal ::
    "(hash \<Rightarrow> 'k \<Rightarrow> error + bytes) \<Rightarrow> (bytes \<Rightarrow> 'k \<Rightarrow> error + bytes) \<Rightarrow> ('k \<Rightarrow> public_key) \<Rightarrow> 'k \<Rightarrow> 'x signer" where
  "NewLocal utilsSign utilsDecrypt pubKeyToStruct priv =
     \<lparr>Sign = Local_Sign utilsSign priv, Decrypt = Local_Decrypt utilsDecrypt priv,
      Identify = Local_Identify pubKeyToStruct priv\<rparr>"

section \<open>The remote signer\<close>

definition callTimeout :: duration where
  "callTimeout = 5 * second"

definition bytesPerSignature :: int where
  "bytesPerSignature = 140"

definition signRetry :: retry_params where
  "signRetry = \<lparr>Attempts = 3, Delay = 10 * second, Multiplier = 0, Jitter = 0, RetryTimeout = 40 * second\<rparr>"

definition identifyRetry :: retry_params where
  "identifyRetry = \<lparr>Attempts = 3, Delay = 5 * second, Multiplier = 0, Jitter = 0, RetryTimeout = 45 * second\<rparr>"

definition identifyTimeout :: duration where
  "identifyTimeout = 10 * second"

text \<open>\<open>call.PostWithRetry\<close>: url, API key, body, call parameters, extra statuses, retry parameters.\<close>

type_synonym ('x, 'q, 'r) poster =
  "string \<Rightarrow> string \<times> string \<Rightarrow> 'q \<Rightarrow> call_params \<Rightarrow> int list \<Rightarrow> retry_params \<Rightarrow> ('x, 'r) act"

definition Remote_Sign :: "('x, hash list, bytes list) poster \<Rightarrow> credentials \<Rightarrow> hash list \<Rightarrow> ('x, bytes list) act" where
  "Remote_Sign postWithRetry r hashes =
     bindA (wrapA ''post call to %v rejected: '' [AStr (URL r)]
       (postWithRetry (URL r @ ''/sign'') (APIKey r) hashes
          \<lparr>CallTimeout = callTimeout, MaxResponseSize = 50 + bytesPerSignature * int (length hashes),
            Transport = None\<rparr> [] signRetry))
     (\<lambda>signatures.
        if length hashes \<noteq> length signatures then
          failA (Errorf ''wrong number of signatures, requested %d, got %d''
            [AInt (int (length hashes)), AInt (int (length signatures))])
        else retA signatures)"

definition Remote_Decrypt :: "('x, bytes, bytes) poster \<Rightarrow> credentials \<Rightarrow> bytes \<Rightarrow> ('x, bytes) act" where
  "Remote_Decrypt postWithRetry r cipher =
     wrapA ''post call to %v rejected: '' [AStr (URL r)]
       (postWithRetry (URL r @ ''/decrypt'') (APIKey r) cipher
          \<lparr>CallTimeout = callTimeout, MaxResponseSize = int (10 * (length cipher + 1)), Transport = None\<rparr> [] signRetry)"

text \<open>
  HTTP requests. \<open>Header.Set\<close> replaces a header, under its canonical name: when every byte of the
  name is a token byte, the letter that starts it or follows a hyphen is a capital one and the others are
  not. The client's transport refuses a request with a header name that is empty or has a byte
  outside the token characters, or with a control byte other than a tab in a header value, before
  it is sent.
\<close>

fun canonical_loop :: "bool \<Rightarrow> string \<Rightarrow> string" where
  "canonical_loop upper [] = []"
| "canonical_loop upper (c # cs) =
     (if upper \<and> CHR ''a'' \<le> c \<and> c \<le> CHR ''z'' then char_of ((of_char c :: nat) - 32)
      else if \<not> upper \<and> CHR ''A'' \<le> c \<and> c \<le> CHR ''Z'' then char_of ((of_char c :: nat) + 32)
      else c) # canonical_loop (c = CHR ''-'') cs"

definition CanonicalHeaderKey :: "string \<Rightarrow> string" where
  "CanonicalHeaderKey k = (if list_all token_byte k then canonical_loop True k else k)"

record http_request =
  reqURL :: string
  reqHeader :: "(string \<times> string) list"

record http_response =
  StatusCode :: int
  Body :: bytes

definition header_Set :: "string \<Rightarrow> string \<Rightarrow> http_request \<Rightarrow> http_request" where
  "header_Set k v req =
     (let k = CanonicalHeaderKey k in
      req\<lparr>reqHeader := filter (\<lambda>h. fst h \<noteq> k) (reqHeader req) @ [(k, v)]\<rparr>)"

definition valid_header :: "string \<times> string \<Rightarrow> bool" where
  "valid_header h \<longleftrightarrow> fst h \<noteq> '''' \<and> list_all token_byte (fst h) \<and>
     list_all (\<lambda>b. (of_char b :: nat) \<ge> 32 \<and> of_char b \<noteq> (127 :: nat) \<or> of_char b = (9 :: nat)) (snd h)"

definition client_Do :: "(http_request \<Rightarrow> ('x, http_response) act) \<Rightarrow> http_request \<Rightarrow> ('x, http_response) act" where
  "client_Do transport req =
     (if list_all valid_header (reqHeader req) then transport req
      else failA (New ''net/http: invalid header field''))"

definition idCall :: "(http_request \<Rightarrow> ('x, http_response) act) \<Rightarrow> http_request \<Rightarrow> ('x, bytes) act" where
  "idCall transport req =
     bindA (client_Do transport req)
     (\<lambda>resp. if StatusCode resp \<noteq> 200 then failA (Errorf ''unsuccessful status code %d'' [AInt (StatusCode resp)])
             else retA (Body resp))"

text \<open>
  \<open>execute\<close> is \<open>retry.Execute\<close>, \<open>newRequest\<close> the URL check of
  \<open>http.NewRequestWithContext\<close>, \<open>decode\<close> the strict JSON decoding of a key.
\<close>

definition Remote_Identify ::
    "(string \<Rightarrow> errorp) \<Rightarrow> (http_request \<Rightarrow> ('x, http_response) act)
      \<Rightarrow> (('x, bytes) act \<Rightarrow> retry_params \<Rightarrow> ('x, bytes) act) \<Rightarrow> (bytes \<Rightarrow> error + public_key)
      \<Rightarrow> credentials \<Rightarrow> ('x, public_key) act" where
  "Remote_Identify newRequest transport execute decode r =
     bindA (wrapA ''creating identify request: '' [] (checkA (newRequest (URL r @ ''/id''))))
     (\<lambda>_. let request = \<lparr>reqURL = URL r @ ''/id'', reqHeader = []\<rparr>;
              request = header_Set (KeyName r) (Key r) request;
              request = header_Set ''Content-Type'' ''application/json'' request
      in bindA (execute (idCall transport request) identifyRetry)
         (\<lambda>value. wrapA ''decoding identify response: '' [] (liftA (decode (take 200 value)))))"

definition NewRemote ::
    "('x, hash list, bytes list) poster \<Rightarrow> ('x, bytes, bytes) poster \<Rightarrow> (string \<Rightarrow> errorp)
      \<Rightarrow> (http_request \<Rightarrow> ('x, http_response) act) \<Rightarrow> (('x, bytes) act \<Rightarrow> retry_params \<Rightarrow> ('x, bytes) act)
      \<Rightarrow> (bytes \<Rightarrow> error + public_key) \<Rightarrow> credentials \<Rightarrow> 'x signer" where
  "NewRemote postSign postDecrypt newRequest transport execute decode creds =
     \<lparr>Sign = Remote_Sign postSign creds, Decrypt = Remote_Decrypt postDecrypt creds,
      Identify = Remote_Identify newRequest transport execute decode creds\<rparr>"

section \<open>Both keep the contract\<close>

lemma Local_Sign_loop_nth:
  "Local_Sign_loop utilsSign priv hs = Inr sigs \<Longrightarrow>
     list_all2 (\<lambda>h sig. utilsSign h priv = Inr sig) hs sigs"
  by (induction hs arbitrary: sigs) (auto split: sum.splits)

lemma Local_Sign_Ok: "Local_Sign utilsSign priv hs x = (Ok sigs, x') \<Longrightarrow>
    x' = x \<and> list_all2 (\<lambda>h sig. utilsSign h priv = Inr sig) hs sigs"
  by (auto simp: Local_Sign_def Local_Sign_loop_nth)

lemma Remote_Sign_Ok:
  assumes "Remote_Sign post r hs x = (Ok sigs, x')"
  shows "length sigs = length hs"
  using assms by (auto simp: Remote_Sign_def bindA_Ok_iff split: if_splits)

definition made_by :: "(hash \<Rightarrow> 'k \<Rightarrow> error + bytes) \<Rightarrow> 'k \<Rightarrow> hash \<Rightarrow> bytes \<Rightarrow> bool" where
  "made_by utilsSign priv h sig \<longleftrightarrow> utilsSign h priv = Inr sig"

definition any_bytes :: "hash \<Rightarrow> bytes \<Rightarrow> bool" where
  "any_bytes h sig \<longleftrightarrow> True"

interpretation local_signer: signer_contract
    "NewLocal utilsSign utilsDecrypt pubKeyToStruct priv" "made_by utilsSign priv"
  for utilsSign utilsDecrypt pubKeyToStruct priv
  by unfold_locales (auto simp: NewLocal_def made_by_def [abs_def] dest: Local_Sign_Ok)

interpretation remote_signer: signer_contract
    "NewRemote postSign postDecrypt newRequest transport execute decode creds" any_bytes
  for postSign postDecrypt newRequest transport execute decode creds
  by unfold_locales
    (auto simp: NewRemote_def any_bytes_def list_all2_conv_all_nth dest: Remote_Sign_Ok)

section \<open>Budgets\<close>

lemma sign_budget: "worst_schedule callTimeout signRetry \<le> of_int (RetryTimeout signRetry)"
  by (simp add: worst_schedule_def callTimeout_def signRetry_def upt_rec)

lemma identify_budget: "worst_schedule identifyTimeout identifyRetry \<le> of_int (RetryTimeout identifyRetry)"
  by (simp add: worst_schedule_def identifyTimeout_def identifyRetry_def upt_rec)

section \<open>Identification with a header that cannot be sent\<close>

text \<open>\<open>execute\<close> reports a success only of a call that succeeded.\<close>

definition reports_calls :: "(('x, 'v) act \<Rightarrow> retry_params \<Rightarrow> ('x, 'v) act) \<Rightarrow> bool" where
  "reports_calls execute \<longleftrightarrow>
     (\<forall>m p x v x'. execute m p x = (Ok v, x') \<longrightarrow> (\<exists>y y'. m y = (Ok v, y')))"

definition sendable :: "credentials \<Rightarrow> bool" where
  "sendable r \<longleftrightarrow> valid_header (CanonicalHeaderKey (KeyName r), Key r)"

lemma canonical_Content_Type: "CanonicalHeaderKey ''Content-Type'' = ''Content-Type''"
  by code_simp

lemma idCall_unsendable:
  assumes "\<not> sendable r" and "CanonicalHeaderKey (KeyName r) \<noteq> ''Content-Type''"
  shows "idCall transport (header_Set ''Content-Type'' ''application/json'' (header_Set (KeyName r) (Key r)
        \<lparr>reqURL = u, reqHeader = []\<rparr>)) x \<noteq> (Ok v, x')"
  using assms
  by (auto simp: idCall_def client_Do_def bindA_Ok_iff header_Set_def Let_def sendable_def canonical_Content_Type)

lemma Remote_Identify_unsendable:
  assumes "reports_calls execute" and "\<not> sendable r" and "CanonicalHeaderKey (KeyName r) \<noteq> ''Content-Type''"
  shows "Remote_Identify newRequest transport execute decode r x \<noteq> (Ok pk, x')"
proof
  assume "Remote_Identify newRequest transport execute decode r x = (Ok pk, x')"
  then obtain v y y' where v: "execute (idCall transport
      (header_Set ''Content-Type'' ''application/json'' (header_Set (KeyName r) (Key r)
        \<lparr>reqURL = URL r @ ''/id'', reqHeader = []\<rparr>))) identifyRetry y = (Ok v, y')"
    by (auto simp: Remote_Identify_def bindA_Ok_iff Let_def)
  with assms(1) obtain z z' where "idCall transport
      (header_Set ''Content-Type'' ''application/json'' (header_Set (KeyName r) (Key r)
        \<lparr>reqURL = URL r @ ''/id'', reqHeader = []\<rparr>)) z = (Ok v, z')"
    unfolding reports_calls_def by blast
  with idCall_unsendable [OF assms(2,3)] show False by (rule notE)
qed

text \<open>An empty name is one, and so is a key with a control byte.\<close>

lemma unnamed_unsendable:
  assumes "KeyName r = ''''"
  shows "\<not> sendable r" and "CanonicalHeaderKey (KeyName r) \<noteq> ''Content-Type''"
  using assms by (simp_all add: sendable_def valid_header_def CanonicalHeaderKey_def)

definition unsent_byte :: "char \<Rightarrow> bool" where
  "unsent_byte b \<longleftrightarrow> (of_char b :: nat) < 32 \<and> (of_char b :: nat) \<noteq> 9 \<or> (of_char b :: nat) = 127"

lemma unsent_unsendable:
  assumes "\<exists>b \<in> set (Key r). unsent_byte b"
  shows "\<not> sendable r"
proof -
  from assms obtain b where "b \<in> set (Key r)" "unsent_byte b" by blast
  then show ?thesis by (fastforce simp: sendable_def valid_header_def list_all_iff unsent_byte_def)
qed

lemma Local_signs_total:
  assumes "\<And>h. \<exists>sig. utilsSign h priv = Inr sig"
  shows "\<exists>sigs. Local_Sign utilsSign priv hs x = (Ok sigs, x)"
proof -
  have "\<exists>sigs. Local_Sign_loop utilsSign priv hs = Inr sigs"
  proof (induction hs)
    case (Cons h hs)
    obtain sig where "utilsSign h priv = Inr sig" using assms by blast
    with Cons.IH show ?case by auto
  qed simp
  then show ?thesis by (auto simp: Local_Sign_def)
qed

lemma Local_Sign_all:
  assumes "list_all2 (\<lambda>h sig. utilsSign h priv = Inr sig) hs sigs"
  shows "Local_Sign utilsSign priv hs x = (Ok sigs, x)"
proof -
  from assms have "Local_Sign_loop utilsSign priv hs = Inr sigs"
    by (induction hs sigs rule: list_all2_induct) simp_all
  then show ?thesis by (simp add: Local_Sign_def)
qed

section \<open>Properties\<close>

text \<open>
  The local signer signs every hash and keeps their order: it succeeds exactly with the signatures
  its key makes of the hashes, one by one, and the world is left as it was.
\<close>

lemma local_signatures:
  "Local_Sign utilsSign priv hs x = (Ok sigs, x') \<longleftrightarrow>
     x' = x \<and> list_all2 (\<lambda>h sig. utilsSign h priv = Inr sig) hs sigs"
  using Local_Sign_all Local_Sign_Ok by metis

text \<open>
  The remote signer returns what the service answers only when that is one signature per hash;
  any other number is an error that names both numbers.
\<close>

lemma remote_signatures_counted:
  assumes "postWithRetry (URL r @ ''/sign'') (APIKey r) hs
      \<lparr>CallTimeout = callTimeout, MaxResponseSize = 50 + bytesPerSignature * int (length hs), Transport = None\<rparr> [] signRetry x = (Ok sigs, x')"
  shows "Remote_Sign postWithRetry r hs x =
    (if length sigs = length hs then Ok sigs
     else Fail (Errorf ''wrong number of signatures, requested %d, got %d''
       [AInt (int (length hs)), AInt (int (length sigs))]), x')"
  using assms by (simp add: Remote_Sign_def bindA_def wrapA_def mapErr_def)

lemma remote_signatures_counted_witness:
  "Remote_Sign (\<lambda>u k hs c st p x. (Ok [[7]], x + 1)) \<lparr>KeyName = ''k'', Key = ''s'', URL = ''http://h''\<rparr> [1, 2] (0 :: nat) =
     (Fail (Errorf ''wrong number of signatures, requested %d, got %d'' [AInt 2, AInt 1]), 1)"
  using remote_signatures_counted [of "\<lambda>u k hs c st p x. (Ok [[7]], x + 1)"
      "\<lparr>KeyName = ''k'', Key = ''s'', URL = ''http://h''\<rparr>" "[1, 2]" "0 :: nat" "[[7]]" 1]
  by simp

text \<open>
  C39. A remote signer with credentials that pass the check may never be identifiable: without an API key
  the request sets a header with an empty name, which no HTTP client sends, so identifying fails
  whatever the service would answer. The same holds of a key with any control byte but the tab (CR and LF, which the
  check does refuse, aside), unless the key's name is that of the content type, whose header \<open>Identify\<close> sets
  again after the key.
\<close>

theorem unsendable_never_identified:
  assumes "URL r \<noteq> ''''" and "urlParse (URL r) = Inr (scheme, host)" and "scheme \<in> {''http'', ''https''}" and "host \<noteq> ''''"
    and "\<forall>b \<in> set (KeyName r). token_byte b" and "CHR 0x0D \<notin> set (Key r)" and "CHR 0x0A \<notin> set (Key r)"
    and "if KeyName r = '''' then Key r = ''''
      else CanonicalHeaderKey (KeyName r) \<noteq> ''Content-Type'' \<and> (\<exists>b \<in> set (Key r). unsent_byte b)"
    and "reports_calls execute"
  shows "Check urlParse r = None \<and> Remote_Identify newRequest transport execute decode r x \<noteq> (Ok pk, x')"
proof -
  have "\<not> sendable r \<and> CanonicalHeaderKey (KeyName r) \<noteq> ''Content-Type''"
  proof (cases "KeyName r = ''''")
    case False
    with assms(8) show ?thesis by (simp add: unsent_unsendable)
  qed (use unnamed_unsendable [of r] in simp)
  with assms(9) have "Remote_Identify newRequest transport execute decode r x \<noteq> (Ok pk, x')"
    by (intro Remote_Identify_unsendable) simp_all
  moreover have "creds_ok urlParse r"
    using assms(1-8) by (auto simp: creds_ok_def)
  ultimately show ?thesis by (simp add: Check_None)
qed

lemma unsendable_never_identified_witness:
  "list_all (\<lambda>r. Check (\<lambda>u. Inr (''http'', ''h'')) r = None \<and>
     Remote_Identify (\<lambda>u. None) (\<lambda>req x. (Ok \<lparr>StatusCode = 200, Body = [1]\<rparr>, x)) (\<lambda>m p. m)
       (\<lambda>b. Inr \<lparr>PX = 1, PY = 2\<rparr>) r () \<noteq> (Ok \<lparr>PX = 1, PY = 2\<rparr>, ()))
     [\<lparr>KeyName = [], Key = [], URL = ''http://h''\<rparr>, \<lparr>KeyName = ''k'', Key = ''s'' @ [CHR 0x0B], URL = ''http://h''\<rparr>,
       \<lparr>KeyName = ''k'', Key = [CHR 0x7F], URL = ''http://h''\<rparr>]"
  unfolding list_all_iff
proof
  fix r assume r: "r \<in> set [\<lparr>KeyName = [], Key = [], URL = ''http://h''\<rparr>, \<lparr>KeyName = ''k'', Key = ''s'' @ [CHR 0x0B], URL = ''http://h''\<rparr>,
       \<lparr>KeyName = ''k'', Key = [CHR 0x7F], URL = ''http://h''\<rparr>]"
  have "token_byte CHR ''k''" "CanonicalHeaderKey ''k'' \<noteq> ''Content-Type''"
    "unsent_byte CHR 0x0B" "unsent_byte CHR 0x7F" by code_simp+
  with r have "URL r \<noteq> ''''" "\<forall>b \<in> set (KeyName r). token_byte b" "CHR 0x0D \<notin> set (Key r)" "CHR 0x0A \<notin> set (Key r)"
    "if KeyName r = '''' then Key r = ''''
     else CanonicalHeaderKey (KeyName r) \<noteq> ''Content-Type'' \<and> (\<exists>b \<in> set (Key r). unsent_byte b)"
    by auto
  then show "Check (\<lambda>u. Inr (''http'', ''h'')) r = None \<and>
      Remote_Identify (\<lambda>u. None) (\<lambda>req x. (Ok \<lparr>StatusCode = 200, Body = [1]\<rparr>, x)) (\<lambda>m p. m)
       (\<lambda>b. Inr \<lparr>PX = 1, PY = 2\<rparr>) r () \<noteq> (Ok \<lparr>PX = 1, PY = 2\<rparr>, ())"
    by (intro unsendable_never_identified [where scheme = "''http''" and host = "''h''"]) (auto simp: reports_calls_def)
qed

end
