(* ===== verification/Instructions.thy ===== *)
theory Instructions
  imports Signer
begin

text \<open>
  Instructions, \<open>internal/router/instructions/instructions.go\<close>: parsing a log of the indexer
  into an instruction, dropping duplicate TEE machines, hashing the instruction for every
  machine and signing the hashes.

  The ABI decoding of a log (\<open>events.ConvertDatabaseLogToChainLog\<close>,
  \<open>ParseTeeInstructionsSent\<close>) and \<open>instruction.Data.HashForSigning\<close> are parameters. The
  integers of the generated bindings (reward epoch, threshold) are only copied and compared here.
\<close>

section \<open>Data\<close>

text \<open>Of the bindings' machine tuple, the two fields the code reads and the rest of the struct,
  which only takes part in comparisons.\<close>

record tee_machine =
  TeeId :: address
  Url :: string
  TeeRest :: bytes

record event =
  ev_InstructionId :: hash
  ev_RewardEpochId :: int
  ev_TeeMachines :: "tee_machine list"
  ev_OpType :: hash
  ev_OpCommand :: hash
  ev_Message :: bytes
  ev_Cosigners :: "address list"
  ev_CosignersThreshold :: int

record data =
  InstructionID :: hash
  TeeID :: address
  Timestamp :: u64
  RewardEpochID :: int
  OPType :: hash
  OPCommand :: hash
  Cosigners :: "address list"
  CosignersThreshold :: int
  OriginalMessage :: bytes
  AdditionalFixedMessage :: bytes
  AdditionalVariableMessage :: bytes

record base =
  Event :: event
  Tees :: "tee_machine list"
  GeneralData :: data
  Signatures :: "bytes list"

text \<open>A row of the indexer's log table; \<open>Row\<close> is what only the ABI decoding reads.\<close>

record 'r db_log =
  Topic2 :: string
  LogTimestamp :: u64
  Row :: 'r

section \<open>Parsing\<close>

text \<open>The map of the machines seen so far, and the slice of those kept.\<close>

fun removeDuplicates_loop :: "('a \<Rightarrow> bool) \<Rightarrow> 'a list \<Rightarrow> 'a list \<Rightarrow> 'a list" where
  "removeDuplicates_loop seen unique [] = unique"
| "removeDuplicates_loop seen unique (x # xs) =
     (if \<not> seen x then removeDuplicates_loop (seen(x := True)) (unique @ [x]) xs
      else removeDuplicates_loop seen unique xs)"

definition removeDuplicates :: "'a list \<Rightarrow> 'a list" where
  "removeDuplicates s = removeDuplicates_loop (\<lambda>_. False) [] s"

definition EventToData :: "u64 \<Rightarrow> base \<Rightarrow> base" where
  "EventToData timestamp b =
     b\<lparr>GeneralData :=
         \<lparr>InstructionID = ev_InstructionId (Event b), TeeID = 0, Timestamp = timestamp,
          RewardEpochID = ev_RewardEpochId (Event b), OPType = ev_OpType (Event b),
          OPCommand = ev_OpCommand (Event b), Cosigners = ev_Cosigners (Event b),
          CosignersThreshold = ev_CosignersThreshold (Event b), OriginalMessage = ev_Message (Event b),
          AdditionalFixedMessage = [], AdditionalVariableMessage = []\<rparr>,
       Tees := removeDuplicates (ev_TeeMachines (Event b))\<rparr>"

text \<open>The decoder of logs is built when the package is initialised; \<open>newFilterer\<close> is its constructor's error.\<close>

definition instructions_init :: "(string \<Rightarrow> arg list \<Rightarrow> string) \<Rightarrow> errorp \<Rightarrow> unit res" where
  "instructions_init sprintf newFilterer =
     (case newFilterer of
        Some err \<Rightarrow> Panic (''cannot get tee instructions filterer: '' @ error_text sprintf err)
      | None \<Rightarrow> Ok ())"

definition parseTeeInstructionsSent ::
    "('r db_log \<Rightarrow> error + 'c) \<Rightarrow> ('c \<Rightarrow> error + event) \<Rightarrow> 'r db_log \<Rightarrow> error + event" where
  "parseTeeInstructionsSent convert parse i =
     (case convert i of
        Inl e \<Rightarrow> Inl (Wrapf ''converting instruction db log 0x%s: '' [AStr (Topic2 i)] e)
      | Inr cl \<Rightarrow>
          (case parse cl of
             Inl e \<Rightarrow> Inl (Wrapf ''parsing instruction 0x%s: '' [AStr (Topic2 i)] e)
           | Inr is \<Rightarrow> Inr is))"

definition zero_data :: data where
  "zero_data = \<lparr>InstructionID = 0, TeeID = 0, Timestamp = 0, RewardEpochID = 0, OPType = 0, OPCommand = 0,
     Cosigners = [], CosignersThreshold = 0, OriginalMessage = [], AdditionalFixedMessage = [],
     AdditionalVariableMessage = []\<rparr>"

definition ParseInstruction ::
    "('r db_log \<Rightarrow> error + 'c) \<Rightarrow> ('c \<Rightarrow> error + event) \<Rightarrow> 'r db_log \<Rightarrow> error + base" where
  "ParseInstruction convert parse il =
     (case parseTeeInstructionsSent convert parse il of
        Inl e \<Rightarrow> Inl e
      | Inr ev \<Rightarrow> Inr (EventToData (LogTimestamp il)
          \<lparr>Event = ev, Tees = [], GeneralData = zero_data, Signatures = []\<rparr>))"

section \<open>Signing\<close>

fun hashesForSigning_loop :: "(u64 \<Rightarrow> data \<Rightarrow> error + hash) \<Rightarrow> u64 \<Rightarrow> data \<Rightarrow> tee_machine list \<Rightarrow> error + hash list" where
  "hashesForSigning_loop hashFor chainID d [] = Inr []"
| "hashesForSigning_loop hashFor chainID d (t # ts) =
     (let d = d\<lparr>TeeID := TeeId t\<rparr> in
      case hashFor chainID d of
        Inl e \<Rightarrow> Inl (Wrapf ''hashing instruction %s for tee %s: '' [AHash (InstructionID d), AAddr (TeeID d)] e)
      | Inr h \<Rightarrow>
          (case hashesForSigning_loop hashFor chainID d ts of Inl e \<Rightarrow> Inl e | Inr hs \<Rightarrow> Inr (h # hs)))"

definition hashesForSigning :: "(u64 \<Rightarrow> data \<Rightarrow> error + hash) \<Rightarrow> u64 \<Rightarrow> base \<Rightarrow> error + hash list" where
  "hashesForSigning hashFor chainID b = hashesForSigning_loop hashFor chainID (GeneralData b) (Tees b)"

text \<open>
  The state of a processing goroutine: the instruction its pointer refers to, what has been sent
  on the out channel, and the outside world. The pointer is not written to after it is sent, so
  the channel holds values.
\<close>

record 'x pst =
  ps_ib :: base
  ps_out :: "base list"
  ps_env :: 'x

definition on_env :: "('x, 'a) act \<Rightarrow> ('x pst, 'a) act" where
  "on_env m = zoomA ps_env (\<lambda>x s. s\<lparr>ps_env := x\<rparr>) m"

definition modify_ib :: "(base \<Rightarrow> base) \<Rightarrow> ('x pst, unit) act" where
  "modify_ib f = writeA (\<lambda>s. s\<lparr>ps_ib := f (ps_ib s)\<rparr>)"

definition modify_data :: "(data \<Rightarrow> data) \<Rightarrow> ('x pst, unit) act" where
  "modify_data f = modify_ib (\<lambda>b. b\<lparr>GeneralData := f (GeneralData b)\<rparr>)"

definition Base_Sign :: "(u64 \<Rightarrow> data \<Rightarrow> error + hash) \<Rightarrow> 'x signer \<Rightarrow> u64 \<Rightarrow> ('x pst, unit) act" where
  "Base_Sign hashFor s chainID =
     bindA (readA ps_ib) (\<lambda>b.
     bindA (wrapA ''preparing: '' [] (liftA (hashesForSigning hashFor chainID b))) (\<lambda>toSign.
     bindA (wrapA ''getting signatures for instruction %s: '' [AHash (InstructionID (GeneralData b))]
       (on_env (Sign s toSign))) (\<lambda>signatures.
     modify_ib (\<lambda>b. b\<lparr>Signatures := signatures\<rparr>))))"

section \<open>Duplicates\<close>

lemma removeDuplicates_loop_eq:
  "removeDuplicates_loop seen unique xs =
     unique @ rev (remdups (rev (filter (\<lambda>x. \<not> seen x) xs)))"
proof (induction seen unique xs rule: removeDuplicates_loop.induct)
  case (2 seen unique x xs)
  show ?case
  proof (cases "seen x")
    case True
    with 2 show ?thesis by simp
  next
    case False
    have dedup: "rev (remdups (rev (x # ys))) = x # rev (remdups (rev (filter (\<lambda>y. y \<noteq> x) ys)))" for ys
      by (induction ys rule: rev_induct) auto
    have filt: "filter (\<lambda>y. \<not> (seen(x := True)) y) xs = filter (\<lambda>y. y \<noteq> x) (filter (\<lambda>y. \<not> seen y) xs)"
      by (auto intro: filter_cong)
    have "removeDuplicates_loop (seen(x := True)) (unique @ [x]) xs =
        (unique @ [x]) @ rev (remdups (rev (filter (\<lambda>y. y \<noteq> x) (filter (\<lambda>y. \<not> seen y) xs))))"
      unfolding "2.IH"(1) [OF False] filt ..
    also have "\<dots> = unique @ rev (remdups (rev (x # filter (\<lambda>y. \<not> seen y) xs)))"
      unfolding dedup by simp
    finally show ?thesis using False by simp
  qed
qed simp

lemma removeDuplicates_eq: "removeDuplicates s = rev (remdups (rev s))"
  by (simp add: removeDuplicates_def removeDuplicates_loop_eq)

lemma distinct_removeDuplicates [simp]: "distinct (removeDuplicates s)"
  by (simp add: removeDuplicates_eq)

lemma set_removeDuplicates [simp]: "set (removeDuplicates s) = set s"
  by (simp add: removeDuplicates_eq)

lemma removeDuplicates_distinct: "distinct s \<Longrightarrow> removeDuplicates s = s"
  by (simp add: removeDuplicates_eq distinct_remdups_id)

section \<open>Hashes and signatures\<close>

text \<open>The hash of the instruction for one machine.\<close>

definition hash_for :: "(u64 \<Rightarrow> data \<Rightarrow> error + hash) \<Rightarrow> u64 \<Rightarrow> data \<Rightarrow> tee_machine \<Rightarrow> hash \<Rightarrow> bool" where
  "hash_for hashFor chainID d t h \<longleftrightarrow> hashFor chainID (d\<lparr>TeeID := TeeId t\<rparr>) = Inr h"

lemma hashesForSigning_loop_Inr:
  "hashesForSigning_loop hashFor chainID d ts = Inr hs \<longleftrightarrow> list_all2 (hash_for hashFor chainID d) ts hs"
proof (induction ts arbitrary: d hs)
  case (Cons t ts)
  have "hash_for hashFor chainID (d\<lparr>TeeID := x\<rparr>) = hash_for hashFor chainID d" for x
    by (intro ext) (simp add: hash_for_def)
  with Cons have IH: "hashesForSigning_loop hashFor chainID (d\<lparr>TeeID := TeeId t\<rparr>) ts = Inr hs' \<longleftrightarrow>
      list_all2 (hash_for hashFor chainID d) ts hs'" for hs'
    by simp
  show ?case
  proof (cases "hashFor chainID (d\<lparr>TeeID := TeeId t\<rparr>)")
    case (Inl e)
    then have "\<not> hash_for hashFor chainID d t h" for h by (simp add: hash_for_def)
    with Inl show ?thesis by (simp add: Let_def list_all2_Cons1)
  next
    case (Inr h)
    then have "hash_for hashFor chainID d t h' \<longleftrightarrow> h' = h" for h' by (auto simp: hash_for_def)
    with Inr IH show ?thesis
      by (cases "hashesForSigning_loop hashFor chainID (d\<lparr>TeeID := TeeId t\<rparr>) ts")
        (auto simp: Let_def list_all2_Cons1)
  qed
qed auto

lemma hashesForSigning_Inr:
  "hashesForSigning hashFor chainID b = Inr hs \<longleftrightarrow>
     list_all2 (hash_for hashFor chainID (GeneralData b)) (Tees b) hs"
  by (simp add: hashesForSigning_def hashesForSigning_loop_Inr)

text \<open>
  A signed instruction carries, for every machine and in their order, a valid signature of the
  hash of its own data addressed to that machine.
\<close>

definition sig_for ::
    "(u64 \<Rightarrow> data \<Rightarrow> error + hash) \<Rightarrow> u64 \<Rightarrow> (hash \<Rightarrow> bytes \<Rightarrow> bool) \<Rightarrow> data \<Rightarrow> tee_machine \<Rightarrow> bytes \<Rightarrow> bool" where
  "sig_for hashFor chainID valid d t sig \<longleftrightarrow>
     (\<exists>h. hashFor chainID (d\<lparr>TeeID := TeeId t\<rparr>) = Inr h \<and> valid h sig)"

definition signed ::
    "(u64 \<Rightarrow> data \<Rightarrow> error + hash) \<Rightarrow> u64 \<Rightarrow> (hash \<Rightarrow> bytes \<Rightarrow> bool) \<Rightarrow> base \<Rightarrow> bool" where
  "signed hashFor chainID valid b \<longleftrightarrow>
     list_all2 (sig_for hashFor chainID valid (GeneralData b)) (Tees b) (Signatures b)"

lemma signed_length: "signed hashFor chainID valid b \<Longrightarrow> length (Signatures b) = length (Tees b)"
  by (auto simp: signed_def dest: list_all2_lengthD)

lemma signed_nth:
  "signed hashFor chainID valid b \<Longrightarrow> j < length (Tees b) \<Longrightarrow>
     sig_for hashFor chainID valid (GeneralData b) (Tees b ! j) (Signatures b ! j)"
  by (simp add: signed_def list_all2_nthD)

lemma list_all2_hash_sig:
  assumes "list_all2 (hash_for hashFor chainID d) ts hs" and "list_all2 valid hs sigs"
  shows "list_all2 (sig_for hashFor chainID valid d) ts sigs"
  using assms
  by (rule list_all2_trans [rotated]) (auto simp: hash_for_def sig_for_def)

lemma wpA_on_env [wp]:
  "wpA (on_env m) Q E s = wpA m (\<lambda>a x. Q a (s\<lparr>ps_env := x\<rparr>)) (\<lambda>e x. E e (s\<lparr>ps_env := x\<rparr>)) (ps_env s)"
  by (simp add: on_env_def wp)

lemma wpA_modify_ib [wp]: "wpA (modify_ib f) Q E s = Q () (s\<lparr>ps_ib := f (ps_ib s)\<rparr>)"
  by (simp add: modify_ib_def wp)

lemma wpA_modify_data [wp]:
  "wpA (modify_data f) Q E s =
     Q () (s\<lparr>ps_ib := (ps_ib s)\<lparr>GeneralData := f (GeneralData (ps_ib s))\<rparr>\<rparr>)"
  by (simp add: modify_data_def wp)

lemma on_env_apply: "on_env m s = (case m (ps_env s) of (r, x) \<Rightarrow> (r, s\<lparr>ps_env := x\<rparr>))"
  by (simp add: on_env_def zoomA_def)

lemma modify_ib_apply [simp]: "modify_ib f s = (Ok (), s\<lparr>ps_ib := f (ps_ib s)\<rparr>)"
  by (simp add: modify_ib_def)

lemma Base_Sign_Ok:
  assumes "hashesForSigning hashFor chainID (ps_ib s) = Inr hs" and "Sign sg hs (ps_env s) = (Ok sigs, x)"
  shows "Base_Sign hashFor sg chainID s = (Ok (), s\<lparr>ps_ib := (ps_ib s)\<lparr>Signatures := sigs\<rparr>, ps_env := x\<rparr>)"
  using assms by (simp add: Base_Sign_def act_eval on_env_apply retA_def readA_def)

text \<open>
  Signing leaves the instruction alone but for its signatures, and never touches the channel.
\<close>

context signer_contract
begin

lemma wp_Base_Sign:
  assumes "\<And>sigs x. signed hashFor chainID valid ((ps_ib s)\<lparr>Signatures := sigs\<rparr>) \<Longrightarrow>
      Q () (s\<lparr>ps_env := x, ps_ib := (ps_ib s)\<lparr>Signatures := sigs\<rparr>\<rparr>)"
    and "\<And>e x. E e (s\<lparr>ps_env := x\<rparr>)" and "\<And>e. E e s"
  shows "wpA (Base_Sign hashFor sgnr chainID) Q E s"
proof (cases "hashesForSigning hashFor chainID (ps_ib s)")
  case (Inl e)
  with assms(3) show ?thesis by (simp add: Base_Sign_def wp)
next
  case (Inr hs)
  then have hs: "list_all2 (hash_for hashFor chainID (GeneralData (ps_ib s))) (Tees (ps_ib s)) hs"
    by (simp add: hashesForSigning_Inr)
  show ?thesis
    using assms(1,2) list_all2_hash_sig [OF hs]
    by (auto simp: Base_Sign_def wp Inr signed_def intro!: wp_Sign)
qed

end

section \<open>Properties\<close>

text \<open>
  A parsed instruction is addressed to every machine of its event once, in the order of their first
  mention, carries the event's data and the log's timestamp, and has neither messages nor signatures
  of its own.
\<close>

lemma parsed_instruction:
  assumes "ParseInstruction convert parse l = Inr b"
  shows "parseTeeInstructionsSent convert parse l = Inr (Event b) \<and>
    Tees b = rev (remdups (rev (ev_TeeMachines (Event b)))) \<and>
    distinct (Tees b) \<and> set (Tees b) = set (ev_TeeMachines (Event b)) \<and>
    InstructionID (GeneralData b) = ev_InstructionId (Event b) \<and> OPType (GeneralData b) = ev_OpType (Event b) \<and>
    OPCommand (GeneralData b) = ev_OpCommand (Event b) \<and> OriginalMessage (GeneralData b) = ev_Message (Event b) \<and>
    Timestamp (GeneralData b) = LogTimestamp l \<and>
    AdditionalFixedMessage (GeneralData b) = [] \<and> AdditionalVariableMessage (GeneralData b) = [] \<and> Signatures b = []"
proof -
  from assms obtain ev where ev: "parseTeeInstructionsSent convert parse l = Inr ev"
    and b: "b = EventToData (LogTimestamp l) \<lparr>Event = ev, Tees = [], GeneralData = zero_data, Signatures = []\<rparr>"
    by (auto simp: ParseInstruction_def split: sum.splits)
  then show ?thesis by (simp add: EventToData_def removeDuplicates_eq)
qed

definition sample_machine :: "nat \<Rightarrow> tee_machine" where
  "sample_machine n = \<lparr>TeeId = of_nat n, Url = ''http://tee'', TeeRest = []\<rparr>"

definition sample_event :: event where
  "sample_event = \<lparr>ev_InstructionId = 1, ev_RewardEpochId = 2, ev_TeeMachines = [sample_machine 1, sample_machine 2, sample_machine 1],
     ev_OpType = 3, ev_OpCommand = 4, ev_Message = [5], ev_Cosigners = [], ev_CosignersThreshold = 0\<rparr>"

definition sample_log :: "unit db_log" where
  "sample_log = \<lparr>Topic2 = ''01'', LogTimestamp = 9, Row = ()\<rparr>"

lemma parsed_instruction_witness:
  "case ParseInstruction (\<lambda>l. Inr l) (\<lambda>l. Inr sample_event) sample_log of
     Inr b \<Rightarrow> distinct (Tees b) \<and> set (Tees b) = {sample_machine 1, sample_machine 2} | Inl e \<Rightarrow> False"
proof -
  have ev: "parseTeeInstructionsSent (\<lambda>l. Inr l) (\<lambda>l. Inr sample_event) sample_log = Inr sample_event"
    by (simp add: parseTeeInstructionsSent_def)
  then obtain b where b: "ParseInstruction (\<lambda>l. Inr l) (\<lambda>l. Inr sample_event) sample_log = Inr b"
    by (simp add: ParseInstruction_def)
  have "Event b = sample_event" and "set (Tees b) = set (ev_TeeMachines (Event b))" and "distinct (Tees b)"
    using parsed_instruction [OF b] ev by simp_all
  then have "set (Tees b) = {sample_machine 1, sample_machine 2}" and "distinct (Tees b)"
    by (auto simp: sample_event_def)
  with b show ?thesis by simp
qed

text \<open>
  The hashes to sign are one per machine and in their order, each of the instruction's data with
  that machine's identifier, and hashing succeeds exactly when it does for every machine.
\<close>

lemma hashes_per_machine:
  "hashesForSigning hashFor chainID b = Inr hs \<longleftrightarrow>
     list_all2 (\<lambda>t h. hashFor chainID ((GeneralData b)\<lparr>TeeID := TeeId t\<rparr>) = Inr h) (Tees b) hs"
  by (simp add: hashesForSigning_Inr hash_for_def [abs_def])

text \<open>
  C19. With the local signer, a signed instruction carries for every machine, in their order, the
  signature its key makes of the hash of the instruction's data addressed to that machine; nothing
  but its signatures changes.
\<close>

theorem signing_covers_machines:
  assumes "Base_Sign hashFor (NewLocal utilsSign utilsDecrypt pubKeyToStruct priv) chainID s = (Ok u, t)"
  shows "signed hashFor chainID (made_by utilsSign priv) (ps_ib t) \<and>
    ps_ib t = (ps_ib s)\<lparr>Signatures := Signatures (ps_ib t)\<rparr> \<and> ps_out t = ps_out s"
proof -
  have "wpA (Base_Sign hashFor (NewLocal utilsSign utilsDecrypt pubKeyToStruct priv) chainID)
    (\<lambda>_ t. signed hashFor chainID (made_by utilsSign priv) (ps_ib t) \<and>
      ps_ib t = (ps_ib s)\<lparr>Signatures := Signatures (ps_ib t)\<rparr> \<and> ps_out t = ps_out s) (\<lambda>_ _. True) s"
    by (rule local_signer.wp_Base_Sign) simp_all
  from wpA_OkD [OF this assms] show ?thesis .
qed

definition sample_base :: base where
  "sample_base = EventToData 9 \<lparr>Event = sample_event, Tees = [], GeneralData = zero_data, Signatures = []\<rparr>"

definition sample_hash :: "u64 \<Rightarrow> data \<Rightarrow> error + hash" where
  "sample_hash chainID d = Inr (ucast (TeeID d) + ucast chainID)"

definition sample_sign :: "hash \<Rightarrow> unit \<Rightarrow> error + bytes" where
  "sample_sign h k = Inr [ucast h]"

definition sample_signer :: "nat signer" where
  "sample_signer = NewLocal sample_sign (\<lambda>c k. Inr c) (\<lambda>k. \<lparr>PX = 1, PY = 2\<rparr>) ()"

lemma sample_Tees: "Tees sample_base = [sample_machine 1, sample_machine 2]"
  by (simp add: sample_base_def EventToData_def sample_event_def removeDuplicates_eq sample_machine_def)

lemma sample_hashes: "hashesForSigning sample_hash 14 sample_base = Inr [15, 16]"
  by (simp add: hashesForSigning_def sample_Tees sample_hash_def sample_machine_def Let_def)

lemma sample_Sign: "Sign sample_signer [15, 16] n = (Ok [[15], [16]], n)"
  by (simp add: sample_signer_def NewLocal_def Local_Sign_def sample_sign_def)

lemma sample_signed:
  "Base_Sign sample_hash sample_signer 14 \<lparr>ps_ib = sample_base, ps_out = [], ps_env = n\<rparr> =
     (Ok (), \<lparr>ps_ib = sample_base\<lparr>Signatures := [[15], [16]]\<rparr>, ps_out = [], ps_env = n\<rparr>)"
  using Base_Sign_Ok [of sample_hash 14 "\<lparr>ps_ib = sample_base, ps_out = [], ps_env = n\<rparr>" "[15, 16]" sample_signer]
  by (simp add: sample_hashes sample_Sign)

lemma signing_covers_machines_witness:
  "signed sample_hash 14 (made_by sample_sign ()) (sample_base\<lparr>Signatures := [[15], [16]]\<rparr>)"
  using signing_covers_machines [OF sample_signed [of 0, unfolded sample_signer_def]] by simp

end
