(* ===== verification/Verifier.thy ===== *)
theory Verifier
  imports Instructions
begin

text \<open>
  The client of a verifier server, \<open>internal/router/processors/fdc_verifier.go\<close>: the request,
  the decoding and validation of the answer, and the retried query.

  The JSON decoding of the envelope and of the hexadecimal body, tee-node's size constraint
  (\<open>constraints.CheckSize\<close>) and the hash of the operation \<open>op.Prove\<close> are parameters. The locale
  \<open>responder\<close> is the contract of the interface \<open>Responder\<close>, which the FDC handler relies on.
\<close>

section \<open>Requests and responses\<close>

definition StatusVerified :: string where
  "StatusVerified = ''VERIFIED''"

definition StatusRetry :: string where
  "StatusRetry = ''RETRY''"

definition StatusRejected :: string where
  "StatusRejected = ''REJECTED''"

lemmas status_defs = StatusVerified_def StatusRetry_def StatusRejected_def

text \<open>Of the decoded attestation request, the fields the code reads; \<open>rq_Rest\<close> is the rest of it.\<close>

record att_request =
  rq_AttestationType :: hash
  rq_SourceId :: hash
  rq_RequestBody :: bytes
  rq_Rest :: bytes

record verifier_request =
  vq_AttestationType :: hash
  vq_SourceID :: hash
  vq_RequestBody :: bytes

record verifier_response =
  vr_Status :: string
  vr_ResponseBody :: bytes
  vr_Message :: string

text \<open>
  \<open>parseAux\<close> decodes the envelope: status, raw JSON of the body (empty when absent), message.
\<close>

definition UnmarshalJSON ::
    "(bytes \<Rightarrow> error + string \<times> string \<times> string) \<Rightarrow> (string \<Rightarrow> error + bytes) \<Rightarrow> bytes \<Rightarrow> error + verifier_response" where
  "UnmarshalJSON parseAux unmarshalBody b =
     (case parseAux b of
        Inl e \<Rightarrow> Inl e
      | Inr (status, raw, message) \<Rightarrow>
          if length raw = 0 \<or> raw = ''null'' then
            Inr \<lparr>vr_Status = status, vr_ResponseBody = [], vr_Message = message\<rparr>
          else case unmarshalBody raw of
            Inl e \<Rightarrow> Inl e
          | Inr body \<Rightarrow> Inr \<lparr>vr_Status = status, vr_ResponseBody = body, vr_Message = message\<rparr>)"

section \<open>Validation\<close>

definition maxMessageLen :: nat where
  "maxMessageLen = 1024"

definition maxStatusLen :: nat where
  "maxStatusLen = 64"

definition truncateText :: "string \<Rightarrow> nat \<Rightarrow> string" where
  "truncateText s n = (if length s \<le> n then s else take n s @ ''...'')"

definition size_probe :: "hash \<Rightarrow> bytes \<Rightarrow> data" where
  "size_probe proveHash b = zero_data\<lparr>OPCommand := proveHash, AdditionalFixedMessage := b\<rparr>"

definition validateResponse ::
    "(data \<Rightarrow> errorp) \<Rightarrow> hash \<Rightarrow> verifier_response \<Rightarrow> error + verifier_response" where
  "validateResponse checkSize proveHash res =
     (let res = res\<lparr>vr_Message := truncateText (vr_Message res) maxMessageLen\<rparr> in
      if vr_Status res = StatusVerified then
        (if length (vr_ResponseBody res) = 0 then Inl ErrEmptyResponseBody
         else case checkSize (size_probe proveHash (vr_ResponseBody res)) of
             Some e \<Rightarrow> Inl (WrapPre ErrResponseBodyTooBig '': %d bytes'' [AInt (int (length (vr_ResponseBody res)))])
           | None \<Rightarrow> Inr res)
      else if vr_Status res = StatusRetry \<or> vr_Status res = StatusRejected then Inr res
      else Inl (WrapPre ErrUnknownStatus '': %q'' [AStr (truncateText (vr_Status res) maxStatusLen)]))"

section \<open>The query\<close>

text \<open>A copy of the standard transport, with the headers of a response limited like its body.\<close>

definition verifierTransport :: transport where
  "verifierTransport = HeaderCapped (64 * 1024)"

definition verifierCall :: call_params where
  "verifierCall = \<lparr>CallTimeout = 10 * second, MaxResponseSize = 1048576, Transport = Some verifierTransport\<rparr>"

definition verifierRetry :: retry_params where
  "verifierRetry =
     \<lparr>Attempts = 3, Delay = 5 * second, Multiplier = 2, Jitter = 3 / 10, RetryTimeout = 60 * second\<rparr>"

record verifier =
  vCredentials :: credentials
  vparams :: post_params

definition NewVerifier :: "credentials \<Rightarrow> verifier" where
  "NewVerifier c = \<lparr>vCredentials = c, vparams = \<lparr>Call = verifierCall, Retry = verifierRetry\<rparr>\<rparr>"

type_synonym 'x verifier_post =
  "string \<Rightarrow> string \<times> string \<Rightarrow> verifier_request \<Rightarrow> call_params \<Rightarrow> ('x, verifier_response call_resp) fallible"

definition Response ::
    "(string \<Rightarrow> arg list \<Rightarrow> string) \<Rightarrow> ('x post_st, verifier_response attempt) executor \<Rightarrow> 'x verifier_post
      \<Rightarrow> (data \<Rightarrow> errorp) \<Rightarrow> hash \<Rightarrow> verifier \<Rightarrow> att_request \<Rightarrow> ('x, verifier_response) act" where
  "Response sprintf execute post checkSize proveHash v request =
     (let verifierRequest = \<lparr>vq_AttestationType = rq_AttestationType request, vq_SourceID = rq_SourceId request,
            vq_RequestBody = rq_RequestBody request\<rparr> in
      bindA (WithRetry sprintf execute (Retry (vparams v))
          (post (URL (vCredentials v)) (APIKey (vCredentials v)) verifierRequest (Call (vparams v))))
        (\<lambda>res. liftA (validateResponse checkSize proveHash res)))"

text \<open>The verifier that the FDC handler builds for the credentials of an entry.\<close>

definition Verifier_Response ::
    "(string \<Rightarrow> arg list \<Rightarrow> string) \<Rightarrow> ('x post_st, verifier_response attempt) executor \<Rightarrow> 'x verifier_post
      \<Rightarrow> (data \<Rightarrow> errorp) \<Rightarrow> hash \<Rightarrow> credentials \<Rightarrow> att_request \<Rightarrow> ('x, verifier_response) act" where
  "Verifier_Response sprintf execute post checkSize proveHash c =
     Response sprintf execute post checkSize proveHash (NewVerifier c)"

section \<open>The contract of a responder\<close>

definition wire_ok :: "(bytes \<Rightarrow> bool) \<Rightarrow> verifier_response \<Rightarrow> bool" where
  "wire_ok sizeOk res \<longleftrightarrow>
     vr_Status res \<in> {StatusVerified, StatusRetry, StatusRejected} \<and>
     (vr_Status res = StatusVerified \<longrightarrow> vr_ResponseBody res \<noteq> [] \<and> sizeOk (vr_ResponseBody res)) \<and>
     length (vr_Message res) \<le> maxMessageLen + 3"

locale responder =
  fixes Respond :: "att_request \<Rightarrow> ('x, verifier_response) act"
    and sizeOk :: "bytes \<Rightarrow> bool"
  assumes response_ok: "Respond rq x = (Ok res, x') \<Longrightarrow> wire_ok sizeOk res"
begin

lemma wp_Response:
  "(\<And>res x'. wire_ok sizeOk res \<Longrightarrow> Q res x') \<Longrightarrow> (\<And>e x'. E e x') \<Longrightarrow> wpA (Respond rq) Q E x"
  using response_ok [of rq x] by (auto simp: wpA_def split: prod.splits res.splits)

end

section \<open>The verifier keeps it\<close>

lemma truncateText_cap: "truncateText s n = cap_text n s"
  by (simp add: truncateText_def cap_text_def)

definition fits :: "(data \<Rightarrow> errorp) \<Rightarrow> hash \<Rightarrow> bytes \<Rightarrow> bool" where
  "fits checkSize proveHash b \<longleftrightarrow> checkSize (size_probe proveHash b) = None"

lemma validateResponse_Inr:
  "validateResponse checkSize proveHash res = Inr res' \<longleftrightarrow>
     res' = res\<lparr>vr_Message := cap_text maxMessageLen (vr_Message res)\<rparr> \<and>
     vr_Status res \<in> {StatusVerified, StatusRetry, StatusRejected} \<and>
     (vr_Status res = StatusVerified \<longrightarrow>
        vr_ResponseBody res \<noteq> [] \<and> fits checkSize proveHash (vr_ResponseBody res))"
  by (auto simp: validateResponse_def truncateText_cap fits_def Let_def status_defs split: option.splits)

lemma validateResponse_wire_ok:
  "validateResponse checkSize proveHash res = Inr res' \<Longrightarrow> wire_ok (fits checkSize proveHash) res'"
  by (auto simp: validateResponse_Inr wire_ok_def cap_text_length)

text \<open>The three rejections, by their sentinels.\<close>

lemma validateResponse_Inl:
  "validateResponse checkSize proveHash res = Inl e \<Longrightarrow>
     errors_Is e ErrUnknownStatus \<and> vr_Status res \<notin> {StatusVerified, StatusRetry, StatusRejected}
     \<or> e = ErrEmptyResponseBody \<and> vr_Status res = StatusVerified \<and> vr_ResponseBody res = []
     \<or> errors_Is e ErrResponseBodyTooBig \<and> vr_Status res = StatusVerified
        \<and> \<not> fits checkSize proveHash (vr_ResponseBody res)"
  by (auto simp: validateResponse_def fits_def Let_def split: option.splits if_splits)

interpretation verifier: responder
    "Verifier_Response sprintf execute post checkSize proveHash v" "fits checkSize proveHash"
  for sprintf execute post checkSize proveHash v
  by unfold_locales
    (auto simp: Verifier_Response_def Response_def bindA_Ok_iff Let_def dest: validateResponse_wire_ok)

lemma verifier_budget:
  "worst_schedule (CallTimeout verifierCall) verifierRetry = 99 / 2 * of_int second"
  by (simp add: worst_schedule_def verifierCall_def verifierRetry_def upt_rec)

lemma UnmarshalJSON_no_body:
  "parseAux b = Inr (st, raw, m) \<Longrightarrow> raw \<in> {'''', ''null''} \<Longrightarrow>
     UnmarshalJSON parseAux unmarshalBody b = Inr \<lparr>vr_Status = st, vr_ResponseBody = [], vr_Message = m\<rparr>"
  by (auto simp: UnmarshalJSON_def)

section \<open>Properties\<close>


text \<open>
  Each rejection of a response carries the sentinel of its reason: an unknown status, a VERIFIED response
  without a body, or one with a body over the size limit.
\<close>

lemma response_rejected:
  assumes "validateResponse checkSize proveHash res = Inl e"
  shows "errors_Is e ErrUnknownStatus \<and> vr_Status res \<notin> {''VERIFIED'', ''RETRY'', ''REJECTED''}
     \<or> errors_Is e ErrEmptyResponseBody \<and> vr_Status res = ''VERIFIED'' \<and> vr_ResponseBody res = []
     \<or> errors_Is e ErrResponseBodyTooBig \<and> vr_Status res = ''VERIFIED''
        \<and> checkSize (size_probe proveHash (vr_ResponseBody res)) \<noteq> None"
  using validateResponse_Inl [OF assms] by (auto simp: status_defs fits_def)

lemma response_rejected_witness:
  "validateResponse (\<lambda>d. None) 5 \<lparr>vr_Status = ''BOGUS'', vr_ResponseBody = [], vr_Message = []\<rparr> =
     Inl (WrapPre ErrUnknownStatus '': %q'' [AStr ''BOGUS'']) \<and>
   errors_Is (WrapPre ErrUnknownStatus '': %q'' [AStr ''BOGUS'']) ErrUnknownStatus"
proof -
  have run: "validateResponse (\<lambda>d. None) 5 \<lparr>vr_Status = ''BOGUS'', vr_ResponseBody = [], vr_Message = []\<rparr> =
      Inl (WrapPre ErrUnknownStatus '': %q'' [AStr ''BOGUS''])"
    by (simp add: validateResponse_def status_defs truncateText_def maxStatusLen_def Let_def)
  with response_rejected [OF run] show ?thesis by simp
qed

end
