(* ===== verification/Processor.thy ===== *)
theory Processor
  imports Instructions
begin

text \<open>
  The processor interface and its base implementation,
  \<open>internal/router/processors/processor.go\<close>: sign the instruction and send it on the out channel.

  The locale \<open>processor\<close> is the interface's contract. A processor sends its own instruction at
  most once, only when it succeeds and only in a state the sender can rely on, and leaves what the
  chain fixed of the instruction alone.
\<close>

section \<open>The base processor\<close>

text \<open>The signer is an argument; of the out channel only whether it is set.\<close>

record base_proc =
  bp_chainID :: u64
  bp_out :: bool

definition NewBase :: "u64 \<Rightarrow> base_proc" where
  "NewBase chainID = \<lparr>bp_chainID = chainID, bp_out = False\<rparr>"

definition SetOut :: "base_proc \<Rightarrow> base_proc" where
  "SetOut b = b\<lparr>bp_out := True\<rparr>"

text \<open>
  \<open>select { case b.out <- ib: ... case <-ctx.Done(): ... }\<close>. \<open>sel\<close> is the runtime's choice:
  whether the send goes through. On a nil channel it never does.
\<close>

definition emit :: "('x \<Rightarrow> bool \<times> 'x) \<Rightarrow> base_proc \<Rightarrow> ('x pst, unit) act" where
  "emit sel b s =
     (case sel (ps_env s) of (go, x) \<Rightarrow>
        if bp_out b \<and> go then (Ok (), s\<lparr>ps_env := x, ps_out := ps_out s @ [ps_ib s]\<rparr>)
        else (Fail CtxErr, s\<lparr>ps_env := x\<rparr>))"

definition Base_Process ::
    "(u64 \<Rightarrow> data \<Rightarrow> error + hash) \<Rightarrow> ('x \<Rightarrow> bool \<times> 'x) \<Rightarrow> 'x signer \<Rightarrow> base_proc \<Rightarrow> ('x pst, unit) act" where
  "Base_Process hashFor sel s b =
     (if \<not> bp_out b then failA (New ''out channel not set'')
      else bindA (wrapA ''signing: '' [] (Base_Sign hashFor s (bp_chainID b))) (\<lambda>_. emit sel b))"

section \<open>The contract of a processor\<close>

definition chain_part :: "data \<Rightarrow> data" where
  "chain_part d = d\<lparr>AdditionalFixedMessage := [], AdditionalVariableMessage := []\<rparr>"

definition same_instruction :: "base \<Rightarrow> base \<Rightarrow> bool" where
  "same_instruction a b \<longleftrightarrow>
     Event b = Event a \<and> Tees b = Tees a \<and> chain_part (GeneralData b) = chain_part (GeneralData a)"

lemma chain_part_messages [simp]:
  "chain_part (d\<lparr>AdditionalFixedMessage := m\<rparr>) = chain_part d"
  "chain_part (d\<lparr>AdditionalVariableMessage := m\<rparr>) = chain_part d"
  by (simp_all add: chain_part_def)

lemma same_instruction_refl [simp, intro]: "same_instruction b b"
  by (simp add: same_instruction_def)

lemma same_instruction_trans: "same_instruction a b \<Longrightarrow> same_instruction b c \<Longrightarrow> same_instruction a c"
  by (simp add: same_instruction_def)

lemma same_instruction_update [simp]:
  "same_instruction a (b\<lparr>Signatures := s\<rparr>) = same_instruction a b"
  "same_instruction a (b\<lparr>GeneralData := (GeneralData b)\<lparr>AdditionalFixedMessage := m\<rparr>\<rparr>) = same_instruction a b"
  "same_instruction a (b\<lparr>GeneralData := (GeneralData b)\<lparr>AdditionalVariableMessage := m\<rparr>\<rparr>) = same_instruction a b"
  by (simp_all add: same_instruction_def)

text \<open>What a run may do to the channel and the instruction.\<close>

definition quiet :: "'x pst \<Rightarrow> 'x pst \<Rightarrow> bool" where
  "quiet s t \<longleftrightarrow> ps_out t = ps_out s \<and> same_instruction (ps_ib s) (ps_ib t)"

definition emitted :: "(base \<Rightarrow> bool) \<Rightarrow> 'x pst \<Rightarrow> 'x pst \<Rightarrow> bool" where
  "emitted good s t \<longleftrightarrow>
     ps_out t = ps_out s @ [ps_ib t] \<and> good (ps_ib t) \<and> same_instruction (ps_ib s) (ps_ib t)"

lemma quiet_refl [simp, intro]: "quiet s s"
  by (simp add: quiet_def)

lemma quiet_env [simp]: "quiet s (t\<lparr>ps_env := x\<rparr>) = quiet s t"
  by (simp add: quiet_def)

lemma from_env [simp]:
  "quiet (s\<lparr>ps_env := x\<rparr>) t = quiet s t" "emitted good (s\<lparr>ps_env := x\<rparr>) t = emitted good s t"
  by (simp_all add: quiet_def emitted_def)

lemma quiet_ib: "quiet s t \<Longrightarrow> same_instruction (ps_ib t) b \<Longrightarrow> quiet s (t\<lparr>ps_ib := b\<rparr>)"
  by (auto simp: quiet_def intro: same_instruction_trans)

lemma quiet_trans: "quiet r s \<Longrightarrow> quiet s t \<Longrightarrow> quiet r t"
  by (auto simp: quiet_def intro: same_instruction_trans)

lemma quiet_emitted: "quiet r s \<Longrightarrow> emitted good s t \<Longrightarrow> emitted good r t"
  by (auto simp: quiet_def emitted_def intro: same_instruction_trans)

lemma emitted_mono:
  "quiet s t \<or> emitted good s t \<Longrightarrow> (\<And>ib. same_instruction (ps_ib s) ib \<Longrightarrow> good ib \<Longrightarrow> good' ib) \<Longrightarrow>
     quiet s t \<or> emitted good' s t"
  by (auto simp: emitted_def)

locale processor =
  fixes Process :: "('x pst, unit) act"
    and good :: "base \<Rightarrow> bool"
  assumes process_emits: "wpA Process (\<lambda>_ t. quiet s t \<or> emitted good s t) (\<lambda>_ t. quiet s t) s"
begin

lemma failed_quiet: "Process s = (Fail e, t) \<Longrightarrow> ps_out t = ps_out s"
  using wpA_FailD [OF process_emits, of s e t] by (simp add: quiet_def)

lemma out_good:
  assumes "Process s = (r, t)" and "list_all good (ps_out s)"
  shows "list_all good (ps_out t)"
proof (cases r)
  case (Ok u)
  then show ?thesis
    using wpA_OkD [OF process_emits, of s u t] assms by (auto simp: quiet_def emitted_def)
next
  case (Fail e)
  then show ?thesis using failed_quiet assms by simp
next
  case (Panic p)
  then show ?thesis
    using wpA_PanicD [OF process_emits, of s p t] assms by (simp add: quiet_def)
qed

end

section \<open>The base processor keeps it\<close>

lemma wp_emit:
  assumes "\<And>x. bp_out b \<Longrightarrow> Q () (s\<lparr>ps_env := x, ps_out := ps_out s @ [ps_ib s]\<rparr>)"
    and "\<And>e x. E e (s\<lparr>ps_env := x\<rparr>)"
  shows "wpA (emit sel b) Q E s"
  using assms by (auto simp: wpA_def emit_def split: prod.splits)

lemma wp_emit_good:
  assumes "quiet r s" and "good (ps_ib s)"
  shows "wpA (emit sel b) (\<lambda>_ t. quiet r t \<or> emitted good r t) (\<lambda>_ t. quiet r t) s"
  using assms by (intro wp_emit) (auto simp: quiet_def emitted_def)

text \<open>A send that succeeds has put the instruction in the channel.\<close>

lemma wp_emit_sent:
  assumes "quiet r s" and "good (ps_ib s)"
  shows "wpA (emit sel b) (\<lambda>_ t. emitted good r t) (\<lambda>_ t. quiet r t) s"
  using assms by (intro wp_emit) (auto simp: quiet_def emitted_def)

text \<open>Sign, then send: the last two steps of every processor.\<close>

context signer_contract
begin

lemma wp_sign_emit:
  assumes "quiet r s"
    and "\<And>sigs. signed hashFor chainID valid ((ps_ib s)\<lparr>Signatures := sigs\<rparr>) \<Longrightarrow> good ((ps_ib s)\<lparr>Signatures := sigs\<rparr>)"
  shows "wpA (bindA (wrapA f as (Base_Sign hashFor sgnr chainID)) (\<lambda>_. emit sel b))
    (\<lambda>_ t. quiet r t \<or> emitted good r t) (\<lambda>_ t. quiet r t) s"
  unfolding wp using assms
  by (intro wp_Base_Sign wp_emit_good) (auto simp: quiet_ib)

text \<open>The base processor does not end without an error unless it has sent the instruction.\<close>

lemma Base_Process_sent:
  "wpA (Base_Process hashFor sel sgnr b)
     (\<lambda>_ t. emitted (signed hashFor (bp_chainID b) valid) s t) (\<lambda>_ t. quiet s t) s"
  unfolding Base_Process_def
  by (auto simp: wp quiet_ib intro!: wp_Base_Sign wp_emit_sent)

lemma Base_Process_emits:
  "wpA (Base_Process hashFor sel sgnr b)
     (\<lambda>_ t. quiet s t \<or> emitted (signed hashFor (bp_chainID b) valid) s t) (\<lambda>_ t. quiet s t) s"
  by (rule wpA_mono [OF Base_Process_sent]) simp_all

end

sublocale signer_contract < base: processor
    "Base_Process hashFor sel sgnr b" "signed hashFor (bp_chainID b) valid" for hashFor sel b
  by unfold_locales (rule Base_Process_emits)

text \<open>With the out channel set, signing succeeding and the send chosen, the instruction is sent.\<close>

lemma Base_Process_sends:
  assumes "bp_out b" and "hashesForSigning hashFor (bp_chainID b) (ps_ib s) = Inr hs"
    and "Sign sg hs (ps_env s) = (Ok sigs, x)" and "sel x = (True, x')"
  shows "Base_Process hashFor sel sg b s =
    (Ok (), s\<lparr>ps_ib := (ps_ib s)\<lparr>Signatures := sigs\<rparr>, ps_env := x',
       ps_out := ps_out s @ [(ps_ib s)\<lparr>Signatures := sigs\<rparr>]\<rparr>)"
  using assms Base_Sign_Ok [OF assms(2,3)]
  by (simp add: Base_Process_def act_eval emit_def)

section \<open>Silent successes\<close>

text \<open>
  An action that leaves the channel as it is, and one that does not succeed without sending: what a chain of steps
  does is decided by its last one.
\<close>

definition keeps_out :: "('x pst, 'a) act \<Rightarrow> bool" where
  "keeps_out a \<longleftrightarrow> (\<forall>s. wpA a (\<lambda>_ t. ps_out t = ps_out s) (\<lambda>_ t. ps_out t = ps_out s) s)"

definition sends_out :: "('x pst, 'a) act \<Rightarrow> bool" where
  "sends_out a \<longleftrightarrow> (\<forall>s. wpA a (\<lambda>_ t. ps_out t \<noteq> ps_out s) (\<lambda>_ t. True) s)"

named_theorems outs

lemma keeps_outI: "keeps_out a \<Longrightarrow> ps_out t = out \<Longrightarrow> wpA a (\<lambda>_ u. ps_out u = out) (\<lambda>_ u. ps_out u = out) t"
  by (auto simp: keeps_out_def)

lemma keeps_out_bind [outs]: "keeps_out a \<Longrightarrow> (\<And>x. keeps_out (f x)) \<Longrightarrow> keeps_out (bindA a f)"
  unfolding keeps_out_def [of "bindA a f"] wpA_bind
  by (intro allI wpA_mono [OF keeps_outI [OF _ refl]] keeps_outI)

lemma keeps_out_wrap [outs]: "keeps_out a \<Longrightarrow> keeps_out (wrapA g as a)"
  by (simp add: keeps_out_def wp)

lemma keeps_out_basic [outs]:
  "keeps_out (retA x)" "keeps_out (failA e)" "keeps_out (panicA p)" "keeps_out (liftA r)" "keeps_out (checkA c)" "keeps_out (readA g)"
  "keeps_out (on_env m)" "keeps_out (modify_ib h)" "keeps_out (modify_data k)"
  by (auto simp: keeps_out_def wp split: sum.split option.split intro: wpA_any)

lemma keeps_out_if [outs]: "keeps_out a \<Longrightarrow> keeps_out c \<Longrightarrow> keeps_out (if b then a else c)"
  by simp

lemma keeps_out_Base_Sign [outs]: "keeps_out (Base_Sign hashFor sg chainID)"
  unfolding Base_Sign_def by (intro outs)

lemma sends_outI: "sends_out a \<Longrightarrow> ps_out t = out \<Longrightarrow> wpA a (\<lambda>_ u. ps_out u \<noteq> out) (\<lambda>_ u. True) t"
  by (auto simp: sends_out_def)

lemma sends_out_bind [outs]: "keeps_out a \<Longrightarrow> (\<And>x. sends_out (f x)) \<Longrightarrow> sends_out (bindA a f)"
  unfolding sends_out_def [of "bindA a f"] wpA_bind
  by (intro allI wpA_mono [OF keeps_outI [OF _ refl]] sends_outI) simp_all

lemma sends_out_fail [outs]: "sends_out (failA e)"
  by (simp add: sends_out_def wp)

lemma sends_out_if [outs]: "sends_out a \<Longrightarrow> sends_out c \<Longrightarrow> sends_out (if b then a else c)"
  by simp

lemma sends_out_emit [outs]: "sends_out (emit sel b)"
  by (auto simp: sends_out_def intro: wp_emit)

lemma sends_outD: "sends_out a \<Longrightarrow> a s = (Ok u, t) \<Longrightarrow> ps_out t \<noteq> ps_out s"
  by (auto simp: sends_out_def dest: wpA_OkD)

lemma keeps_outD: "keeps_out a \<Longrightarrow> a s = (r, t) \<Longrightarrow> ps_out t = ps_out s"
  by (cases r) (auto simp: keeps_out_def dest: wpAD)

lemma Base_Process_not_silent: "sends_out (Base_Process hashFor sel sg b)"
  unfolding Base_Process_def by (intro outs)

end
