(* ===== verification/FdcHandler.thy ===== *)
theory FdcHandler
  imports Verifier Processor
begin

text \<open>
  The handler of FDC2 instructions, \<open>internal/router/processors/fdc_handler.go\<close>: it asks the
  verifier of the request's type and source for a response, signs the response, signs the
  instruction and sends it.

  The record \<open>fdc_lib\<close> holds what the handler calls of tee-node and go-flare-common: decoding
  of the request, the message hash, the chain-bound digest and the rendering of identifiers. The
  clock and the log lines are left out.
\<close>

section \<open>Identifiers\<close>

record fdc_lib =
  DecodeRequest :: "bytes \<Rightarrow> error + att_request"
  HashMessage :: "u64 \<Rightarrow> att_request \<Rightarrow> bytes \<Rightarrow> address list \<Rightarrow> int \<Rightarrow> u64 \<Rightarrow> error + hash"
  ChainBoundRelayPrefixedHash :: "u64 \<Rightarrow> hash \<Rightarrow> hash"
  CommonHashToString :: "hash \<Rightarrow> string"
  Hex :: "hash \<Rightarrow> string"

definition AttTypeAndSourceID :: "att_request \<Rightarrow> error + att_id" where
  "AttTypeAndSourceID header = Inr (join_halves (rq_AttestationType header) (rq_SourceId header))"

definition AttTypeAndSourceIDBase :: "fdc_lib \<Rightarrow> base \<Rightarrow> error + att_id" where
  "AttTypeAndSourceIDBase lib b =
     (case DecodeRequest lib (OriginalMessage (GeneralData b)) of
        Inl e \<Rightarrow> Inl (Wrapf ''decoding fdc request: '' [] e)
      | Inr fullRequest \<Rightarrow> AttTypeAndSourceID fullRequest)"

definition atsHalf :: "fdc_lib \<Rightarrow> hash \<Rightarrow> string" where
  "atsHalf lib h =
     (let s = CommonHashToString lib h in
      if list_ex (\<lambda>c. c < CHR 0x20 \<or> CHR 0x7E < c) s then Hex lib h else s)"

definition atsStrings :: "fdc_lib \<Rightarrow> att_id \<Rightarrow> string \<times> string" where
  "atsStrings lib ats = (case word_split ats of (t, s) \<Rightarrow> (atsHalf lib t, atsHalf lib s))"

section \<open>The handler\<close>

type_synonym 'x verifiers = "att_id \<rightharpoonup> (att_request \<Rightarrow> ('x, verifier_response) act)"

text \<open>
  The verifier query, unless a former attempt left a response. The result tells whether to go on:
  a rejection ends the handler without an error.
\<close>

definition verify_step ::
    "arg list \<Rightarrow> (att_request \<Rightarrow> ('x, verifier_response) act) \<Rightarrow> att_request \<Rightarrow> ('x pst, bool) act" where
  "verify_step names v fullRequest =
     bindA (readA ps_ib) (\<lambda>ib.
       if length (AdditionalFixedMessage (GeneralData ib)) = 0 then
         bindA (wrapA ''getting attestation response (type %s, source %s): '' names (on_env (v fullRequest)))
           (\<lambda>res.
             if vr_Status res = StatusVerified then
               bindA (modify_data (\<lambda>d. d\<lparr>AdditionalFixedMessage := vr_ResponseBody res\<rparr>)) (\<lambda>_. retA True)
             else if vr_Status res = StatusRetry then
               failA (Errorf ''verifier (type %s, source %s) status RETRY: %s'' (names @ [AStr (vr_Message res)]))
             else if vr_Status res = StatusRejected then retA False
             else failA (WrapPre ErrUnknownStatus '': %q'' [AStr (vr_Status res)]))
       else retA True)"

text \<open>Hash and sign the response, then sign and send the instruction.\<close>

definition sign_response ::
    "fdc_lib \<Rightarrow> 'x signer \<Rightarrow> u64 \<Rightarrow> att_request \<Rightarrow> ('x pst, unit) act" where
  "sign_response lib s chainID fullRequest =
     bindA (readA ps_ib) (\<lambda>ib.
     bindA (wrapA ''hashing fdc message: '' [] (liftA (HashMessage lib chainID fullRequest
        (AdditionalFixedMessage (GeneralData ib)) (ev_Cosigners (Event ib)) (ev_CosignersThreshold (Event ib))
        (Timestamp (GeneralData ib))))) (\<lambda>messageHash.
     let hashToBeSigned = ChainBoundRelayPrefixedHash lib chainID messageHash in
     bindA (wrapA ''signing response: '' [] (on_env (Sign s [hashToBeSigned]))) (\<lambda>signature.
       if length signature \<noteq> 1 then
         failA (Errorf ''expected 1 signature, got %d'' [AInt (int (length signature))])
       else modify_data (\<lambda>d. d\<lparr>AdditionalVariableMessage := signature ! 0\<rparr>))))"

text \<open>The rest of the handler: nothing after a rejection.\<close>

definition FDC_finish ::
    "fdc_lib \<Rightarrow> (u64 \<Rightarrow> data \<Rightarrow> error + hash) \<Rightarrow> ('x \<Rightarrow> bool \<times> 'x) \<Rightarrow> 'x signer \<Rightarrow> base_proc \<Rightarrow> att_request
      \<Rightarrow> bool \<Rightarrow> ('x pst, unit) act" where
  "FDC_finish lib hashFor sel s b fullRequest go =
     (if \<not> go then retA ()
      else bindA (sign_response lib s (bp_chainID b) fullRequest) (\<lambda>_.
        bindA (wrapA ''signing instruction: '' [] (Base_Sign hashFor s (bp_chainID b))) (\<lambda>_.
        emit sel b)))"

definition FDC_Handle ::
    "fdc_lib \<Rightarrow> (u64 \<Rightarrow> data \<Rightarrow> error + hash) \<Rightarrow> ('x \<Rightarrow> bool \<times> 'x) \<Rightarrow> 'x signer \<Rightarrow> base_proc \<Rightarrow> 'x verifiers
      \<Rightarrow> ('x pst, unit) act" where
  "FDC_Handle lib hashFor sel s b verifiers =
     bindA (readA ps_ib) (\<lambda>ib.
     bindA (wrapA ''decoding request: '' [] (liftA (DecodeRequest lib (OriginalMessage (GeneralData ib))))) (\<lambda>fullRequest.
     bindA (wrapA ''reading att type and source ID: '' [] (liftA (AttTypeAndSourceID fullRequest))) (\<lambda>ats.
       let names = (case atsStrings lib ats of (attType, sourceID) \<Rightarrow> [AStr attType, AStr sourceID]) in
       case verifiers ats of
         None \<Rightarrow> failA (Errorf ''no verifier for type: %s, source: %s'' names)
       | Some v \<Rightarrow>
           bindA (verify_step names v fullRequest) (FDC_finish lib hashFor sel s b fullRequest))))"

section \<open>What leaves the handler\<close>

text \<open>
  The response that is sent fits, and the variable message is a valid signature of the
  chain-bound digest of exactly that response to exactly the request of the instruction.
\<close>

definition attested :: "fdc_lib \<Rightarrow> u64 \<Rightarrow> (hash \<Rightarrow> bytes \<Rightarrow> bool) \<Rightarrow> base \<Rightarrow> bool" where
  "attested lib chainID valid ib \<longleftrightarrow>
     (\<exists>rq h. DecodeRequest lib (OriginalMessage (GeneralData ib)) = Inr rq \<and>
        HashMessage lib chainID rq (AdditionalFixedMessage (GeneralData ib)) (ev_Cosigners (Event ib))
          (ev_CosignersThreshold (Event ib)) (Timestamp (GeneralData ib)) = Inr h \<and>
        valid (ChainBoundRelayPrefixedHash lib chainID h) (AdditionalVariableMessage (GeneralData ib))) \<and>
     AdditionalFixedMessage (GeneralData ib) \<noteq> []"

definition fdc_good ::
    "fdc_lib \<Rightarrow> (u64 \<Rightarrow> data \<Rightarrow> error + hash) \<Rightarrow> u64 \<Rightarrow> (hash \<Rightarrow> bytes \<Rightarrow> bool) \<Rightarrow> base \<Rightarrow> bool" where
  "fdc_good lib hashFor chainID valid ib \<longleftrightarrow> signed hashFor chainID valid ib \<and> attested lib chainID valid ib"

lemma attested_signatures [simp]: "attested lib chainID valid (ib\<lparr>Signatures := s\<rparr>) = attested lib chainID valid ib"
  by (simp add: attested_def)

lemma chain_part_eqD:
  "chain_part d = chain_part d' \<Longrightarrow> OriginalMessage d = OriginalMessage d' \<and> Timestamp d = Timestamp d'"
  by (cases d; cases d') (simp add: chain_part_def)

lemma quiet_request:
  "quiet r s \<Longrightarrow> OriginalMessage (GeneralData (ps_ib s)) = OriginalMessage (GeneralData (ps_ib r))"
  by (auto simp: quiet_def same_instruction_def dest: chain_part_eqD)

locale fdc_handler = signer_contract sgnr valid
  for sgnr :: "'x signer" and valid +
  fixes verifiers :: "'x verifiers"
    and sizeOk :: "bytes \<Rightarrow> bool"
  assumes responders: "verifiers a = Some v \<Longrightarrow> responder v sizeOk"
begin

lemma wp_verify_step:
  assumes "responder v sizeOk"
  shows "wpA (verify_step names v rq)
    (\<lambda>go t. quiet s t \<and> (go \<longrightarrow> AdditionalFixedMessage (GeneralData (ps_ib t)) \<noteq> []))
    (\<lambda>_ t. quiet s t) s"
  unfolding verify_step_def wp Let_def
  by (auto simp: wp quiet_ib wire_ok_def intro!: responder.wp_Response [OF assms])

lemma wp_sign_response:
  assumes "quiet r s" and "DecodeRequest lib (OriginalMessage (GeneralData (ps_ib s))) = Inr rq"
    and "AdditionalFixedMessage (GeneralData (ps_ib s)) \<noteq> []"
  shows "wpA (sign_response lib sgnr chainID rq)
    (\<lambda>_ t. quiet r t \<and> attested lib chainID valid (ps_ib t)) (\<lambda>_ t. quiet r t) s"
proof (cases "HashMessage lib chainID rq (AdditionalFixedMessage (GeneralData (ps_ib s)))
    (ev_Cosigners (Event (ps_ib s))) (ev_CosignersThreshold (Event (ps_ib s))) (Timestamp (GeneralData (ps_ib s)))")
  case (Inl e)
  with assms show ?thesis by (simp add: sign_response_def wp)
next
  case (Inr h)
  with assms show ?thesis
    by (auto simp: sign_response_def wp Let_def quiet_ib attested_def list_all2_Cons1 intro!: wp_Sign)
qed

lemma FDC_Handle_emits:
  "wpA (FDC_Handle lib hashFor sel sgnr b verifiers)
     (\<lambda>_ t. quiet s t \<or> emitted (fdc_good lib hashFor (bp_chainID b) valid) s t) (\<lambda>_ t. quiet s t) s"
proof -
  let ?good = "fdc_good lib hashFor (bp_chainID b) valid"
  have send: "wpA (bindA (wrapA f as (Base_Sign hashFor sgnr (bp_chainID b))) (\<lambda>_. emit sel b))
      (\<lambda>_ t. quiet s t \<or> emitted ?good s t) (\<lambda>_ t. quiet s t) u"
    if "quiet s u" and "attested lib (bp_chainID b) valid (ps_ib u)" for f as u
    using that by (intro wp_sign_emit) (simp_all add: fdc_good_def)
  have finish: "wpA (FDC_finish lib hashFor sel sgnr b rq go) (\<lambda>_ t. quiet s t \<or> emitted ?good s t) (\<lambda>_ t. quiet s t) u"
    if u: "quiet s u" "go \<longrightarrow> AdditionalFixedMessage (GeneralData (ps_ib u)) \<noteq> []"
      and dec: "DecodeRequest lib (OriginalMessage (GeneralData (ps_ib s))) = Inr rq" for rq go u
  proof (cases go)
    case True
    from u(1) dec have "DecodeRequest lib (OriginalMessage (GeneralData (ps_ib u))) = Inr rq"
      by (simp add: quiet_request)
    with True u have "wpA (sign_response lib sgnr (bp_chainID b) rq)
        (\<lambda>_ t. quiet s t \<and> attested lib (bp_chainID b) valid (ps_ib t)) (\<lambda>_ t. quiet s t) u"
      by (intro wp_sign_response) simp_all
    then have "wpA (sign_response lib sgnr (bp_chainID b) rq) (\<lambda>_. wpA (bindA (wrapA ''signing instruction: '' []
        (Base_Sign hashFor sgnr (bp_chainID b))) (\<lambda>_. emit sel b)) (\<lambda>_ t. quiet s t \<or> emitted ?good s t) (\<lambda>_ t. quiet s t))
        (\<lambda>_ t. quiet s t) u"
    proof (rule wpA_mono)
      fix t
      assume "quiet s t \<and> attested lib (bp_chainID b) valid (ps_ib t)"
      then show "wpA (bindA (wrapA ''signing instruction: '' [] (Base_Sign hashFor sgnr (bp_chainID b))) (\<lambda>_. emit sel b))
          (\<lambda>_ t. quiet s t \<or> emitted ?good s t) (\<lambda>_ t. quiet s t) t"
        by (intro send) simp_all
    qed
    with True show ?thesis
      by (simp only: FDC_finish_def not_True_eq_False if_False wpA_bind [of "sign_response lib sgnr (bp_chainID b) rq"])
  next
    case False
    with u show ?thesis by (simp add: FDC_finish_def wp)
  qed
  show ?thesis
  proof (cases "DecodeRequest lib (OriginalMessage (GeneralData (ps_ib s)))")
    case (Inl e)
    then have "FDC_Handle lib hashFor sel sgnr b verifiers s = failA (Wrapf ''decoding request: '' [] e) s"
      by (simp add: FDC_Handle_def)
    then show ?thesis by (simp add: wpA_def)
  next
    case (Inr rq)
    let ?ats = "join_halves (rq_AttestationType rq) (rq_SourceId rq)"
    let ?names = "case atsStrings lib ?ats of (attType, sourceID) \<Rightarrow> [AStr attType, AStr sourceID]"
    show ?thesis
    proof (cases "verifiers ?ats")
      case None
      with Inr have "FDC_Handle lib hashFor sel sgnr b verifiers s =
          failA (Errorf ''no verifier for type: %s, source: %s'' ?names) s"
        by (simp add: FDC_Handle_def AttTypeAndSourceID_def Let_def)
      then show ?thesis by (simp add: wpA_def)
    next
      case (Some v)
      with Inr have "FDC_Handle lib hashFor sel sgnr b verifiers s = bindA (verify_step ?names v rq) (FDC_finish lib hashFor sel sgnr b rq) s"
        by (simp add: FDC_Handle_def AttTypeAndSourceID_def Let_def)
      then show ?thesis
        by (rule wpA_run)
          (auto simp: wpA_bind intro!: wpA_mono [OF wp_verify_step [OF responders [OF Some]]] finish Inr)
    qed
  qed
qed

end

sublocale fdc_handler < handle: processor
    "FDC_Handle lib hashFor sel sgnr b verifiers" "fdc_good lib hashFor (bp_chainID b) valid"
  for lib hashFor sel b
  by unfold_locales (rule FDC_Handle_emits)

section \<open>Verdicts\<close>

text \<open>The handler up to the verifier's answer, for a request with a configured verifier.\<close>

definition asks ::
    "fdc_lib \<Rightarrow> 'x verifiers \<Rightarrow> base \<Rightarrow> att_request \<Rightarrow> (att_request \<Rightarrow> ('x, verifier_response) act) \<Rightarrow> bool" where
  "asks lib verifiers ib rq v \<longleftrightarrow>
     DecodeRequest lib (OriginalMessage (GeneralData ib)) = Inr rq \<and>
     verifiers (join_halves (rq_AttestationType rq) (rq_SourceId rq)) = Some v"

lemma FDC_Handle_asks:
  assumes "asks lib verifiers (ps_ib s) rq v"
  obtains names where "FDC_Handle lib hashFor sel sg b verifiers s =
    bindA (verify_step names v rq) (FDC_finish lib hashFor sel sg b rq) s"
  using assms by (simp add: FDC_Handle_def AttTypeAndSourceID_def Let_def asks_def)

lemma verify_step_rejected:
  assumes "AdditionalFixedMessage (GeneralData (ps_ib s)) = []"
    and "v rq (ps_env s) = (Ok res, x)" and "vr_Status res = StatusRejected"
  shows "verify_step names v rq s = (Ok False, s\<lparr>ps_env := x\<rparr>)"
  using assms
  by (simp add: verify_step_def bindA_def wrapA_def mapErr_def on_env_apply status_defs)

lemma verify_step_retry:
  assumes "AdditionalFixedMessage (GeneralData (ps_ib s)) = []"
    and "v rq (ps_env s) = (Ok res, x)" and "vr_Status res = StatusRetry"
  shows "verify_step names v rq s =
    (Fail (Errorf ''verifier (type %s, source %s) status RETRY: %s'' (names @ [AStr (vr_Message res)])), s\<lparr>ps_env := x\<rparr>)"
  using assms
  by (simp add: verify_step_def bindA_def wrapA_def mapErr_def on_env_apply status_defs)

text \<open>A rejection ends the handler without an error and without a message.\<close>

lemma FDC_Handle_rejected:
  assumes "asks lib verifiers (ps_ib s) rq v" and "AdditionalFixedMessage (GeneralData (ps_ib s)) = []"
    and "v rq (ps_env s) = (Ok res, x)" and "vr_Status res = StatusRejected"
  shows "FDC_Handle lib hashFor sel sg b verifiers s = (Ok (), s\<lparr>ps_env := x\<rparr>)"
proof -
  obtain names where "FDC_Handle lib hashFor sel sg b verifiers s =
    bindA (verify_step names v rq) (FDC_finish lib hashFor sel sg b rq) s"
    using assms(1) by (rule FDC_Handle_asks)
  with verify_step_rejected [of s v rq res x names, OF assms(2-4)] show ?thesis
    by (simp add: bindA_def FDC_finish_def)
qed

text \<open>RETRY is an error, which makes the queue try again; the instruction is as before.\<close>

lemma FDC_Handle_retry:
  assumes "asks lib verifiers (ps_ib s) rq v" and "AdditionalFixedMessage (GeneralData (ps_ib s)) = []"
    and "v rq (ps_env s) = (Ok res, x)" and "vr_Status res = StatusRetry"
  obtains e where "FDC_Handle lib hashFor sel sg b verifiers s = (Fail e, s\<lparr>ps_env := x\<rparr>)"
proof -
  obtain names where "FDC_Handle lib hashFor sel sg b verifiers s =
    bindA (verify_step names v rq) (FDC_finish lib hashFor sel sg b rq) s"
    using assms(1) by (rule FDC_Handle_asks)
  with verify_step_retry [of s v rq res x names, OF assms(2-4)] show ?thesis
    by (intro that) (simp add: bindA_def)
qed

text \<open>So is a query that fails, with the verifier unreachable or breaking the protocol.\<close>

definition undecided :: "verifier_response res \<times> 'x \<Rightarrow> bool" where
  "undecided rx \<longleftrightarrow> (case fst rx of Ok res \<Rightarrow> vr_Status res = StatusRetry | Fail e \<Rightarrow> True | Panic p \<Rightarrow> False)"

lemma FDC_Handle_undecided:
  assumes "asks lib verifiers (ps_ib s) rq v" and "AdditionalFixedMessage (GeneralData (ps_ib s)) = []"
    and "undecided (v rq (ps_env s))"
  obtains e x where "FDC_Handle lib hashFor sel sg b verifiers s = (Fail e, s\<lparr>ps_env := x\<rparr>)"
proof -
  obtain names where run: "FDC_Handle lib hashFor sel sg b verifiers s =
    bindA (verify_step names v rq) (FDC_finish lib hashFor sel sg b rq) s"
    using assms(1) by (rule FDC_Handle_asks)
  obtain r x where v: "v rq (ps_env s) = (r, x)" by fastforce
  show ?thesis
  proof (cases r)
    case (Ok res)
    with v assms(3) have "v rq (ps_env s) = (Ok res, x)" "vr_Status res = StatusRetry" by (simp_all add: undecided_def)
    from FDC_Handle_retry [OF assms(1,2) this] that show ?thesis by metis
  next
    case (Fail e)
    with v assms(2) have "verify_step names v rq s =
        (Fail (Wrapf ''getting attestation response (type %s, source %s): '' names e), s\<lparr>ps_env := x\<rparr>)"
      by (simp add: verify_step_def bindA_def wrapA_def mapErr_def on_env_apply)
    with run that show ?thesis by (simp add: bindA_def)
  next
    case (Panic p)
    with v assms(3) show ?thesis by (simp add: undecided_def)
  qed
qed

text \<open>The handler ends without an error and without a message only after a rejection.\<close>

definition rejected :: "fdc_lib \<Rightarrow> 'x verifiers \<Rightarrow> base \<Rightarrow> bool" where
  "rejected lib verifiers ib \<longleftrightarrow>
     (\<exists>rq v x res y. asks lib verifiers ib rq v \<and> v rq x = (Ok res, y) \<and> vr_Status res = StatusRejected)"

lemma keeps_out_verify_step: "keeps_out (verify_step names v rq)"
  unfolding verify_step_def by (intro outs)

lemma keeps_out_sign_response [outs]: "keeps_out (sign_response lib sg chainID rq)"
  unfolding sign_response_def Let_def by (intro outs)

lemma FDC_finish_not_silent: "sends_out (FDC_finish lib hashFor sel sg b rq True)"
  unfolding FDC_finish_def not_True_eq_False if_False by (intro outs)

lemma verify_step_False:
  assumes "verify_step names v rq s = (Ok False, t)"
  shows "\<exists>res. v rq (ps_env s) = (Ok res, ps_env t) \<and> vr_Status res = StatusRejected"
proof -
  have "wpA (verify_step names v rq)
      (\<lambda>go t. \<not> go \<longrightarrow> (\<exists>res. v rq (ps_env s) = (Ok res, ps_env t) \<and> vr_Status res = StatusRejected)) (\<lambda>_ _. True) s"
    unfolding verify_step_def wp Let_def by (auto simp: wp wpA_def split: prod.splits res.splits)
  from wpA_OkD [OF this assms] show ?thesis by simp
qed

lemma FDC_Handle_silent:
  assumes "FDC_Handle lib hashFor sel sg b verifiers s = (Ok u, t)" and "ps_out t = ps_out s"
  shows "rejected lib verifiers (ps_ib s)"
proof -
  have "\<exists>rq v. asks lib verifiers (ps_ib s) rq v"
    using assms(1) by (auto simp: FDC_Handle_def AttTypeAndSourceID_def asks_def bindA_Ok_iff Let_def split: option.splits)
  then obtain rq v where asks: "asks lib verifiers (ps_ib s) rq v" by blast
  then obtain names where "FDC_Handle lib hashFor sel sg b verifiers s =
      bindA (verify_step names v rq) (FDC_finish lib hashFor sel sg b rq) s" by (rule FDC_Handle_asks)
  with assms(1) have "bindA (verify_step names v rq) (FDC_finish lib hashFor sel sg b rq) s = (Ok u, t)" by simp
  then obtain go s' where v: "verify_step names v rq s = (Ok go, s')"
    and fin: "FDC_finish lib hashFor sel sg b rq go s' = (Ok u, t)"
    unfolding bindA_Ok_iff by blast
  have "\<not> go"
  proof
    assume go
    then have "ps_out t \<noteq> ps_out s'" using sends_outD [OF FDC_finish_not_silent] fin by simp
    with keeps_outD [OF keeps_out_verify_step v] assms(2) show False by simp
  qed
  with v have "verify_step names v rq s = (Ok False, s')" by simp
  from verify_step_False [OF this] asks show ?thesis unfolding rejected_def by blast
qed

section \<open>An attestation that goes through\<close>

lemma verify_step_verified:
  assumes "AdditionalFixedMessage (GeneralData (ps_ib s)) = []"
    and "v rq (ps_env s) = (Ok res, x)" and "vr_Status res = StatusVerified"
  shows "verify_step names v rq s = (Ok True, s\<lparr>ps_env := x,
    ps_ib := (ps_ib s)\<lparr>GeneralData := (GeneralData (ps_ib s))\<lparr>AdditionalFixedMessage := vr_ResponseBody res\<rparr>\<rparr>\<rparr>)"
  using assms
  by (simp add: verify_step_def bindA_def wrapA_def mapErr_def on_env_apply modify_data_def)

definition answered :: "base \<Rightarrow> bytes \<Rightarrow> base" where
  "answered ib m = ib\<lparr>GeneralData := (GeneralData ib)\<lparr>AdditionalFixedMessage := m\<rparr>\<rparr>"

definition with_signature :: "base \<Rightarrow> bytes \<Rightarrow> base" where
  "with_signature ib sig = ib\<lparr>GeneralData := (GeneralData ib)\<lparr>AdditionalVariableMessage := sig\<rparr>\<rparr>"

lemma sign_response_Ok:
  assumes "HashMessage lib chainID rq (AdditionalFixedMessage (GeneralData (ps_ib s))) (ev_Cosigners (Event (ps_ib s)))
      (ev_CosignersThreshold (Event (ps_ib s))) (Timestamp (GeneralData (ps_ib s))) = Inr h"
    and "Sign sg [ChainBoundRelayPrefixedHash lib chainID h] (ps_env s) = (Ok [sig], x)"
  shows "sign_response lib sg chainID rq s = (Ok (), s\<lparr>ps_ib := with_signature (ps_ib s) sig, ps_env := x\<rparr>)"
  using assms
  by (simp add: sign_response_def Let_def bindA_def wrapA_def mapErr_def on_env_apply modify_data_def
      with_signature_def retA_def)

lemma FDC_finish_Ok:
  assumes "HashMessage lib (bp_chainID b) rq (AdditionalFixedMessage (GeneralData (ps_ib s))) (ev_Cosigners (Event (ps_ib s)))
      (ev_CosignersThreshold (Event (ps_ib s))) (Timestamp (GeneralData (ps_ib s))) = Inr h"
    and "Sign sg [ChainBoundRelayPrefixedHash lib (bp_chainID b) h] (ps_env s) = (Ok [sig], x)"
    and "hashesForSigning hashFor (bp_chainID b) (with_signature (ps_ib s) sig) = Inr hs" and "Sign sg hs x = (Ok sigs, x')"
  shows "FDC_finish lib hashFor sel sg b rq True s =
    emit sel b (s\<lparr>ps_ib := (with_signature (ps_ib s) sig)\<lparr>Signatures := sigs\<rparr>, ps_env := x'\<rparr>)"
proof -
  let ?s = "s\<lparr>ps_ib := with_signature (ps_ib s) sig, ps_env := x\<rparr>"
  have "Base_Sign hashFor sg (bp_chainID b) ?s =
      (Ok (), s\<lparr>ps_ib := (with_signature (ps_ib s) sig)\<lparr>Signatures := sigs\<rparr>, ps_env := x'\<rparr>)"
    using Base_Sign_Ok [of hashFor "bp_chainID b" ?s hs sg sigs x'] assms(3,4) by simp
  with sign_response_Ok [OF assms(1,2)] show ?thesis
    by (simp add: FDC_finish_def bindA_def wrapA_def mapErr_def)
qed

section \<open>A verified response is kept\<close>

text \<open>With a response in place, no verifier is asked.\<close>

lemma verify_step_kept:
  "AdditionalFixedMessage (GeneralData (ps_ib s)) \<noteq> [] \<Longrightarrow> verify_step names v rq s = (Ok True, s)"
  by (simp add: verify_step_def)

lemma FDC_Handle_no_query:
  assumes kept: "AdditionalFixedMessage (GeneralData (ps_ib s)) \<noteq> []" and dom: "dom verifiers = dom verifiers'"
  shows "FDC_Handle lib hashFor sel sg b verifiers s = FDC_Handle lib hashFor sel sg b verifiers' s"
proof (cases "DecodeRequest lib (OriginalMessage (GeneralData (ps_ib s)))")
  case (Inl e)
  then show ?thesis by (simp add: FDC_Handle_def)
next
  case (Inr rq)
  let ?ats = "join_halves (rq_AttestationType rq) (rq_SourceId rq)"
  have "verifiers ?ats = None \<longleftrightarrow> verifiers' ?ats = None" using dom by blast
  with Inr verify_step_kept [OF kept] show ?thesis
    by (cases "verifiers ?ats"; cases "verifiers' ?ats")
      (simp_all add: FDC_Handle_def AttTypeAndSourceID_def Let_def bindA_def [of "verify_step _ _ _"])
qed

text \<open>Whatever happens after the verifier's answer, the response stays for the next attempt.\<close>

definition keeps_fixed :: "bytes \<Rightarrow> ('x pst, 'a) act \<Rightarrow> bool" where
  "keeps_fixed m a \<longleftrightarrow> (\<forall>s. AdditionalFixedMessage (GeneralData (ps_ib s)) = m \<longrightarrow>
     wpA a (\<lambda>_ t. AdditionalFixedMessage (GeneralData (ps_ib t)) = m)
       (\<lambda>_ t. AdditionalFixedMessage (GeneralData (ps_ib t)) = m) s)"

lemma keeps_fixed_bind:
  "keeps_fixed m a \<Longrightarrow> (\<And>x. keeps_fixed m (f x)) \<Longrightarrow> keeps_fixed m (bindA a f)"
  unfolding keeps_fixed_def wp by (blast intro: wpA_mono)

lemma keeps_fixed_wrap: "keeps_fixed m a \<Longrightarrow> keeps_fixed m (wrapA g as a)"
  unfolding keeps_fixed_def wp by (blast intro: wpA_mono)

lemma keeps_fixed_basic:
  "keeps_fixed m (retA x)" "keeps_fixed m (failA e)" "keeps_fixed m (liftA r)" "keeps_fixed m (readA g)"
  "keeps_fixed m (on_env c)" "keeps_fixed m (modify_data (\<lambda>d. d\<lparr>AdditionalVariableMessage := k d\<rparr>))"
  "keeps_fixed m (modify_ib (\<lambda>b. b\<lparr>Signatures := sg\<rparr>))" "keeps_fixed m (emit sel b)"
  by (auto simp: keeps_fixed_def wp split: sum.split intro: wpA_any wp_emit)

lemmas keeps_fixed_intros = keeps_fixed_bind keeps_fixed_wrap keeps_fixed_basic

lemma keeps_fixed_if: "keeps_fixed m a \<Longrightarrow> keeps_fixed m c \<Longrightarrow> keeps_fixed m (if b then a else c)"
  by simp

lemma keeps_fixed_Base_Sign: "keeps_fixed m (Base_Sign hashFor sg chainID)"
  unfolding Base_Sign_def by (intro keeps_fixed_intros)

lemma keeps_fixed_sign_response: "keeps_fixed m (sign_response lib sg chainID rq)"
  unfolding sign_response_def Let_def by (intro keeps_fixed_intros keeps_fixed_if)

lemma keeps_fixed_finish: "keeps_fixed m (FDC_finish lib hashFor sel sg b rq go)"
  unfolding FDC_finish_def
  by (intro keeps_fixed_intros keeps_fixed_if keeps_fixed_sign_response keeps_fixed_Base_Sign)

lemma keeps_fixed_verify_step: "m \<noteq> [] \<Longrightarrow> keeps_fixed m (verify_step names v rq)"
  by (auto simp: keeps_fixed_def wpA_def verify_step_kept)

lemma keeps_fixed_Handle:
  assumes "m \<noteq> []"
  shows "keeps_fixed m (FDC_Handle lib hashFor sel sg b verifiers)"
proof -
  have "keeps_fixed m (case x of None \<Rightarrow> failA e | Some v \<Rightarrow>
      bindA (verify_step names v rq) (FDC_finish lib hashFor sel sg b rq))"
    for e names rq and x :: "(att_request \<Rightarrow> ('a, verifier_response) act) option"
    using assms by (cases x) (auto intro!: keeps_fixed_intros keeps_fixed_verify_step keeps_fixed_finish)
  then show ?thesis
    unfolding FDC_Handle_def Let_def by (intro keeps_fixed_intros)
qed

text \<open>With a verified response at hand the handler goes straight to signing.\<close>

lemma FDC_Handle_resumes:
  assumes "asks lib verifiers (ps_ib s) rq v" and "AdditionalFixedMessage (GeneralData (ps_ib s)) \<noteq> []"
  shows "FDC_Handle lib hashFor sel sg b verifiers s = FDC_finish lib hashFor sel sg b rq True s"
proof -
  obtain names where "FDC_Handle lib hashFor sel sg b verifiers s =
    bindA (verify_step names v rq) (FDC_finish lib hashFor sel sg b rq) s"
    using assms(1) by (rule FDC_Handle_asks)
  moreover have "verify_step names v rq s = (Ok True, s)"
    using assms(2) by (simp add: verify_step_def bindA_def)
  ultimately show ?thesis by (simp add: bindA_def)
qed

text \<open>
  An FDC2 request that its verifier answers VERIFIED is sent when its hashes can be computed and signed and the
  runtime chooses the send: the message is the instruction with the response, the signature of its
  digest and the signatures for the machines.
\<close>

lemma verified_request_sent:
  assumes "asks lib verifiers (ps_ib s) rq v" and "AdditionalFixedMessage (GeneralData (ps_ib s)) = []"
    and "v rq (ps_env s) = (Ok res, x0)" and "vr_Status res = ''VERIFIED''"
    and "HashMessage lib (bp_chainID b) rq (vr_ResponseBody res) (ev_Cosigners (Event (ps_ib s)))
      (ev_CosignersThreshold (Event (ps_ib s))) (Timestamp (GeneralData (ps_ib s))) = Inr h"
    and "Sign sg [ChainBoundRelayPrefixedHash lib (bp_chainID b) h] x0 = (Ok [sig], x1)"
    and "hashesForSigning hashFor (bp_chainID b) (with_signature (answered (ps_ib s) (vr_ResponseBody res)) sig) = Inr hs"
    and "Sign sg hs x1 = (Ok sigs, x2)" and "bp_out b" and "sel x2 = (True, x3)"
  shows "FDC_Handle lib hashFor sel sg b verifiers s = (Ok (), s\<lparr>ps_env := x3,
    ps_ib := (with_signature (answered (ps_ib s) (vr_ResponseBody res)) sig)\<lparr>Signatures := sigs\<rparr>,
    ps_out := ps_out s @ [(with_signature (answered (ps_ib s) (vr_ResponseBody res)) sig)\<lparr>Signatures := sigs\<rparr>]\<rparr>)"
proof -
  obtain names where run: "FDC_Handle lib hashFor sel sg b verifiers s =
      bindA (verify_step names v rq) (FDC_finish lib hashFor sel sg b rq) s"
    using assms(1) by (rule FDC_Handle_asks)
  let ?t = "s\<lparr>ps_env := x0, ps_ib := answered (ps_ib s) (vr_ResponseBody res)\<rparr>"
  have "FDC_finish lib hashFor sel sg b rq True ?t = emit sel b
      (?t\<lparr>ps_ib := (with_signature (ps_ib ?t) sig)\<lparr>Signatures := sigs\<rparr>, ps_env := x2\<rparr>)"
    using assms by (intro FDC_finish_Ok) (simp_all add: answered_def)
  moreover have "verify_step names v rq s = (Ok True, ?t)"
    using verify_step_verified [of s v rq res x0 names, OF assms(2,3)] assms(4) by (simp add: StatusVerified_def answered_def)
  ultimately show ?thesis
    unfolding run using assms(9,10) by (simp add: bindA_def emit_def)
qed

section \<open>Properties\<close>

text \<open>
  C30. The identifier of a configured verifier is that of a request exactly when the request names the
  verifier's attestation type and source, so a request reaches no other verifier.
\<close>

theorem config_matches_request:
  assumes "verifier_AttTypeAndSourceID toHash v = Inr w"
  shows "AttTypeAndSourceID rq = Inr w \<longleftrightarrow>
    toHash (AttType v) = Inr (rq_AttestationType rq) \<and> toHash (SourceID v) = Inr (rq_SourceId rq)"
  using assms
  by (auto simp: verifier_AttTypeAndSourceID_def JoinAttTypeAndSourceID_Inr AttTypeAndSourceID_def join_halves_eq_iff)

definition sample_toHash :: "string \<Rightarrow> error + hash" where
  "sample_toHash s = (if length s \<le> 32 then Inr (of_nat (length s)) else Inl (New ''too long''))"

definition sample_verifier :: verifier_cfg where
  "sample_verifier = \<lparr>AttType = ''Web2Json'', SourceID = ''testXRP'', Server = \<lparr>KeyName = [], Key = [], URL = ''http://v''\<rparr>,
     QueueName = ''q''\<rparr>"

definition sample_request :: att_request where
  "sample_request = \<lparr>rq_AttestationType = 8, rq_SourceId = 7, rq_RequestBody = [1], rq_Rest = []\<rparr>"

lemma config_matches_request_witness: "AttTypeAndSourceID sample_request = Inr (join_halves 8 7)"
proof -
  have "verifier_AttTypeAndSourceID sample_toHash sample_verifier = Inr (join_halves 8 7)"
    by (simp add: verifier_AttTypeAndSourceID_def JoinAttTypeAndSourceID_def sample_toHash_def sample_verifier_def)
  from config_matches_request [OF this, of sample_request] show ?thesis
    by (simp add: sample_toHash_def sample_verifier_def sample_request_def)
qed

text \<open>
  C23. The verifier's verdict decides: a rejected request ends without an error and without a message, RETRY
  is an error, which puts the instruction up for another attempt; in both cases the instruction is left as it was.
\<close>

theorem verdicts_honoured:
  assumes "asks lib verifiers (ps_ib s) rq v" and "AdditionalFixedMessage (GeneralData (ps_ib s)) = []"
    and "v rq (ps_env s) = (Ok res, x)"
  shows "(vr_Status res = ''REJECTED'' \<longrightarrow> FDC_Handle lib hashFor sel sg b verifiers s = (Ok (), s\<lparr>ps_env := x\<rparr>)) \<and>
    (vr_Status res = ''RETRY'' \<longrightarrow> (\<exists>e. FDC_Handle lib hashFor sel sg b verifiers s = (Fail e, s\<lparr>ps_env := x\<rparr>)))"
  using FDC_Handle_rejected [OF assms, where hashFor = hashFor and sel = sel and sg = sg and b = b]
    FDC_Handle_retry [OF assms, where hashFor = hashFor and sel = sel and sg = sg and b = b]
  unfolding status_defs by metis

definition sample_fdc :: fdc_lib where
  "sample_fdc = \<lparr>DecodeRequest = (\<lambda>b. Inr sample_request),
     HashMessage = (\<lambda>chainID rq m cs th ts. Inr (of_nat (length m) + ucast chainID)),
     ChainBoundRelayPrefixedHash = (\<lambda>chainID h. h + 1), CommonHashToString = (\<lambda>h. ''T''), Hex = (\<lambda>h. ''0x'')\<rparr>"

text \<open>A verifier with a given status; the world counts the queries.\<close>

definition sample_answer :: "string \<Rightarrow> att_request \<Rightarrow> (nat, verifier_response) act" where
  "sample_answer st rq n = (Ok \<lparr>vr_Status = st, vr_ResponseBody = [6], vr_Message = ''m''\<rparr>, n + 1)"

definition sample_verifiers :: "string \<Rightarrow> nat verifiers" where
  "sample_verifiers st = [join_halves 8 7 \<mapsto> sample_answer st]"

definition sample_state :: "nat pst" where
  "sample_state = \<lparr>ps_ib = sample_base, ps_out = [], ps_env = 0\<rparr>"

lemma sample_asks: "asks sample_fdc (sample_verifiers st) ib sample_request (sample_answer st)"
  by (simp add: asks_def sample_fdc_def sample_verifiers_def sample_request_def)

lemma sample_no_message: "AdditionalFixedMessage (GeneralData (ps_ib sample_state)) = []"
  by (simp add: sample_state_def sample_base_def EventToData_def)

lemma verdicts_honoured_witness:
  "FDC_Handle sample_fdc sample_hash (\<lambda>n. (True, n)) sample_signer (SetOut (NewBase 14)) (sample_verifiers ''REJECTED'') sample_state =
     (Ok (), sample_state\<lparr>ps_env := 1\<rparr>)"
  using verdicts_honoured [OF sample_asks sample_no_message, of "''REJECTED''" "\<lparr>vr_Status = ''REJECTED'', vr_ResponseBody = [6], vr_Message = ''m''\<rparr>" 1]
  by (simp add: sample_answer_def sample_state_def)

lemma sample_hashes_any:
  "hashesForSigning sample_hash 14 (with_signature (answered sample_base m) sig) = Inr [15, 16]"
  by (simp add: hashesForSigning_def sample_Tees sample_hash_def sample_machine_def with_signature_def answered_def Let_def)

text \<open>A send that goes through once the world's count has reached \<open>k\<close>.\<close>

definition sample_sel :: "nat \<Rightarrow> nat \<Rightarrow> bool \<times> nat" where
  "sample_sel k n = (k \<le> n, n)"

end
