(* ===== verification/FdcQueue.thy ===== *)
theory FdcQueue
  imports FdcHandler "HOL-Library.Multiset"
begin

text \<open>
  The priority queues of FDC2 instructions, \<open>internal/router/processors/fdc_queue.go\<close>: the weight
  that orders them, and the handler the queue's worker runs, which recovers from panics and names
  the instruction in every error.

  The queue itself (\<open>priority.PriorityQueue\<close>) is a library: it is stood for by the function that
  takes the next item out. Log lines are left out, and so is the name of the queue, which only they
  use.
\<close>

section \<open>Weights\<close>

datatype weight = Weight (Time: time)

definition Self :: "weight \<Rightarrow> weight" where
  "Self w = w"

text \<open>\<open>w.Less(t)\<close> is \<open>t.Before(w.Time)\<close>: what arrived earlier is greater.\<close>

instantiation weight :: linorder
begin

definition less_weight :: "weight \<Rightarrow> weight \<Rightarrow> bool" where
  "w < t \<longleftrightarrow> Time t < Time w"

definition less_eq_weight :: "weight \<Rightarrow> weight \<Rightarrow> bool" where
  "w \<le> t \<longleftrightarrow> Time t \<le> Time w"

instance
  by standard (auto simp: less_weight_def less_eq_weight_def weight.expand)

end

definition Less :: "weight \<Rightarrow> weight \<Rightarrow> bool" where
  "Less w t = (Time t < Time w)"

lemma Less_less: "Less w t \<longleftrightarrow> w < t"
  by (simp add: Less_def less_weight_def)

section \<open>The queue's parameters and handler\<close>

record fdc_queue =
  q_params :: priority_params
  q_name :: string

definition NewQueue :: "priority_params \<Rightarrow> string \<Rightarrow> fdc_queue" where
  "NewQueue params name = \<lparr>q_params = params\<lparr>ErrorChan := True\<rparr>, q_name = name\<rparr>"

definition wrapHandle :: "('x pst, unit) act \<Rightarrow> ('x pst, unit) act" where
  "wrapHandle h =
     bindA (readA ps_ib) (\<lambda>ib.
       let id = ev_InstructionId (Event ib) in
       recoverA (\<lambda>rec. Errorf ''instruction %s: recovered panic: %v'' [AHash id, AStr rec])
         (wrapA ''instruction %s: '' [AHash id] h))"

text \<open>
  The two goroutines of \<open>ProcessOut\<close>. One logs what the queue reports on its channel of errors until the context
  ends; the other has the queue run the wrapped handler on one item after the other, as long as the context's
  error is nil each time round. \<open>dequeue\<close> is \<open>priority.PriorityQueue.Dequeue\<close>, which runs the handler on the next
  item, again after the configured pause while it fails and attempts are left.
\<close>

datatype queue_event = QueueError error | QueueCtxDone

fun ProcessOut_dropped :: "queue_event list \<Rightarrow> error list" where
  "ProcessOut_dropped [] = []"
| "ProcessOut_dropped (QueueError e # evs) = e # ProcessOut_dropped evs"
| "ProcessOut_dropped (QueueCtxDone # evs) = []"

fun ProcessOut :: "(('x pst, unit) act \<Rightarrow> 'q \<Rightarrow> 'q) \<Rightarrow> ('x pst, unit) act \<Rightarrow> errorp list \<Rightarrow> 'q \<Rightarrow> 'q" where
  "ProcessOut dequeue h [] q = q"
| "ProcessOut dequeue h (Some e # ctxErrs) q = q"
| "ProcessOut dequeue h (None # ctxErrs) q = ProcessOut dequeue h ctxErrs (dequeue (wrapHandle h) q)"

definition ProcessOut_goroutines ::
    "(('x pst, unit) act \<Rightarrow> 'q \<Rightarrow> 'q) \<Rightarrow> ('x pst, unit) act \<Rightarrow> queue_event list \<Rightarrow> errorp list \<Rightarrow> 'q \<Rightarrow> error list \<times> 'q" where
  "ProcessOut_goroutines dequeue h evs ctxErrs q = (ProcessOut_dropped evs, ProcessOut dequeue h ctxErrs q)"

section \<open>The handler neither panics nor loses the contract\<close>

lemma wrapHandle_cases:
  "wrapHandle h s = (case h s of
      (Ok u, t) \<Rightarrow> (Ok u, t)
    | (Fail e, t) \<Rightarrow> (Fail (Wrapf ''instruction %s: '' [AHash (ev_InstructionId (Event (ps_ib s)))] e), t)
    | (Panic p, t) \<Rightarrow> (Fail (Errorf ''instruction %s: recovered panic: %v''
        [AHash (ev_InstructionId (Event (ps_ib s))), AStr p]), t))"
  by (simp add: wrapHandle_def recoverA_def wrapA_def mapErr_def Let_def split: prod.splits res.splits)

lemma wrapHandle_no_panic: "fst (wrapHandle h s) \<noteq> Panic p"
  by (simp add: wrapHandle_cases split: prod.splits res.splits)

lemma wpA_wrapHandle:
  assumes "wpA h Q E s" and "\<And>e e' t. E e t \<Longrightarrow> E' e' t"
  shows "wpA (wrapHandle h) Q E' s"
  using assms by (auto simp: wpA_def wrapHandle_cases split: prod.splits res.splits)

text \<open>
  Whatever the queue keeps while its handler does not panic, the worker keeps: the wrapper is such a handler.
\<close>

lemma ProcessOut_keeps:
  assumes "\<And>h q. (\<And>s p. fst (h s) \<noteq> Panic p) \<Longrightarrow> I q \<Longrightarrow> I (dequeue h q)" and "I q"
  shows "I (ProcessOut dequeue h ctxErrs q)"
  using assms(2)
proof (induction ctxErrs arbitrary: q)
  case (Cons c cs)
  then show ?case using assms(1) [OF wrapHandle_no_panic] by (cases c) simp_all
qed simp

text \<open>
  The attempts at a queued instruction: each runs the handler on the instruction the last one
  left, in a world that has moved on in between, until one succeeds or the attempts are used up.
\<close>

fun attempts_run :: "('x pst, unit) act \<Rightarrow> 'x list \<Rightarrow> 'x pst \<Rightarrow> bool \<times> 'x pst" where
  "attempts_run h [] s = (False, s)"
| "attempts_run h (x # xs) s =
     (case h (s\<lparr>ps_env := x\<rparr>) of
        (Ok u, t) \<Rightarrow> (True, t)
      | (Fail e, t) \<Rightarrow> attempts_run h xs t
      | (Panic p, t) \<Rightarrow> attempts_run h xs t)"

text \<open>What the queue's worker relies on: a processor's contract, and no panic.\<close>

locale queue_handler =
  fixes Handle :: "('x pst, unit) act"
    and good :: "base \<Rightarrow> bool"
  assumes handle_emits: "wpA Handle (\<lambda>_ t. quiet s t \<or> emitted good s t) (\<lambda>_ t. quiet s t) s"
    and no_panic: "fst (Handle s) \<noteq> Panic p"
begin

lemma attempts_emit_once:
  "attempts_run Handle xs s = (done, t) \<Longrightarrow> quiet s t \<or> done \<and> emitted good s t"
proof (induction xs arbitrary: s)
  case (Cons x xs)
  obtain r u where run: "Handle (s\<lparr>ps_env := x\<rparr>) = (r, u)" by (metis surj_pair)
  show ?case
  proof (cases r)
    case (Ok v)
    with run Cons.prems wpA_OkD [OF handle_emits run [unfolded Ok]] show ?thesis by auto
  next
    case (Fail e)
    with wpA_FailD [OF handle_emits run [unfolded Fail]] have "quiet s u" by simp
    with run Fail Cons show ?thesis by (auto dest: quiet_trans quiet_emitted)
  next
    case (Panic p)
    with run no_panic [of "s\<lparr>ps_env := x\<rparr>" p] show ?thesis by simp
  qed
qed simp

end

sublocale processor < queued: queue_handler "wrapHandle Process" good
proof
  show "wpA (wrapHandle Process) (\<lambda>_ t. quiet s t \<or> emitted good s t) (\<lambda>_ t. quiet s t) s" for s
    by (rule wpA_wrapHandle [OF process_emits])
  show "fst (wrapHandle Process s) \<noteq> Panic p" for s p
    by (rule wrapHandle_no_panic)
qed

section \<open>The order of dequeuing\<close>

text \<open>
  \<open>pop\<close> takes an item out of a queue, \<open>items\<close> is what a queue holds. A priority queue hands out
  an item than which none is greater.
\<close>

definition max_first :: "('q \<Rightarrow> (weight \<times> 'a) multiset) \<Rightarrow> ('q \<Rightarrow> ((weight \<times> 'a) \<times> 'q) option) \<Rightarrow> bool" where
  "max_first items pop \<longleftrightarrow>
     (\<forall>q. case pop q of
        None \<Rightarrow> items q = {#}
      | Some (x, q') \<Rightarrow> items q = add_mset x (items q') \<and> (\<forall>y \<in># items q'. \<not> Less (fst x) (fst y)))"

fun drain :: "('q \<Rightarrow> ((weight \<times> 'a) \<times> 'q) option) \<Rightarrow> nat \<Rightarrow> 'q \<Rightarrow> (weight \<times> 'a) list" where
  "drain pop 0 q = []"
| "drain pop (Suc n) q = (case pop q of None \<Rightarrow> [] | Some (x, q') \<Rightarrow> x # drain pop n q')"

text \<open>Items as they were added, the weight being the clock's reading.\<close>

definition arrivals :: "(time \<times> 'a) list \<Rightarrow> (weight \<times> 'a) list" where
  "arrivals = map (\<lambda>(t, a). (Weight t, a))"

lemma drain_sorted:
  assumes "max_first items pop" and "size (items q) \<le> n"
  shows "mset (drain pop n q) = items q \<and> sorted_wrt (\<lambda>x y. \<not> Less (fst x) (fst y)) (drain pop n q)"
  using assms(2)
proof (induction n arbitrary: q)
  case 0
  then show ?case by simp
next
  case (Suc n)
  from assms(1) have pop: "case pop q of None \<Rightarrow> items q = {#}
      | Some (x, q') \<Rightarrow> items q = add_mset x (items q') \<and> (\<forall>y \<in># items q'. \<not> Less (fst x) (fst y))"
    by (simp add: max_first_def)
  show ?case
  proof (cases "pop q")
    case None
    with pop show ?thesis by simp
  next
    case (Some xq)
    obtain x q' where xq: "xq = (x, q')" by fastforce
    with pop Some have q: "items q = add_mset x (items q')" and top: "\<forall>y \<in># items q'. \<not> Less (fst x) (fst y)"
      by simp_all
    with Suc.prems have IH: "mset (drain pop n q') = items q'"
        "sorted_wrt (\<lambda>x y. \<not> Less (fst x) (fst y)) (drain pop n q')"
      using Suc.IH [of q'] by simp_all
    from IH(1) top have "\<forall>y \<in> set (drain pop n q'). \<not> Less (fst x) (fst y)"
      by (metis set_mset_mset)
    with IH q Some xq show ?thesis by simp
  qed
qed

text \<open>Lists with the same elements that are both ordered by distinct keys are equal.\<close>

lemma sorted_key_unique:
  fixes f :: "'b \<Rightarrow> int"
  assumes "mset xs = mset ys" and "sorted (map f xs)" and "sorted_wrt (<) (map f ys)"
  shows "xs = ys"
proof -
  have ys: "sorted (map f ys)" "distinct (map f ys)"
    using assms(3) by (auto intro: strict_sorted_imp_sorted simp: strict_sorted_iff)
  have "mset (map f xs) = mset (map f ys)" using assms(1) by simp
  then have map: "map f xs = map f ys"
    using assms(2) ys(1) by (metis properties_for_sort)
  have "inj_on f (set ys)" using ys(2) by (simp add: distinct_map)
  moreover have "set xs = set ys" using assms(1) by (metis set_mset_mset)
  ultimately show ?thesis using map by (metis inj_on_map_eq_map Un_absorb)
qed

section \<open>A verified response across attempts\<close>

lemma keeps_fixed_outcome:
  assumes "keeps_fixed m h" and "AdditionalFixedMessage (GeneralData (ps_ib s)) = m"
  shows "AdditionalFixedMessage (GeneralData (ps_ib (snd (h s)))) = m"
proof -
  obtain r t where "h s = (r, t)" by fastforce
  with assms show ?thesis by (cases r) (auto simp: keeps_fixed_def wpA_def)
qed

lemma wrapHandle_snd: "snd (wrapHandle h s) = snd (h s)"
  by (simp add: wrapHandle_cases split: prod.split res.split)

lemma attempts_no_query:
  assumes "m \<noteq> []" and "dom verifiers = dom verifiers'" and "AdditionalFixedMessage (GeneralData (ps_ib s)) = m"
  shows "attempts_run (wrapHandle (FDC_Handle lib hashFor sel sg b verifiers)) xs s =
    attempts_run (wrapHandle (FDC_Handle lib hashFor sel sg b verifiers')) xs s"
  using assms(3)
proof (induction xs arbitrary: s)
  case (Cons x xs)
  let ?s = "s\<lparr>ps_env := x\<rparr>"
  let ?h = "\<lambda>vs. wrapHandle (FDC_Handle lib hashFor sel sg b vs)"
  have "FDC_Handle lib hashFor sel sg b verifiers ?s = FDC_Handle lib hashFor sel sg b verifiers' ?s"
    using Cons.prems assms(1,2) by (intro FDC_Handle_no_query) simp_all
  then have same: "?h verifiers ?s = ?h verifiers' ?s" by (simp only: wrapHandle_cases)
  obtain r t where run: "?h verifiers ?s = (r, t)" by (metis surj_pair)
  have "t = snd (FDC_Handle lib hashFor sel sg b verifiers ?s)"
    using run wrapHandle_snd by (metis snd_conv)
  then have "AdditionalFixedMessage (GeneralData (ps_ib t)) = m"
    using keeps_fixed_outcome [OF keeps_fixed_Handle [OF assms(1)], of ?s] Cons.prems by simp
  from Cons.IH [OF this] show ?case
    using run same by (simp split: res.split)
qed simp

section \<open>Properties\<close>

text \<open>
  A panic of the handler never leaves the queue's wrapper: it becomes an error that, like every error of the
  handler, names the instruction, and the state is the one the handler left.
\<close>

lemma handler_errors_named:
  "(\<forall>p. fst (wrapHandle h s) \<noteq> Panic p) \<and> snd (wrapHandle h s) = snd (h s) \<and>
   fst (wrapHandle h s) = (case fst (h s) of
      Ok u \<Rightarrow> Ok u
    | Fail e \<Rightarrow> Fail (Wrapf ''instruction %s: '' [AHash (ev_InstructionId (Event (ps_ib s)))] e)
    | Panic p \<Rightarrow> Fail (Errorf ''instruction %s: recovered panic: %v''
        [AHash (ev_InstructionId (Event (ps_ib s))), AStr p]))"
  by (simp add: wrapHandle_cases split: prod.split res.split)

text \<open>
  C22. Once an instruction holds a verified response, its remaining attempts ask no verifier: their outcome, the
  messages sent included, is the same whatever the verifiers would answer.
\<close>

theorem verified_response_reused:
  assumes "AdditionalFixedMessage (GeneralData (ps_ib s)) \<noteq> []" and "dom verifiers = dom verifiers'"
  shows "attempts_run (wrapHandle (FDC_Handle lib hashFor sel sg b verifiers)) xs s =
    attempts_run (wrapHandle (FDC_Handle lib hashFor sel sg b verifiers')) xs s"
  using assms(1,2) refl by (rule attempts_no_query)

lemma verified_response_reused_witness:
  "attempts_run (wrapHandle (FDC_Handle sample_fdc sample_hash (\<lambda>n. (n > 0, n)) sample_signer (SetOut (NewBase 14)) (sample_verifiers ''REJECTED''))) [0, 1]
     (sample_state\<lparr>ps_ib := sample_base\<lparr>GeneralData := (GeneralData sample_base)\<lparr>AdditionalFixedMessage := [6]\<rparr>\<rparr>\<rparr>) =
   attempts_run (wrapHandle (FDC_Handle sample_fdc sample_hash (\<lambda>n. (n > 0, n)) sample_signer (SetOut (NewBase 14)) (sample_verifiers ''VERIFIED''))) [0, 1]
     (sample_state\<lparr>ps_ib := sample_base\<lparr>GeneralData := (GeneralData sample_base)\<lparr>AdditionalFixedMessage := [6]\<rparr>\<rparr>\<rparr>)"
  by (rule verified_response_reused) (simp_all add: sample_verifiers_def)

text \<open>
  C29. A queue that hands out an item than which none is greater serves instructions in the order in which they
  arrived: what drains out of it is what was added, and when the clock moved between the additions, exactly in
  that order.
\<close>

theorem served_in_arrival_order:
  assumes "max_first items pop" and "items q = mset (arrivals xs)" and "sorted_wrt (<) (map fst xs)"
  shows "drain pop (length xs) q = arrivals xs"
proof (rule sorted_key_unique [where f = "\<lambda>x. Time (fst x)"])
  have "size (items q) \<le> length xs" by (simp add: assms(2) arrivals_def)
  note drained = drain_sorted [OF assms(1) this]
  then show "mset (drain pop (length xs) q) = mset (arrivals xs)" by (simp add: assms(2))
  show "sorted (map (\<lambda>x. Time (fst x)) (drain pop (length xs) q))"
    unfolding sorted_map by (rule sorted_wrt_mono_rel [OF _ drained [THEN conjunct2]]) (simp add: Less_def)
  have "map (\<lambda>x. Time (fst x)) (arrivals xs) = map fst xs"
    by (simp add: arrivals_def case_prod_unfold)
  with assms(3) show "sorted_wrt (<) (map (\<lambda>x. Time (fst x)) (arrivals xs))" by simp
qed

text \<open>A queue as a list without order; the item taken out is one of the greatest.\<close>

fun take_max :: "(weight \<times> 'a) list \<Rightarrow> ((weight \<times> 'a) \<times> (weight \<times> 'a) list) option" where
  "take_max [] = None"
| "take_max (x # xs) = (case take_max xs of
     None \<Rightarrow> Some (x, xs)
   | Some (y, ys) \<Rightarrow> if Less (fst x) (fst y) then Some (y, x # ys) else Some (x, xs))"

lemma take_max_None: "take_max xs = None \<longleftrightarrow> xs = []"
  by (cases xs) (simp_all split: option.split)

lemma take_max_Some:
  "take_max xs = Some (y, ys) \<Longrightarrow> mset xs = add_mset y (mset ys) \<and> (\<forall>z \<in> set ys. \<not> Less (fst y) (fst z))"
proof (induction xs arbitrary: y ys)
  case (Cons x xs)
  show ?case
  proof (cases "take_max xs")
    case None
    with Cons.prems show ?thesis by (simp add: take_max_None)
  next
    case (Some p)
    obtain w ws where p: "p = (w, ws)" by fastforce
    with Cons.IH Some have IH: "mset xs = add_mset w (mset ws)" "\<forall>z \<in> set ws. \<not> Less (fst w) (fst z)"
      by simp_all
    from IH(1) have "set xs = insert w (set ws)" by (metis set_mset_add_mset_insert set_mset_mset)
    with IH Some p Cons.prems show ?thesis
      by (auto simp: Less_def split: if_splits intro: order_trans)
  qed
qed simp

lemma take_max_first: "max_first mset take_max"
  unfolding max_first_def
proof
  fix q :: "(weight \<times> 'a) list"
  show "case take_max q of None \<Rightarrow> mset q = {#}
      | Some (x, q') \<Rightarrow> mset q = add_mset x (mset q') \<and> (\<forall>y \<in># mset q'. \<not> Less (fst x) (fst y))"
    using take_max_Some [of q] by (auto simp: take_max_None split: option.split)
qed

lemma served_in_arrival_order_witness:
  "drain take_max (length [(3 :: time, ''a''), (5, ''b''), (9, ''c'')]) [(Weight 9, ''c''), (Weight 3, ''a''), (Weight 5, ''b'')] =
     arrivals [(3, ''a''), (5, ''b''), (9, ''c'')]"
  by (rule served_in_arrival_order [OF take_max_first]) (simp_all add: arrivals_def)

end
