(* ===== verification/Fdc.thy ===== *)
theory Fdc
  imports FdcQueue
begin

text \<open>
  The FDC processor, \<open>internal/router/processors/fdc.go\<close>, with the constructor of its handler from
  \<open>fdc_handler.go\<close>: from the configuration it builds a verifier and a queue for every pair of an
  attestation type and a source, and it puts each FDC2 instruction on the queue of its pair.

  The tables of the handler map an identifier to the credentials of its server; a verifier is the
  client of a server with such credentials. The library's \<open>Add\<close> and the clock act on the outside
  world. Log lines are left out.
\<close>

section \<open>Building the tables\<close>

fun NewFDCHandler_range ::
    "(string \<Rightarrow> error + hash) \<Rightarrow> (string \<Rightarrow> error + string \<times> string) \<Rightarrow> (string \<times> verifier_cfg) list
      \<Rightarrow> (att_id \<rightharpoonup> string) \<Rightarrow> (att_id \<rightharpoonup> credentials) \<Rightarrow> error + (att_id \<rightharpoonup> credentials)" where
  "NewFDCHandler_range toHash urlParse [] seen verifiers = Inr verifiers"
| "NewFDCHandler_range toHash urlParse ((name, v) # vs) seen verifiers =
     (if AttType v = '''' \<or> SourceID v = '''' then
        Inl (Errorf ''verifier %q: empty type or source (type %q, source %q)''
          [AStr name, AStr (AttType v), AStr (SourceID v)])
      else case verifier_AttTypeAndSourceID toHash v of
        Inl e \<Rightarrow> Inl (Wrapf ''invalid verifier (type %q, source %q, queue %q): ''
          [AStr (AttType v), AStr (SourceID v), AStr (QueueName v)] e)
      | Inr identifier \<Rightarrow>
          (case seen identifier of
             Some prev \<Rightarrow> Inl (Errorf ''verifiers %q and %q both serve type %q, source %q''
               [AStr prev, AStr name, AStr (AttType v), AStr (SourceID v)])
           | None \<Rightarrow>
               (case Check urlParse (Server v) of
                  Some e \<Rightarrow> Inl (Wrapf ''invalid verifier server (type %q, source %q, queue %q): ''
                    [AStr (AttType v), AStr (SourceID v), AStr (QueueName v)] e)
                | None \<Rightarrow> NewFDCHandler_range toHash urlParse vs
                    (seen(identifier \<mapsto> name)) (verifiers(identifier \<mapsto> Server v)))))"

definition NewFDCHandler ::
    "(string \<Rightarrow> error + hash) \<Rightarrow> (string \<Rightarrow> error + string \<times> string) \<Rightarrow> (string \<times> verifier_cfg) list
      \<Rightarrow> error + (att_id \<rightharpoonup> credentials)" where
  "NewFDCHandler toHash urlParse verifiers = NewFDCHandler_range toHash urlParse verifiers Map.empty Map.empty"

record fdc_proc =
  idToQueueName :: "att_id \<rightharpoonup> string"
  f_queues :: "string \<rightharpoonup> fdc_queue"
  f_verifiers :: "att_id \<rightharpoonup> credentials"

fun NewFDC_queues :: "(string \<times> priority_params) list \<Rightarrow> (string \<rightharpoonup> fdc_queue) \<Rightarrow> (string \<rightharpoonup> fdc_queue)" where
  "NewFDC_queues [] queues = queues"
| "NewFDC_queues ((name, params) # qs) queues = NewFDC_queues qs (queues(name \<mapsto> NewQueue params name))"

fun NewFDC_ids ::
    "(string \<Rightarrow> error + hash) \<Rightarrow> (string \<rightharpoonup> fdc_queue) \<Rightarrow> (string \<times> verifier_cfg) list \<Rightarrow> (att_id \<rightharpoonup> string)
      \<Rightarrow> error + (att_id \<rightharpoonup> string)" where
  "NewFDC_ids toHash queues [] ids = Inr ids"
| "NewFDC_ids toHash queues ((name, v) # vs) ids =
     (case verifier_AttTypeAndSourceID toHash v of
        Inl e \<Rightarrow> Inl (Wrapf ''invalid verifier (type %q, source %q, queue %q): ''
          [AStr (AttType v), AStr (SourceID v), AStr (QueueName v)] e)
      | Inr identifier \<Rightarrow>
          (let ids = ids(identifier \<mapsto> QueueName v) in
           if queues (QueueName v) = None then
             Inl (Errorf ''undefined queue %s for %s, %s'' [AStr (QueueName v), AStr (AttType v), AStr (SourceID v)])
           else NewFDC_ids toHash queues vs ids))"

definition NewFDC ::
    "(string \<Rightarrow> error + hash) \<Rightarrow> (string \<Rightarrow> error + string \<times> string) \<Rightarrow> fdc_cfg option \<Rightarrow> error + fdc_proc" where
  "NewFDC toHash urlParse cfg =
     (case cfg of
        None \<Rightarrow>
          (case NewFDCHandler toHash urlParse [] of
             Inl e \<Rightarrow> Inl (Wrapf ''creating FDC handler: '' [] e)
           | Inr handler \<Rightarrow> Inr \<lparr>idToQueueName = Map.empty, f_queues = Map.empty, f_verifiers = handler\<rparr>)
      | Some cfg \<Rightarrow>
          (case NewFDCHandler toHash urlParse (Verifiers cfg) of
             Inl e \<Rightarrow> Inl (Wrapf ''creating FDC handler: '' [] e)
           | Inr handler \<Rightarrow>
               (let queues = NewFDC_queues (Queues cfg) Map.empty in
                case NewFDC_ids toHash queues (Verifiers cfg) Map.empty of
                  Inl e \<Rightarrow> Inl e
                | Inr ids \<Rightarrow> Inr \<lparr>idToQueueName = ids, f_queues = queues, f_verifiers = handler\<rparr>)))"

text \<open>The verifiers of the handler: \<open>client\<close> is the query of a server with given credentials.\<close>

definition FDC_verifiers ::
    "(credentials \<Rightarrow> att_request \<Rightarrow> ('x, verifier_response) act) \<Rightarrow> fdc_proc \<Rightarrow> 'x verifiers" where
  "FDC_verifiers client f = (\<lambda>id. map_option client (f_verifiers f id))"

section \<open>Queueing an instruction\<close>

text \<open>\<open>now\<close> reads the clock; \<open>add\<close> is \<open>Add\<close> of the queue with a given name.\<close>

definition FDC_Process ::
    "fdc_lib \<Rightarrow> ('x, time) act \<Rightarrow> (fdc_queue \<Rightarrow> base \<Rightarrow> weight \<Rightarrow> ('x, unit) act) \<Rightarrow> fdc_proc
      \<Rightarrow> ('x pst, unit) act" where
  "FDC_Process lib now add f =
     bindA (readA ps_ib) (\<lambda>ib.
     bindA (wrapA ''extracting attestation type and source ID: '' [] (liftA (AttTypeAndSourceIDBase lib ib))) (\<lambda>id.
     case idToQueueName f id of
       None \<Rightarrow> (case atsStrings lib id of (attType, sourceID) \<Rightarrow>
         failA (Errorf ''no queue for: %s, %s'' [AStr attType, AStr sourceID]))
     | Some queueName \<Rightarrow>
         (case f_queues f queueName of
            None \<Rightarrow> (case atsStrings lib id of (attType, sourceID) \<Rightarrow>
              failA (Errorf ''no queue %q for: %s, %s'' [AStr queueName, AStr attType, AStr sourceID]))
          | Some q \<Rightarrow>
              bindA (on_env now) (\<lambda>t.
                wrapA ''adding to queue %v: '' [AStr queueName] (on_env (add q ib (Weight t)))))))"

section \<open>What is accepted\<close>

text \<open>
  A verifier entry that passes on its own. The tables are those of the entries' identifiers, so
  the order in which the maps are ranged over does not matter.
\<close>

definition entry_id :: "(string \<Rightarrow> error + hash) \<Rightarrow> verifier_cfg \<Rightarrow> att_id" where
  "entry_id toHash v = (case verifier_AttTypeAndSourceID toHash v of Inl e \<Rightarrow> 0 | Inr w \<Rightarrow> w)"

definition entry_ok ::
    "(string \<Rightarrow> error + hash) \<Rightarrow> (string \<Rightarrow> error + string \<times> string) \<Rightarrow> verifier_cfg \<Rightarrow> bool" where
  "entry_ok toHash urlParse v \<longleftrightarrow>
     AttType v \<noteq> '''' \<and> SourceID v \<noteq> '''' \<and>
     verifier_AttTypeAndSourceID toHash v = Inr (entry_id toHash v) \<and> creds_ok urlParse (Server v)"

definition entry_table ::
    "(string \<Rightarrow> error + hash) \<Rightarrow> (verifier_cfg \<Rightarrow> 'v) \<Rightarrow> (string \<times> verifier_cfg) list \<Rightarrow> (att_id \<rightharpoonup> 'v)" where
  "entry_table toHash f vs = map_of (map (\<lambda>nv. (entry_id toHash (snd nv), f (snd nv))) vs)"

definition entry_ids :: "(string \<Rightarrow> error + hash) \<Rightarrow> (string \<times> verifier_cfg) list \<Rightarrow> att_id list" where
  "entry_ids toHash vs = map (\<lambda>nv. entry_id toHash (snd nv)) vs"

lemma dom_entry_table: "dom (entry_table toHash f vs) = set (entry_ids toHash vs)"
  by (auto simp: entry_table_def entry_ids_def dom_map_of_conv_image_fst image_image)

lemma entry_table_Cons:
  "entry_table toHash f (nv # vs) = (entry_table toHash f vs)(entry_id toHash (snd nv) \<mapsto> f (snd nv))"
  by (simp add: entry_table_def)

lemma entry_table_swap:
  assumes "entry_id toHash (snd nv) \<notin> set (entry_ids toHash vs)"
  shows "m ++ entry_table toHash f (nv # vs) = m(entry_id toHash (snd nv) \<mapsto> f (snd nv)) ++ entry_table toHash f vs"
proof -
  from assms have "entry_table toHash f vs (entry_id toHash (snd nv)) = None"
    by (simp flip: dom_entry_table [of toHash f] add: domIff)
  then show ?thesis
    by (intro ext) (simp add: entry_table_Cons map_add_def split: option.splits)
qed

lemma entry_table_Some:
  assumes "entry_table toHash f vs a = Some x"
  obtains n v where "(n, v) \<in> set vs" and "entry_id toHash v = a" and "x = f v"
  using assms by (auto simp: entry_table_def dest!: map_of_SomeD)

lemma entry_table_in:
  assumes "(n, v) \<in> set vs" and "distinct (entry_ids toHash vs)"
  shows "entry_table toHash f vs (entry_id toHash v) = Some (f v)"
proof -
  have "map fst (map (\<lambda>nv. (entry_id toHash (snd nv), f (snd nv))) vs) = entry_ids toHash vs"
    by (simp add: entry_ids_def)
  with assms show ?thesis
    unfolding entry_table_def by (intro map_of_is_SomeI) (auto intro: rev_image_eqI)
qed

lemma NewFDCHandler_range_Inr:
  "NewFDCHandler_range toHash urlParse vs seen verifiers = Inr m \<longleftrightarrow>
     (\<forall>nv \<in> set vs. entry_ok toHash urlParse (snd nv)) \<and> distinct (entry_ids toHash vs) \<and>
     set (entry_ids toHash vs) \<inter> dom seen = {} \<and> m = verifiers ++ entry_table toHash Server vs"
proof (induction toHash urlParse vs seen verifiers rule: NewFDCHandler_range.induct)
  case (1 toHash urlParse seen verifiers)
  then show ?case by (auto simp: entry_ids_def entry_table_def)
next
  case (2 toHash urlParse name v vs seen verifiers)
  let ?id = "entry_id toHash v"
  show ?case
  proof (cases "entry_ok toHash urlParse v \<and> seen ?id = None")
    case True
    then have ok: "AttType v \<noteq> ''''" "SourceID v \<noteq> ''''" "verifier_AttTypeAndSourceID toHash v = Inr ?id"
      "Check urlParse (Server v) = None" "seen ?id = None"
      by (simp_all add: entry_ok_def Check_None)
    have "NewFDCHandler_range toHash urlParse ((name, v) # vs) seen verifiers =
        NewFDCHandler_range toHash urlParse vs (seen(?id \<mapsto> name)) (verifiers(?id \<mapsto> Server v))"
      using ok by simp
    also have "\<dots> = Inr m \<longleftrightarrow>
        (\<forall>nv \<in> set vs. entry_ok toHash urlParse (snd nv)) \<and> distinct (entry_ids toHash vs) \<and>
        set (entry_ids toHash vs) \<inter> dom (seen(?id \<mapsto> name)) = {} \<and>
        m = verifiers(?id \<mapsto> Server v) ++ entry_table toHash Server vs"
      using ok by (intro "2.IH") auto
    finally have step: "NewFDCHandler_range toHash urlParse ((name, v) # vs) seen verifiers = Inr m \<longleftrightarrow> \<dots>" .
    show ?thesis
    proof (cases "?id \<in> set (entry_ids toHash vs)")
      case True
      then show ?thesis unfolding step by (auto simp: entry_ids_def)
    next
      case new: False
      with entry_table_swap [of toHash "(name, v)" vs verifiers Server] ok True show ?thesis
        unfolding step by (auto simp: entry_ids_def domIff)
    qed
  next
    case False
    have "NewFDCHandler_range toHash urlParse ((name, v) # vs) seen verifiers \<noteq> Inr m"
      using False by (auto simp: entry_ok_def entry_id_def Check_None split: sum.splits option.splits)
    moreover have "\<not> (entry_ok toHash urlParse v \<and> set (entry_ids toHash ((name, v) # vs)) \<inter> dom seen = {})"
      using False by (auto simp: entry_ids_def)
    ultimately show ?thesis by auto
  qed
qed

lemma NewFDC_queues_eq:
  "NewFDC_queues qs m = m ++ map_of (rev (map (\<lambda>nq. (fst nq, NewQueue (snd nq) (fst nq))) qs))"
  by (induction qs m rule: NewFDC_queues.induct) (simp_all add: map_add_upd del: fun_upd_apply)

lemma dom_NewFDC_queues: "dom (NewFDC_queues qs Map.empty) = fst ` set qs"
  by (auto simp: NewFDC_queues_eq dom_map_of_conv_image_fst image_image)

lemma NewFDC_ids_Inr:
  assumes "\<forall>nv \<in> set vs. entry_ok toHash urlParse (snd nv)" and "distinct (entry_ids toHash vs)"
  shows "NewFDC_ids toHash queues vs ids = Inr m \<longleftrightarrow>
     (\<forall>nv \<in> set vs. QueueName (snd nv) \<in> dom queues) \<and> m = ids ++ entry_table toHash QueueName vs"
  using assms
proof (induction toHash queues vs ids rule: NewFDC_ids.induct)
  case (1 toHash queues ids)
  then show ?case by (auto simp: entry_table_def)
next
  case (2 toHash queues name v vs ids)
  let ?id = "entry_id toHash v"
  from "2.prems" have ok: "verifier_AttTypeAndSourceID toHash v = Inr ?id"
    and new: "?id \<notin> set (entry_ids toHash vs)" and rest: "distinct (entry_ids toHash vs)"
    by (simp_all add: entry_ok_def entry_ids_def)
  show ?case
  proof (cases "queues (QueueName v) = None")
    case True
    with ok show ?thesis by (simp add: Let_def domIff)
  next
    case False
    then obtain q where "queues (QueueName v) = Some q" by auto
    with ok have "NewFDC_ids toHash queues ((name, v) # vs) ids = NewFDC_ids toHash queues vs (ids(?id \<mapsto> QueueName v))"
      by (simp add: Let_def)
    with "2.IH" [OF ok refl False] "2.prems"(1) rest False new show ?thesis
      using entry_table_swap [of toHash "(name, v)" vs ids QueueName]
      by (auto simp del: NewFDC_ids.simps fun_upd_apply)
  qed
qed

text \<open>The accepted configurations and the tables built from them.\<close>

definition fdc_cfg_ok :: "(string \<Rightarrow> error + hash) \<Rightarrow> (string \<Rightarrow> error + string \<times> string) \<Rightarrow> fdc_cfg \<Rightarrow> bool" where
  "fdc_cfg_ok toHash urlParse cfg \<longleftrightarrow>
     (\<forall>nv \<in> set (Verifiers cfg). entry_ok toHash urlParse (snd nv) \<and> QueueName (snd nv) \<in> fst ` set (Queues cfg)) \<and>
     distinct (entry_ids toHash (Verifiers cfg))"

definition fdc_tables :: "(string \<Rightarrow> error + hash) \<Rightarrow> fdc_cfg \<Rightarrow> fdc_proc" where
  "fdc_tables toHash cfg =
     \<lparr>idToQueueName = entry_table toHash QueueName (Verifiers cfg), f_queues = NewFDC_queues (Queues cfg) Map.empty,
      f_verifiers = entry_table toHash Server (Verifiers cfg)\<rparr>"

lemma NewFDC_Some:
  "NewFDC toHash urlParse (Some cfg) = Inr f \<longleftrightarrow> fdc_cfg_ok toHash urlParse cfg \<and> f = fdc_tables toHash cfg"
proof (cases "NewFDCHandler toHash urlParse (Verifiers cfg)")
  case (Inl e)
  then have "\<not> fdc_cfg_ok toHash urlParse cfg"
    using NewFDCHandler_range_Inr [of toHash urlParse "Verifiers cfg" Map.empty Map.empty]
    by (auto simp: NewFDCHandler_def fdc_cfg_ok_def)
  with Inl show ?thesis by (simp add: NewFDC_def)
next
  case (Inr m)
  then have ok: "\<forall>nv \<in> set (Verifiers cfg). entry_ok toHash urlParse (snd nv)" "distinct (entry_ids toHash (Verifiers cfg))"
    and m: "m = entry_table toHash Server (Verifiers cfg)"
    by (simp_all add: NewFDCHandler_def NewFDCHandler_range_Inr)
  let ?queues = "NewFDC_queues (Queues cfg) Map.empty"
  show ?thesis
  proof (cases "NewFDC_ids toHash ?queues (Verifiers cfg) Map.empty")
    case (Inl e)
    then have "\<not> fdc_cfg_ok toHash urlParse cfg"
      using NewFDC_ids_Inr [OF ok, of ?queues Map.empty] by (auto simp: fdc_cfg_ok_def dom_NewFDC_queues)
    with Inl Inr show ?thesis by (simp add: NewFDC_def Let_def)
  next
    case (Inr ids)
    with NewFDC_ids_Inr [OF ok, of ?queues Map.empty ids] have
      "\<forall>nv \<in> set (Verifiers cfg). QueueName (snd nv) \<in> dom ?queues" "ids = entry_table toHash QueueName (Verifiers cfg)"
      by simp_all
    with Inr \<open>NewFDCHandler toHash urlParse (Verifiers cfg) = Inr m\<close> ok m show ?thesis
      by (auto simp: NewFDC_def Let_def fdc_cfg_ok_def fdc_tables_def dom_NewFDC_queues)
  qed
qed

lemma NewFDC_None: "NewFDC toHash urlParse None = Inr \<lparr>idToQueueName = Map.empty, f_queues = Map.empty, f_verifiers = Map.empty\<rparr>"
  by (simp add: NewFDC_def NewFDCHandler_def)

section \<open>The order of the entries\<close>

lemma entry_table_perm:
  assumes "set vs = set ws" and "distinct (entry_ids toHash vs)" and "distinct (entry_ids toHash ws)"
  shows "entry_table toHash f vs = entry_table toHash f ws"
proof
  fix a
  show "entry_table toHash f vs a = entry_table toHash f ws a"
  proof (cases "entry_table toHash f vs a")
    case None
    then have "a \<notin> dom (entry_table toHash f vs)" by (simp add: domIff)
    then have "a \<notin> dom (entry_table toHash f ws)"
      using assms(1) by (simp add: dom_entry_table entry_ids_def)
    with None show ?thesis by (simp add: domIff)
  next
    case (Some x)
    then obtain n v where "(n, v) \<in> set vs" "entry_id toHash v = a" "x = f v"
      by (rule entry_table_Some)
    with entry_table_in [of n v ws toHash f] assms Some show ?thesis by simp
  qed
qed

lemma NewFDC_queues_map_of:
  assumes "distinct (map fst qs)"
  shows "NewFDC_queues qs Map.empty = map_of (map (\<lambda>nq. (fst nq, NewQueue (snd nq) (fst nq))) qs)"
proof -
  let ?qs = "map (\<lambda>nq. (fst nq, NewQueue (snd nq) (fst nq))) qs"
  have "map fst ?qs = map fst qs" by simp
  with assms have "distinct (map fst ?qs)" "distinct (map fst (rev ?qs))"
    by (simp_all only: rev_map [symmetric] distinct_rev)
  then have "map_of (rev ?qs) = map_of ?qs" by (simp only: map_of_inject_set set_rev)
  then show ?thesis by (simp add: NewFDC_queues_eq)
qed

section \<open>Queueing\<close>

text \<open>Queueing sends nothing and leaves the instruction as it is.\<close>

lemma FDC_Process_quiet:
  "wpA (FDC_Process lib now add f) (\<lambda>_ t. quiet s t) (\<lambda>_ t. quiet s t) s"
  unfolding FDC_Process_def wp
  by (auto simp: wp split: sum.split option.split prod.split intro!: wpA_any)

interpretation fdc: processor "FDC_Process lib now add f" good
  for lib :: fdc_lib and now :: "('x, time) act" and add f good
  by unfold_locales (rule wpA_mono [OF FDC_Process_quiet]; simp)

text \<open>
  The instruction is put on its queue, with the clock's reading as its weight, when its request
  decodes to a pair that is served.
\<close>

lemma FDC_Process_adds:
  assumes "AttTypeAndSourceIDBase lib (ps_ib s) = Inr a" and "idToQueueName f a = Some qn" and "f_queues f qn = Some q"
    and "now (ps_env s) = (Ok t, x)" and "add q (ps_ib s) (Weight t) x = (Ok (), x')"
  shows "FDC_Process lib now add f s = (Ok (), s\<lparr>ps_env := x'\<rparr>)"
  using assms by (simp add: FDC_Process_def bindA_def on_env_apply wrapA_def mapErr_def)

lemma FDC_Process_unserved:
  assumes "AttTypeAndSourceIDBase lib (ps_ib s) = Inr a" and "idToQueueName f a = None"
  obtains t u where "FDC_Process lib now add f s = (Fail (Errorf ''no queue for: %s, %s'' [AStr t, AStr u]), s)"
  using assms by (cases "atsStrings lib a") (simp add: FDC_Process_def)

text \<open>
  The queue that \<open>Process\<close> puts an instruction on, and how often its worker attempts it: a queue without
  attempts to spare still makes one.
\<close>

definition queue_of :: "fdc_lib \<Rightarrow> fdc_proc \<Rightarrow> base \<Rightarrow> fdc_queue option" where
  "queue_of lib f b =
     (case AttTypeAndSourceIDBase lib b of
        Inl e \<Rightarrow> None
      | Inr a \<Rightarrow> (case idToQueueName f a of None \<Rightarrow> None | Some queueName \<Rightarrow> f_queues f queueName))"

definition max_attempts :: "fdc_lib \<Rightarrow> fdc_proc \<Rightarrow> base \<Rightarrow> nat" where
  "max_attempts lib f b = (case queue_of lib f b of None \<Rightarrow> 1 | Some q \<Rightarrow> nat (max 1 (MaxAttempts (q_params q))))"

lemma max_attempts_pos [simp]: "0 < max_attempts lib f b"
  by (simp add: max_attempts_def less_max_iff_disj split: option.split)

lemma max_attempts_same:
  "OriginalMessage (GeneralData b') = OriginalMessage (GeneralData b) \<Longrightarrow> max_attempts lib f b' = max_attempts lib f b"
  by (simp add: max_attempts_def queue_of_def AttTypeAndSourceIDBase_def)

lemma FDC_Process_queued:
  "FDC_Process lib now add f s = (Ok (), t) \<Longrightarrow> queue_of lib f (ps_ib s) \<noteq> None"
  by (auto simp: FDC_Process_def queue_of_def bindA_Ok_iff split: sum.splits option.splits prod.splits)

section \<open>The tables agree\<close>

lemma fdc_tables_dom: "dom (idToQueueName (fdc_tables toHash cfg)) = dom (f_verifiers (fdc_tables toHash cfg))"
  by (simp add: fdc_tables_def dom_entry_table)

lemma fdc_tables_entry:
  assumes "distinct (entry_ids toHash (Verifiers cfg))" and "(n, v) \<in> set (Verifiers cfg)"
  shows "idToQueueName (fdc_tables toHash cfg) (entry_id toHash v) = Some (QueueName v)"
    and "f_verifiers (fdc_tables toHash cfg) (entry_id toHash v) = Some (Server v)"
  using assms by (simp_all add: fdc_tables_def entry_table_in)

lemma fdc_tables_queue:
  assumes "fdc_cfg_ok toHash urlParse cfg" and "idToQueueName (fdc_tables toHash cfg) a = Some qn"
  shows "f_queues (fdc_tables toHash cfg) qn \<noteq> None"
proof -
  from assms(2) obtain n v where "(n, v) \<in> set (Verifiers cfg)" "qn = QueueName v"
    by (auto simp: fdc_tables_def elim: entry_table_Some)
  with assms(1) have "qn \<in> fst ` set (Queues cfg)"
    by (force simp: fdc_cfg_ok_def)
  then have "qn \<in> dom (NewFDC_queues (Queues cfg) Map.empty)"
    by (simp add: dom_NewFDC_queues)
  then show ?thesis by (auto simp: fdc_tables_def)
qed

section \<open>The verifiers built from a configuration\<close>

text \<open>
  The handler with the verifiers of the relay, for each of the two signers.
\<close>

interpretation local_fdc: fdc_handler
    "NewLocal utilsSign utilsDecrypt pubKeyToStruct priv" "made_by utilsSign priv"
    "FDC_verifiers (Verifier_Response sprintf execute post checkSize proveHash) f" "fits checkSize proveHash"
  for utilsSign utilsDecrypt pubKeyToStruct priv sprintf execute post checkSize proveHash f
  by unfold_locales (auto simp: FDC_verifiers_def dest: verifier.response_ok)

interpretation remote_fdc: fdc_handler
    "NewRemote postSign postDecrypt newRequest transport execute decode creds" any_bytes
    "FDC_verifiers (Verifier_Response sprintf execute' post checkSize proveHash) f" "fits checkSize proveHash"
  for postSign postDecrypt newRequest transport execute decode creds sprintf execute' post checkSize proveHash f
  by unfold_locales (auto simp: FDC_verifiers_def dest: verifier.response_ok)

text \<open>\<open>StartQueues\<close> gives every queue a worker that runs the wrapped handler.\<close>

definition StartQueues :: "('x pst, unit) act \<Rightarrow> fdc_proc \<Rightarrow> (string \<rightharpoonup> fdc_queue \<times> ('x pst, unit) act)" where
  "StartQueues handler f = (\<lambda>name. map_option (\<lambda>q. (q, wrapHandle handler)) (f_queues f name))"

section \<open>Properties\<close>

text \<open>
  C27. An FDC configuration is accepted exactly when every verifier has a type and a source that make an
  identifier, valid credentials and a defined queue, and no two have the same identifier; the tables
  built are those of the entries.
\<close>

theorem fdc_config_accepted:
  "NewFDC toHash urlParse (Some cfg) = Inr f \<longleftrightarrow> fdc_cfg_ok toHash urlParse cfg \<and> f = fdc_tables toHash cfg"
  by (rule NewFDC_Some)

text \<open>
  C21. Go ranges over maps in an arbitrary order; the processor built does not depend on it: two orders of the
  same entries are both accepted with the same tables or both refused.
\<close>

theorem map_order_irrelevant:
  assumes "mset (Verifiers cfg) = mset (Verifiers cfg')" and "mset (Queues cfg) = mset (Queues cfg')"
    and "distinct (map fst (Queues cfg))"
  shows "NewFDC toHash urlParse (Some cfg) = Inr f \<longleftrightarrow> NewFDC toHash urlParse (Some cfg') = Inr f"
proof -
  have sets: "set (Verifiers cfg) = set (Verifiers cfg')" "set (Queues cfg) = set (Queues cfg')"
    using assms(1,2) by (metis set_mset_mset)+
  have "mset (entry_ids toHash (Verifiers cfg)) = mset (entry_ids toHash (Verifiers cfg'))"
    using assms(1) by (simp add: entry_ids_def)
  then have ids: "distinct (entry_ids toHash (Verifiers cfg)) \<longleftrightarrow> distinct (entry_ids toHash (Verifiers cfg'))"
    by (metis mset_eq_imp_distinct_iff)
  have "mset (map fst (Queues cfg)) = mset (map fst (Queues cfg'))" using assms(2) by simp
  with assms(3) have "distinct (map fst (Queues cfg'))" by (metis mset_eq_imp_distinct_iff)
  with assms(3) have "NewFDC_queues (Queues cfg) Map.empty = NewFDC_queues (Queues cfg') Map.empty"
    by (simp add: NewFDC_queues_map_of map_of_inject_set o_def sets)
  moreover have "fdc_cfg_ok toHash urlParse cfg = fdc_cfg_ok toHash urlParse cfg'"
    by (simp add: fdc_cfg_ok_def sets ids)
  moreover have "entry_table toHash g (Verifiers cfg) = entry_table toHash g (Verifiers cfg')"
    if "fdc_cfg_ok toHash urlParse cfg" for g :: "verifier_cfg \<Rightarrow> 'a"
    using that sets(1) ids by (intro entry_table_perm) (simp_all add: fdc_cfg_ok_def)
  moreover have "entry_table toHash g (Verifiers cfg) = entry_table toHash g (Verifiers cfg')"
    if "fdc_cfg_ok toHash urlParse cfg" for g :: "verifier_cfg \<Rightarrow> 'b"
    using that sets(1) ids by (intro entry_table_perm) (simp_all add: fdc_cfg_ok_def)
  ultimately show ?thesis
    unfolding NewFDC_Some fdc_tables_def by metis
qed

definition sample_fdc_cfg :: "bool \<Rightarrow> fdc_cfg" where
  "sample_fdc_cfg swap = (let v = (''a'', sample_verifier); w = (''b'', sample_verifier\<lparr>SourceID := ''other''\<rparr>) in
     \<lparr>Queues = [(''q'', \<lparr>MaxAttempts = 1, TimeOff = 0, ErrorChan = False\<rparr>)],
      Verifiers = (if swap then [w, v] else [v, w])\<rparr>)"

definition sample_urlParse :: "string \<Rightarrow> error + string \<times> string" where
  "sample_urlParse u = Inr (''http'', ''h'')"

lemma sample_fdc_accepted: "NewFDC sample_toHash sample_urlParse (Some (sample_fdc_cfg False)) =
    Inr (fdc_tables sample_toHash (sample_fdc_cfg False))"
  unfolding NewFDC_Some
  by (simp add: fdc_cfg_ok_def entry_ok_def entry_ids_def entry_id_def verifier_AttTypeAndSourceID_def
      JoinAttTypeAndSourceID_def sample_toHash_def sample_urlParse_def creds_ok_def sample_verifier_def
      sample_fdc_cfg_def Let_def join_halves_eq_iff)

lemma map_order_irrelevant_witness:
  "NewFDC sample_toHash sample_urlParse (Some (sample_fdc_cfg True)) = Inr (fdc_tables sample_toHash (sample_fdc_cfg False))"
  using map_order_irrelevant [of "sample_fdc_cfg False" "sample_fdc_cfg True" sample_toHash sample_urlParse] sample_fdc_accepted
  by (simp add: sample_fdc_cfg_def Let_def add_mset_commute)

text \<open>
  C15. In the processor built from an accepted configuration, the pair of a verifier entry leads to that entry's own
  queue, which exists, and to that entry's own server; a pair with a queue has a verifier and the other way
  round, so the branch the code calls impossible is never taken.
\<close>

theorem entries_stay_together:
  assumes "NewFDC toHash urlParse (Some cfg) = Inr f"
  shows "dom (idToQueueName f) = dom (f_verifiers f) \<and>
    list_all (\<lambda>nv. idToQueueName f (entry_id toHash (snd nv)) = Some (QueueName (snd nv)) \<and>
      f_verifiers f (entry_id toHash (snd nv)) = Some (Server (snd nv))) (Verifiers cfg) \<and>
    ran (idToQueueName f) \<subseteq> dom (f_queues f)"
proof -
  from assms have ok: "fdc_cfg_ok toHash urlParse cfg" and f: "f = fdc_tables toHash cfg"
    by (simp_all add: NewFDC_Some)
  from ok have "distinct (entry_ids toHash (Verifiers cfg))" by (simp add: fdc_cfg_ok_def)
  then have "list_all (\<lambda>nv. idToQueueName f (entry_id toHash (snd nv)) = Some (QueueName (snd nv)) \<and>
      f_verifiers f (entry_id toHash (snd nv)) = Some (Server (snd nv))) (Verifiers cfg)"
    unfolding f list_all_iff by (auto simp: fdc_tables_entry)
  moreover have "ran (idToQueueName f) \<subseteq> dom (f_queues f)"
    unfolding f using fdc_tables_queue [OF ok] by (auto simp: ran_def)
  ultimately show ?thesis by (simp add: f fdc_tables_dom)
qed

lemma entries_stay_together_witness:
  "ran (idToQueueName (fdc_tables sample_toHash (sample_fdc_cfg False))) \<subseteq> dom (f_queues (fdc_tables sample_toHash (sample_fdc_cfg False)))"
  using entries_stay_together [OF sample_fdc_accepted] by simp

text \<open>
  C28. An FDC2 instruction whose pair is served is put on the queue of its pair with the clock's reading as its
  weight, and nothing else happens; one whose pair is not served is an error and goes nowhere.
\<close>

theorem queued_by_pair:
  assumes "NewFDC toHash urlParse (Some cfg) = Inr f" and "AttTypeAndSourceIDBase lib (ps_ib s) = Inr a"
  shows "(\<forall>qn q t x x'. idToQueueName f a = Some qn \<longrightarrow> f_queues f qn = Some q \<longrightarrow> now (ps_env s) = (Ok t, x) \<longrightarrow>
      add q (ps_ib s) (Weight t) x = (Ok (), x') \<longrightarrow> FDC_Process lib now add f s = (Ok (), s\<lparr>ps_env := x'\<rparr>)) \<and>
    (a \<notin> set (entry_ids toHash (Verifiers cfg)) \<longrightarrow> (\<exists>e. FDC_Process lib now add f s = (Fail e, s)))"
proof (intro conjI allI impI)
  assume "a \<notin> set (entry_ids toHash (Verifiers cfg))"
  then have "idToQueueName f a = None"
    using assms(1) by (simp add: NewFDC_Some fdc_tables_def domIff flip: dom_entry_table [of toHash QueueName])
  then obtain t u where "FDC_Process lib now add f s = (Fail (Errorf ''no queue for: %s, %s'' [AStr t, AStr u]), s)"
    by (rule FDC_Process_unserved [OF assms(2)])
  then show "\<exists>e. FDC_Process lib now add f s = (Fail e, s)" by blast
qed (rule FDC_Process_adds [OF assms(2)])

lemma sample_pair:
  "idToQueueName (fdc_tables sample_toHash (sample_fdc_cfg False)) (join_halves 8 7) = Some ''q''"
  "f_verifiers (fdc_tables sample_toHash (sample_fdc_cfg False)) (join_halves 8 7) = Some (Server sample_verifier)"
proof -
  have "(''a'', sample_verifier) \<in> set (Verifiers (sample_fdc_cfg False))"
    "distinct (entry_ids sample_toHash (Verifiers (sample_fdc_cfg False)))"
    using sample_fdc_accepted by (simp_all add: NewFDC_Some fdc_cfg_ok_def) (simp add: sample_fdc_cfg_def Let_def)
  note entry = fdc_tables_entry [OF this(2,1)]
  have id: "entry_id sample_toHash sample_verifier = join_halves 8 7"
    by (simp add: entry_id_def verifier_AttTypeAndSourceID_def JoinAttTypeAndSourceID_def sample_toHash_def sample_verifier_def)
  show "idToQueueName (fdc_tables sample_toHash (sample_fdc_cfg False)) (join_halves 8 7) = Some ''q''"
    using entry(1) unfolding id by (simp add: sample_verifier_def)
  show "f_verifiers (fdc_tables sample_toHash (sample_fdc_cfg False)) (join_halves 8 7) = Some (Server sample_verifier)"
    using entry(2) unfolding id .
qed

lemma queued_by_pair_witness:
  "FDC_Process sample_fdc (\<lambda>n. (Ok 5, n)) (\<lambda>q b w n. if w = Weight 5 then (Ok (), n + 1) else (Fail CtxErr, n))
     (fdc_tables sample_toHash (sample_fdc_cfg False)) sample_state = (Ok (), sample_state\<lparr>ps_env := 1\<rparr>)"
proof -
  let ?f = "fdc_tables sample_toHash (sample_fdc_cfg False)"
  have a: "AttTypeAndSourceIDBase sample_fdc (ps_ib sample_state) = Inr (join_halves 8 7)"
    by (simp add: AttTypeAndSourceIDBase_def AttTypeAndSourceID_def sample_fdc_def sample_request_def)
  have "f_queues ?f ''q'' = Some (NewQueue \<lparr>MaxAttempts = 1, TimeOff = 0, ErrorChan = False\<rparr> ''q'')"
    by (simp add: fdc_tables_def sample_fdc_cfg_def Let_def)
  then show ?thesis
    using sample_pair queued_by_pair [OF sample_fdc_accepted a, of "\<lambda>n. (Ok 5, n)"
        "\<lambda>q b w n. if w = Weight 5 then (Ok (), n + 1) else (Fail CtxErr, n)"]
    by (simp add: sample_state_def)
qed

text \<open>
  C11. Over all the attempts at a queued instruction, with the relay's own verifiers and the local signer, at most one
  message leaves, and only by the attempt that succeeds; it is the instruction with a response that fits,
  a valid signature of the chain-bound digest of exactly that response to its own request, and a valid
  signature for every machine.
\<close>

theorem queued_attestation_sent_once:
  assumes "attempts_run (wrapHandle (FDC_Handle lib hashFor sel (NewLocal utilsSign utilsDecrypt pubKeyToStruct priv) b
      (FDC_verifiers (Verifier_Response sprintf execute post checkSize proveHash) f))) xs s = (done, t)"
  shows "ps_out t = ps_out s \<and> same_instruction (ps_ib s) (ps_ib t) \<or>
    done \<and> ps_out t = ps_out s @ [ps_ib t] \<and> same_instruction (ps_ib s) (ps_ib t) \<and>
      signed hashFor (bp_chainID b) (made_by utilsSign priv) (ps_ib t) \<and>
      attested lib (bp_chainID b) (made_by utilsSign priv) (ps_ib t)"
  using local_fdc.handle.queued.attempts_emit_once [OF assms]
  by (auto simp: quiet_def emitted_def fdc_good_def)

text \<open>
  An instruction whose response was verified by an earlier attempt; the first attempt here signs it and
  does not get to send, the second does.
\<close>

definition sample_resumed :: "bytes \<Rightarrow> bytes list \<Rightarrow> nat \<Rightarrow> nat pst" where
  "sample_resumed v ss n =
     sample_state\<lparr>ps_ib := (with_signature (answered sample_base [6]) v)\<lparr>Signatures := ss\<rparr>, ps_env := n\<rparr>"

lemma sample_resumed_run:
  assumes "f_verifiers f (join_halves 8 7) = Some c"
  shows "FDC_Handle sample_fdc sample_hash sel sample_signer (SetOut (NewBase 14)) (FDC_verifiers client f) (sample_resumed v ss n) =
    emit sel (SetOut (NewBase 14)) (sample_resumed [16] [[15], [16]] n)"
proof -
  have "FDC_Handle sample_fdc sample_hash sel sample_signer (SetOut (NewBase 14)) (FDC_verifiers client f) (sample_resumed v ss n) =
      FDC_finish sample_fdc sample_hash sel sample_signer (SetOut (NewBase 14)) sample_request True (sample_resumed v ss n)"
    by (rule FDC_Handle_resumes [where v = "client c"])
      (simp_all add: asks_def sample_fdc_def sample_request_def FDC_verifiers_def sample_resumed_def answered_def
        with_signature_def assms)
  also have "\<dots> = emit sel (SetOut (NewBase 14)) ((sample_resumed v ss n)\<lparr>ps_ib :=
      (with_signature (ps_ib (sample_resumed v ss n)) [16])\<lparr>Signatures := [[15], [16]]\<rparr>, ps_env := n\<rparr>)"
    by (rule FDC_finish_Ok [where h = 15 and hs = "[15, 16]" and x = n])
      (simp_all add: sample_fdc_def SetOut_def NewBase_def sample_signer_def NewLocal_def Local_Sign_def sample_sign_def
        sample_resumed_def hashesForSigning_def sample_Tees sample_hash_def sample_machine_def with_signature_def
        answered_def Let_def)
  finally show ?thesis by (simp add: sample_resumed_def with_signature_def)
qed

text \<open>A verifier server whose every call fails.\<close>

definition sample_silent :: "nat verifier_post" where
  "sample_silent url key rq params n = ((\<lparr>Status = 400, Message = None\<rparr>, Some (Lib ''silent'')), n + 1)"

lemma queued_attestation_sent_once_witness:
  "\<exists>t. attempts_run (wrapHandle (FDC_Handle sample_fdc sample_hash (sample_sel 5) sample_signer (SetOut (NewBase 14))
      (FDC_verifiers (Verifier_Response (\<lambda>f as. f) execute_seq sample_silent (\<lambda>d. None) 0) (fdc_tables sample_toHash (sample_fdc_cfg False)))))
      [0, 5] (sample_resumed [] [] 0) = (True, t) \<and>
    ps_out t = [ps_ib t] \<and> signed sample_hash 14 (made_by sample_sign ()) (ps_ib t) \<and>
    attested sample_fdc 14 (made_by sample_sign ()) (ps_ib t)"
proof -
  let ?f = "fdc_tables sample_toHash (sample_fdc_cfg False)"
  let ?t = "(sample_resumed [16] [[15], [16]] 5)\<lparr>ps_out := [ps_ib (sample_resumed [16] [[15], [16]] 5)]\<rparr>"
  have env: "(sample_resumed v ss n)\<lparr>ps_env := m\<rparr> = sample_resumed v ss m" for v ss n m
    by (simp add: sample_resumed_def)
  have first: "FDC_Handle sample_fdc sample_hash (sample_sel 5) sample_signer (SetOut (NewBase 14))
      (FDC_verifiers (Verifier_Response (\<lambda>f as. f) execute_seq sample_silent (\<lambda>d. None) 0) ?f) (sample_resumed [] [] 0) =
    (Fail CtxErr, sample_resumed [16] [[15], [16]] 0)"
    unfolding sample_resumed_run [OF sample_pair(2)] by (simp add: emit_def sample_sel_def sample_resumed_def)
  have second: "FDC_Handle sample_fdc sample_hash (sample_sel 5) sample_signer (SetOut (NewBase 14))
      (FDC_verifiers (Verifier_Response (\<lambda>f as. f) execute_seq sample_silent (\<lambda>d. None) 0) ?f) (sample_resumed [16] [[15], [16]] 5) =
    (Ok (), ?t)"
    unfolding sample_resumed_run [OF sample_pair(2)]
    by (simp add: emit_def sample_sel_def sample_resumed_def SetOut_def sample_state_def)
  have run: "attempts_run (wrapHandle (FDC_Handle sample_fdc sample_hash (sample_sel 5) sample_signer (SetOut (NewBase 14))
      (FDC_verifiers (Verifier_Response (\<lambda>f as. f) execute_seq sample_silent (\<lambda>d. None) 0) ?f))) [0, 5] (sample_resumed [] [] 0) = (True, ?t)"
    by (simp add: wrapHandle_cases env first second)
  have "ps_out ?t \<noteq> ps_out (sample_resumed [] [] 0)" by (simp add: sample_resumed_def sample_state_def)
  with queued_attestation_sent_once [OF run [unfolded sample_signer_def]]
  have "signed sample_hash 14 (made_by sample_sign ()) (ps_ib ?t)" "attested sample_fdc 14 (made_by sample_sign ()) (ps_ib ?t)"
    by (auto simp: SetOut_def NewBase_def)
  moreover have "ps_out ?t = [ps_ib ?t]" by (simp add: sample_resumed_def)
  ultimately show ?thesis using run by (intro exI [of _ ?t] conjI)
qed

end
