(* ===== verification/Backup.thy ===== *)
theory Backup
  imports Processor
begin

text \<open>
  The processor of wallet restores, \<open>internal/router/processors/backup.go\<close>. A data-provider
  restore fetches the backup, checks that it is the requested one, decrypts this signer's key split
  and encrypts it for the machine; a direct restore fetches the source machine's signed envelope
  and checks that it is the requested one. Both then sign the instruction and send it.

  The record \<open>backup_lib\<close> holds what the code calls of tee-node, go-flare-common and go-ethereum:
  parsing, hashing and signature checks, decoding of JSON, the URL guard, the HTTP request and the
  encryption. Log lines and the clock that only they read are left out.
\<close>

section \<open>Data\<close>

text \<open>The backup identifier, as the contract has it and as the TEE node has it.\<close>

record requested_id =
  rid_TeeId :: address
  rid_WalletId :: hash
  rid_KeyId :: int
  rid_PublicKey :: bytes
  rid_KeyType :: hash
  rid_SigningAlgo :: hash
  rid_RewardEpochId :: int
  rid_RandomNonce :: hash

record wallet_backup_id =
  wid_TeeID :: address
  wid_WalletID :: hash
  wid_KeyID :: int
  wid_PublicKey :: bytes
  wid_KeyType :: hash
  wid_SigningAlgo :: hash
  wid_RewardEpochID :: int
  wid_RandomNonce :: hash

record data_provider_restore =
  dp_TeePublicKey :: public_key
  dp_BackupId :: requested_id
  dp_BackupUrl :: string

record direct_restore =
  dr_BackupInstructionId :: hash
  dr_SourceProxyUrl :: string
  dr_SourceTeeId :: address
  dr_BackupId :: requested_id

text \<open>The response of a backup server; the wallet backup is raw JSON.\<close>

record backup_response =
  br_BackupID :: wallet_backup_id
  br_WalletBackup :: bytes

record encrypted_parts =
  OwnersPublicKeys :: "public_key list"
  Splits :: "bytes list"

text \<open>Of the wallet backup, what the code reads, and the rest of the metadata.\<close>

record wallet_backup =
  wb_WalletBackupID :: wallet_backup_id
  wb_ProviderParts :: encrypted_parts
  wb_AdminParts :: encrypted_parts
  wb_Rest :: bytes

record key_split =
  ks_WalletBackupID :: wallet_backup_id
  ks_Rest :: bytes

record action_result =
  ar_ID :: hash
  ar_SubmissionTag :: string
  ar_Status :: int
  ar_OPType :: hash
  ar_OPCommand :: hash
  ar_Data :: bytes
  ar_Rest :: bytes

record action_response =
  Result :: action_result
  ar_Signature :: bytes

record signed_direct_backup =
  Payload :: bytes
  TEESignature :: bytes

text \<open>A response body is the bytes that arrive and whether reading then fails.\<close>

type_synonym stream = "bytes \<times> bool"

record fetched =
  f_StatusCode :: int
  f_ContentType :: string
  f_Body :: stream

text \<open>Operation names and their hashes, of the \<open>op\<close> package.\<close>

record op_lib =
  HashToOPType :: "hash \<Rightarrow> string"
  HashToOPCommand :: "hash \<Rightarrow> string"
  IsValid :: "string \<Rightarrow> string \<Rightarrow> bool"
  op_FDC2 :: string
  op_Wallet :: string
  op_Prove :: string
  op_KeyDataProviderRestore :: string
  op_KeyDirectRestore :: string
  op_Wallet_Hash :: hash
  op_KeyDirectBackup_Hash :: hash

record ('x, 'k) backup_lib =
  ops :: op_lib
  ParseKeyDataProviderRestore :: "data \<Rightarrow> error + data_provider_restore"
  ParseKeyDirectRestore :: "data \<Rightarrow> error + direct_restore"
  ParsePubKey :: "public_key \<Rightarrow> error + 'k"
  PubkeyToAddress :: "'k \<Rightarrow> address"
  safeurl_Validate :: "string \<Rightarrow> ('x, unit) act"
  http_NewRequest :: "string \<Rightarrow> errorp"
  http_Get :: "transport \<Rightarrow> string \<Rightarrow> ('x, fetched) act"
  decodeBackupResponse :: "stream \<Rightarrow> error + backup_response"
  unmarshalWalletBackup :: "bytes \<Rightarrow> error + wallet_backup"
  WalletBackup_Check :: "wallet_backup \<Rightarrow> u64 \<Rightarrow> errorp"
  WalletBackupID_Equal :: "wallet_backup_id \<Rightarrow> wallet_backup_id \<Rightarrow> errorp"
  marshalMetaData :: "wallet_backup \<Rightarrow> error + bytes"
  unmarshalKeySplit :: "bytes \<Rightarrow> error + key_split"
  KeySplit_VerifySignature :: "key_split \<Rightarrow> u64 \<Rightarrow> errorp"
  marshalKeySplit :: "key_split \<Rightarrow> error + bytes"
  marshalKeySplits :: "key_split \<times> key_split \<Rightarrow> error + bytes"
  utils_Encrypt :: "bytes \<Rightarrow> 'k \<Rightarrow> ('x, bytes) act"
  HashHex :: "hash \<Rightarrow> string"
  decodeActionResponse :: "stream \<Rightarrow> error + action_response"
  ActionResult_Hash :: "action_result \<Rightarrow> hash"
  TEEActionResultHash :: "u64 \<Rightarrow> hash \<Rightarrow> error + hash"
  TEEKeyDirectBackupHash :: "u64 \<Rightarrow> hash \<Rightarrow> error + hash"
  utils_VerifySignature :: "hash \<Rightarrow> bytes \<Rightarrow> address \<Rightarrow> errorp"
  types_Threshold :: string
  Keccak256Hash :: "bytes \<Rightarrow> hash"
  unmarshalSignedKeyDirectBackup :: "bytes \<Rightarrow> error + signed_direct_backup"
  unmarshalKeyDirectBackupPayload :: "bytes \<Rightarrow> error + wallet_backup_id"

section \<open>Fetching\<close>

definition sizeLimitDataProviderRestore :: nat where
  "sizeLimitDataProviderRestore = 2097152"

definition sizeLimitDirectRestore :: nat where
  "sizeLimitDirectRestore = 102400"

definition errorSizeLimit :: nat where
  "errorSizeLimit = 1024"

text \<open>\<open>io.LimitedReader\<close> ends without an error once its limit is used up.\<close>

definition limited :: "nat \<Rightarrow> stream \<Rightarrow> stream" where
  "limited n body = (take n (fst body), snd body \<and> length (fst body) < n)"

definition text_of :: "bytes \<Rightarrow> string" where
  "text_of b = map (\<lambda>w. char_of (unat w)) b"

text \<open>The error of a response that is not 200, with what it says when that is plain text.\<close>

definition status_error :: "string \<Rightarrow> fetched \<Rightarrow> error" where
  "status_error what resp =
     (let respLimited = limited errorSizeLimit (f_Body resp) in
      if f_ContentType resp = ''text/plain; charset=utf-8'' \<and> \<not> snd respLimited then
        Errorf (what @ '' responded with code %d, reason: %s'')
          [AInt (f_StatusCode resp), AQuoted (text_of (fst respLimited))]
      else Errorf (what @ '' responded with code %d'') [AInt (f_StatusCode resp)])"

text \<open>Of the processor, its own field; the base processor is the one it shares with the router.\<close>

record backup_proc =
  bk_allowUnsafeURLs :: bool

definition NewBackup :: "bool \<Rightarrow> backup_proc" where
  "NewBackup allowUnsafeURLs = \<lparr>bk_allowUnsafeURLs = allowUnsafeURLs\<rparr>"

definition restore_client :: "bool \<Rightarrow> transport" where
  "restore_client allowUnsafeURLs = (if allowUnsafeURLs then DefaultTransport else SafeTransport)"

text \<open>
  The guard, the request and the call; the texts of the errors differ between the two flows.
\<close>

definition fetch_backup :: "('x, 'k) backup_lib \<Rightarrow> bool \<Rightarrow> string \<Rightarrow> ('x pst, fetched) act" where
  "fetch_backup lib allowUnsafeURLs url =
     bindA (if \<not> allowUnsafeURLs then wrapA ''validating backup URL: '' [] (on_env (safeurl_Validate lib url)) else retA ())
     (\<lambda>_. bindA (wrapA ''creating backup request: '' [] (checkA (http_NewRequest lib url)))
     (\<lambda>_. bindA (wrapA ''fetching backup: '' [] (on_env (http_Get lib (restore_client allowUnsafeURLs) url)))
     (\<lambda>resp. if f_StatusCode resp \<noteq> 200 then failA (status_error ''request'' resp) else retA resp)))"

definition fetch_envelope :: "('x, 'k) backup_lib \<Rightarrow> bool \<Rightarrow> string \<Rightarrow> ('x pst, fetched) act" where
  "fetch_envelope lib allowUnsafeURLs url =
     bindA (if \<not> allowUnsafeURLs then wrapA ''validating source proxy URL: '' [] (on_env (safeurl_Validate lib url)) else retA ())
     (\<lambda>_. bindA (wrapA ''creating direct backup fetch request: '' [] (checkA (http_NewRequest lib url)))
     (\<lambda>_. bindA (wrapA ''fetching direct backup envelope from %s: '' [AQuoted url]
            (on_env (http_Get lib (restore_client allowUnsafeURLs) url)))
     (\<lambda>resp. if f_StatusCode resp \<noteq> 200 then failA (status_error ''direct backup fetch'' resp) else retA resp)))"

section \<open>The data-provider restore\<close>

text \<open>What the parsers of requests are given: the instruction's data without the variable message.\<close>

definition DataFixed :: "data \<Rightarrow> data" where
  "DataFixed d = d\<lparr>AdditionalVariableMessage := []\<rparr>"

definition checkConsistency ::
    "('x, 'k) backup_lib \<Rightarrow> data_provider_restore \<Rightarrow> wallet_backup_id \<Rightarrow> tee_machine list \<Rightarrow> errorp" where
  "checkConsistency lib request wid tees =
     (case ParsePubKey lib (dp_TeePublicKey request) of
        Inl e \<Rightarrow> Some (Wrapf ''parsing TEE public key: '' [] e)
      | Inr pk \<Rightarrow>
         (let recoveredTeeID = PubkeyToAddress lib pk; rid = dp_BackupId request in
          if length tees \<noteq> 1 then Some (New ''restore can only be requested on one tee per instruction'')
          else if recoveredTeeID \<noteq> TeeId (tees ! 0) then
            Some (New ''provided public key does not match the destination tee'')
          else if rid_TeeId rid \<noteq> wid_TeeID wid then
            Some (New ''teeID in the request does not match the teeID in the wallet backup id'')
          else if rid_WalletId rid \<noteq> wid_WalletID wid then
            Some (New ''walletID in the request does not match the walletID in the wallet backup id'')
          else if rid_KeyId rid \<noteq> wid_KeyID wid then
            Some (New ''keyID in the request does not match the keyID in the wallet backup id'')
          else if rid_PublicKey rid \<noteq> wid_PublicKey wid then
            Some (New ''publicKey in the request does not match the publicKey in the wallet backup id'')
          else if rid_KeyType rid \<noteq> wid_KeyType wid then
            Some (New ''keyType in the request does not match the keyType in the wallet backup id'')
          else if rid_SigningAlgo rid \<noteq> wid_SigningAlgo wid then
            Some (New ''signingAlgo in the request does not match the signingAlgo in the wallet backup id'')
          else if rid_RewardEpochId rid \<noteq> wid_RewardEpochID wid then
            Some (New ''rewardEpochID in the request does not match the rewardEpochID in the wallet backup id'')
          else if rid_RandomNonce rid \<noteq> wid_RandomNonce wid then
            Some (New ''randomNonce in the request does not match the randomNonce in the wallet backup id'')
          else None))"

definition decryptKeySplit ::
    "('x, 'k) backup_lib \<Rightarrow> 'x signer \<Rightarrow> u64 \<Rightarrow> bytes \<Rightarrow> ('x pst, key_split) act" where
  "decryptKeySplit lib s chainID cipher =
     bindA (wrapA ''decrypting: '' [] (on_env (Decrypt s cipher))) (\<lambda>plaintext.
     bindA (wrapA ''unmarshaling key split: '' [] (liftA (unmarshalKeySplit lib plaintext))) (\<lambda>keySplit.
     bindA (wrapA ''verifying key split signature: '' [] (checkA (KeySplit_VerifySignature lib keySplit chainID))) (\<lambda>_.
     retA keySplit)))"

text \<open>
  One split of an owner's parts, decrypted and checked to belong to the backup. The owners and the
  splits are two lists, and the split is read at the owner's position: when there are fewer
  splits, that panics.
\<close>

definition own_split ::
    "('x, 'k) backup_lib \<Rightarrow> 'x signer \<Rightarrow> u64 \<Rightarrow> wallet_backup_id \<Rightarrow> encrypted_parts \<Rightarrow> nat \<Rightarrow> string
      \<Rightarrow> ('x pst, key_split) act" where
  "own_split lib s chainID wid parts i mismatch =
     bindA (indexA (Splits parts) i) (\<lambda>cipher.
     bindA (decryptKeySplit lib s chainID cipher) (\<lambda>keySplit.
       if WalletBackupID_Equal lib wid (ks_WalletBackupID keySplit) \<noteq> None then failA (New mismatch)
       else retA keySplit))"

text \<open>\<open>None\<close> is a nil slice with a nil error: the signer owns no part of the backup.\<close>

definition provider_mismatch :: string where
  "provider_mismatch = ''invalid wallet id in provider's key split''"

definition admin_mismatch :: string where
  "admin_mismatch = ''invalid wallet id in admin's key split''"

definition plaintextForTEE ::
    "('x, 'k) backup_lib \<Rightarrow> 'x signer \<Rightarrow> u64 \<Rightarrow> wallet_backup \<Rightarrow> public_key \<Rightarrow> ('x pst, bytes option) act" where
  "plaintextForTEE lib s chainID wb pk =
     (let wid = wb_WalletBackupID wb;
          provider = (\<lambda>i. own_split lib s chainID wid (wb_ProviderParts wb) i provider_mismatch);
          admin = (\<lambda>i. own_split lib s chainID wid (wb_AdminParts wb) i admin_mismatch) in
      case (slices_Index (OwnersPublicKeys (wb_ProviderParts wb)) pk, slices_Index (OwnersPublicKeys (wb_AdminParts wb)) pk) of
        (Some i, Some j) \<Rightarrow>
          bindA (provider i) (\<lambda>k0. bindA (admin j) (\<lambda>k1.
          bindA (liftA (marshalKeySplits lib (k0, k1))) (\<lambda>res. retA (Some res))))
      | (Some i, None) \<Rightarrow>
          bindA (provider i) (\<lambda>k. bindA (liftA (marshalKeySplit lib k)) (\<lambda>res. retA (Some res)))
      | (None, Some j) \<Rightarrow>
          bindA (admin j) (\<lambda>k. bindA (liftA (marshalKeySplit lib k)) (\<lambda>res. retA (Some res)))
      | (None, None) \<Rightarrow> retA None)"

text \<open>
  The assignment \<open>ib.GeneralData.AdditionalFixedMessage, err = json.Marshal(...)\<close> writes the nil
  slice when it fails.
\<close>

definition set_metadata :: "('x, 'k) backup_lib \<Rightarrow> wallet_backup \<Rightarrow> ('x pst, unit) act" where
  "set_metadata lib wb =
     (case marshalMetaData lib wb of
        Inl e \<Rightarrow> bindA (modify_data (\<lambda>d. d\<lparr>AdditionalFixedMessage := []\<rparr>))
          (\<lambda>_. failA (Wrapf ''marshaling wallet backup metadata: '' [] e))
      | Inr m \<Rightarrow> modify_data (\<lambda>d. d\<lparr>AdditionalFixedMessage := m\<rparr>))"

text \<open>From the response to the wallet backup that may be restored.\<close>

definition accept_backup ::
    "('x, 'k) backup_lib \<Rightarrow> u64 \<Rightarrow> data_provider_restore \<Rightarrow> fetched \<Rightarrow> ('x pst, wallet_backup) act" where
  "accept_backup lib chainID fullRequest resp =
     bindA (wrapA ''decoding backup response: '' [] (liftA (decodeBackupResponse lib
       (limited sizeLimitDataProviderRestore (f_Body resp))))) (\<lambda>response.
     bindA (readA ps_ib) (\<lambda>ib.
     bindA (wrapA ''backup package inconsistent with the request: '' []
       (checkA (checkConsistency lib fullRequest (br_BackupID response) (Tees ib)))) (\<lambda>_.
     bindA (wrapA ''unmarshaling wallet backup: '' [] (liftA (unmarshalWalletBackup lib (br_WalletBackup response)))) (\<lambda>wBackup.
     bindA (wrapA ''checking wallet backup: '' [] (checkA (WalletBackup_Check lib wBackup chainID))) (\<lambda>_.
       if WalletBackupID_Equal lib (br_BackupID response) (wb_WalletBackupID wBackup) \<noteq> None then
         failA (New ''backup package wallet id does not match the response backup id'')
       else retA wBackup)))))"

text \<open>From the wallet backup to the message: nothing is sent when there is no part to send.\<close>

definition send_split ::
    "('x, 'k) backup_lib \<Rightarrow> (u64 \<Rightarrow> data \<Rightarrow> error + hash) \<Rightarrow> ('x \<Rightarrow> bool \<times> 'x) \<Rightarrow> 'x signer \<Rightarrow> base_proc
      \<Rightarrow> data_provider_restore \<Rightarrow> bytes option \<Rightarrow> ('x pst, unit) act" where
  "send_split lib hashFor sel s b fullRequest ptForTEE =
     (case ptForTEE of
        None \<Rightarrow> retA ()
      | Some pt \<Rightarrow>
          bindA (wrapA ''parsing TEE public key: '' [] (liftA (ParsePubKey lib (dp_TeePublicKey fullRequest)))) (\<lambda>teePK.
          bindA (wrapA ''encrypting for TEE: '' [] (on_env (utils_Encrypt lib pt teePK))) (\<lambda>cipher.
          bindA (modify_data (\<lambda>d. d\<lparr>AdditionalVariableMessage := cipher\<rparr>)) (\<lambda>_.
          bindA (wrapA ''signing: '' [] (Base_Sign hashFor s (bp_chainID b))) (\<lambda>_. emit sel b)))))"

definition processDataProviderRestore ::
    "('x, 'k) backup_lib \<Rightarrow> (u64 \<Rightarrow> data \<Rightarrow> error + hash) \<Rightarrow> ('x \<Rightarrow> bool \<times> 'x) \<Rightarrow> 'x signer \<Rightarrow> base_proc \<Rightarrow> bool
      \<Rightarrow> ('x pst, unit) act" where
  "processDataProviderRestore lib hashFor sel s b allowUnsafeURLs =
     bindA (readA ps_ib) (\<lambda>ib.
     bindA (wrapA ''decoding restore request: '' []
       (liftA (ParseKeyDataProviderRestore lib (DataFixed (GeneralData ib))))) (\<lambda>fullRequest.
     bindA (fetch_backup lib allowUnsafeURLs (dp_BackupUrl fullRequest)) (\<lambda>resp.
     bindA (accept_backup lib (bp_chainID b) fullRequest resp) (\<lambda>wBackup.
     bindA (set_metadata lib wBackup) (\<lambda>_.
     bindA (wrapA ''identifying signer: '' [] (on_env (Identify s))) (\<lambda>pk.
     bindA (plaintextForTEE lib s (bp_chainID b) wBackup pk)
       (send_split lib hashFor sel s b fullRequest)))))))"

section \<open>The direct restore\<close>

definition validateActionResponseDirect ::
    "('x, 'k) backup_lib \<Rightarrow> action_response \<Rightarrow> u64 \<Rightarrow> address \<Rightarrow> hash \<Rightarrow> errorp" where
  "validateActionResponseDirect lib resp chainID sourceTEE expectedInstructionID =
     (let r = Result resp in
      case TEEActionResultHash lib chainID (ActionResult_Hash lib r) of
        Inl e \<Rightarrow> Some (Wrapf ''retrieving action result signing hash: '' [] e)
      | Inr respHash \<Rightarrow>
         (case utils_VerifySignature lib respHash (ar_Signature resp) sourceTEE of
            Some e \<Rightarrow> Some e
          | None \<Rightarrow>
              if ar_Status r \<noteq> 1 then Some (Errorf ''response has status %d (should be 1)'' [AInt (ar_Status r)])
              else if ar_SubmissionTag r \<noteq> types_Threshold lib then
                Some (Errorf ''response has submission tag %v (should be %v)''
                  [AStr (ar_SubmissionTag r), AStr (types_Threshold lib)])
              else if ar_ID r \<noteq> expectedInstructionID then Some (New ''response has unexpected ID'')
              else if ar_OPType r \<noteq> op_Wallet_Hash (ops lib) then
                Some (Errorf ''response has op type %s'' [AStr (HashToOPType (ops lib) (ar_OPType r))])
              else if ar_OPCommand r \<noteq> op_KeyDirectBackup_Hash (ops lib) then
                Some (Errorf ''response has op command %s'' [AStr (HashToOPCommand (ops lib) (ar_OPCommand r))])
              else None))"

definition checkConsistencyDirect :: "wallet_backup_id \<Rightarrow> requested_id \<Rightarrow> errorp" where
  "checkConsistencyDirect receivedID requestedID =
     (if wid_TeeID receivedID \<noteq> rid_TeeId requestedID then Some (New ''tee IDs do not match'')
      else if wid_WalletID receivedID \<noteq> rid_WalletId requestedID then Some (New ''wallet IDs do not match'')
      else if wid_KeyID receivedID \<noteq> rid_KeyId requestedID then Some (New ''key IDs do not match'')
      else if wid_PublicKey receivedID \<noteq> rid_PublicKey requestedID then Some (New ''public keys do not match'')
      else if wid_KeyType receivedID \<noteq> rid_KeyType requestedID then Some (New ''key types do not match'')
      else if wid_SigningAlgo receivedID \<noteq> rid_SigningAlgo requestedID then Some (New ''signing algos do not match'')
      else if wid_RewardEpochID receivedID \<noteq> rid_RewardEpochId requestedID then Some (New ''reward epochs do not match'')
      else if wid_RandomNonce receivedID \<noteq> rid_RandomNonce requestedID then Some (New ''random nonces do not match'')
      else None)"

definition TrimRight :: "string \<Rightarrow> char \<Rightarrow> string" where
  "TrimRight s c = rev (dropWhile (\<lambda>d. d = c) (rev s))"

definition envelope_url :: "('x, 'k) backup_lib \<Rightarrow> direct_restore \<Rightarrow> string" where
  "envelope_url lib req =
     TrimRight (dr_SourceProxyUrl req) (CHR ''/'') @ ''/action/result/'' @ HashHex lib (dr_BackupInstructionId req)"

text \<open>From the response to the accepted envelope, which becomes the fixed message before the
  envelope itself has been checked.\<close>

definition accept_envelope ::
    "('x, 'k) backup_lib \<Rightarrow> u64 \<Rightarrow> direct_restore \<Rightarrow> fetched \<Rightarrow> ('x pst, unit) act" where
  "accept_envelope lib chainID req resp =
     bindA (wrapA ''decoding action response from source proxy: '' []
       (liftA (decodeActionResponse lib (limited sizeLimitDirectRestore (f_Body resp))))) (\<lambda>actionResp.
     bindA (wrapA ''validating backup action response: '' [] (checkA (validateActionResponseDirect lib actionResp chainID
       (dr_SourceTeeId req) (dr_BackupInstructionId req)))) (\<lambda>_.
     bindA (modify_data (\<lambda>d. d\<lparr>AdditionalFixedMessage := ar_Data (Result actionResp)\<rparr>)) (\<lambda>_.
     bindA (wrapA ''unmarshaling SignedKeyDirectBackup: '' []
       (liftA (unmarshalSignedKeyDirectBackup lib (ar_Data (Result actionResp))))) (\<lambda>skdb.
     bindA (wrapA ''retrieving SignedKeyDirectBackup Payload hash: '' []
       (liftA (TEEKeyDirectBackupHash lib chainID (Keccak256Hash lib (Payload skdb))))) (\<lambda>prefixedHash.
     bindA (wrapA ''verifying SignedKeyDirectBackup signature against source TEE: '' []
       (checkA (utils_VerifySignature lib prefixedHash (TEESignature skdb) (dr_SourceTeeId req)))) (\<lambda>_.
     bindA (wrapA ''unmarshaling KeyDirectBackupPayload, '' []
       (liftA (unmarshalKeyDirectBackupPayload lib (Payload skdb)))) (\<lambda>backupID.
     wrapA ''checking consistency: '' [] (checkA (checkConsistencyDirect backupID (dr_BackupId req))))))))))"

definition processDirectRestore ::
    "('x, 'k) backup_lib \<Rightarrow> (u64 \<Rightarrow> data \<Rightarrow> error + hash) \<Rightarrow> ('x \<Rightarrow> bool \<times> 'x) \<Rightarrow> 'x signer \<Rightarrow> base_proc \<Rightarrow> bool
      \<Rightarrow> ('x pst, unit) act" where
  "processDirectRestore lib hashFor sel s b allowUnsafeURLs =
     bindA (readA ps_ib) (\<lambda>ib.
       if length (Tees ib) \<noteq> 1 then failA (New ''direct restore is only possible to one destination'')
       else
         bindA (wrapA ''decoding direct restore request: '' []
           (liftA (ParseKeyDirectRestore lib (DataFixed (GeneralData ib))))) (\<lambda>req.
         bindA (fetch_envelope lib allowUnsafeURLs (envelope_url lib req)) (\<lambda>resp.
         bindA (accept_envelope lib (bp_chainID b) req resp) (\<lambda>_.
         bindA (wrapA ''signing: '' [] (Base_Sign hashFor s (bp_chainID b))) (\<lambda>_. emit sel b)))))"

section \<open>The dispatch\<close>

definition Backup_Process ::
    "('x, 'k) backup_lib \<Rightarrow> (u64 \<Rightarrow> data \<Rightarrow> error + hash) \<Rightarrow> ('x \<Rightarrow> bool \<times> 'x) \<Rightarrow> 'x signer \<Rightarrow> base_proc \<Rightarrow> bool
      \<Rightarrow> ('x pst, unit) act" where
  "Backup_Process lib hashFor sel s b allowUnsafeURLs =
     bindA (readA ps_ib) (\<lambda>ib.
       let c = HashToOPCommand (ops lib) (ev_OpCommand (Event ib)) in
       if c = op_KeyDataProviderRestore (ops lib) then processDataProviderRestore lib hashFor sel s b allowUnsafeURLs
       else if c = op_KeyDirectRestore (ops lib) then processDirectRestore lib hashFor sel s b allowUnsafeURLs
       else failA (Errorf ''backup processor: unsupported op command %s'' [AHash (ev_OpCommand (Event ib))]))"

section \<open>What is accepted\<close>

definition same_backup :: "requested_id \<Rightarrow> wallet_backup_id \<Rightarrow> bool" where
  "same_backup rid wid \<longleftrightarrow>
     wid = \<lparr>wid_TeeID = rid_TeeId rid, wid_WalletID = rid_WalletId rid, wid_KeyID = rid_KeyId rid,
       wid_PublicKey = rid_PublicKey rid, wid_KeyType = rid_KeyType rid, wid_SigningAlgo = rid_SigningAlgo rid,
       wid_RewardEpochID = rid_RewardEpochId rid, wid_RandomNonce = rid_RandomNonce rid\<rparr>"

lemma checkConsistency_None:
  "checkConsistency lib request wid tees = None \<longleftrightarrow>
     (\<exists>pk t. ParsePubKey lib (dp_TeePublicKey request) = Inr pk \<and> tees = [t] \<and> TeeId t = PubkeyToAddress lib pk) \<and>
     same_backup (dp_BackupId request) wid"
proof (cases "ParsePubKey lib (dp_TeePublicKey request)")
  case (Inr pk)
  show ?thesis
  proof (cases tees)
    case (Cons t ts)
    with Inr show ?thesis
      by (cases wid) (auto simp: checkConsistency_def same_backup_def Let_def)
  qed (simp add: checkConsistency_def Inr Let_def)
qed (simp add: checkConsistency_def)

lemma checkConsistencyDirect_None: "checkConsistencyDirect wid rid = None \<longleftrightarrow> same_backup rid wid"
  by (cases wid) (auto simp: checkConsistencyDirect_def same_backup_def)

lemma validateActionResponseDirect_None:
  "validateActionResponseDirect lib resp chainID tee expected = None \<longleftrightarrow>
     (\<exists>h. TEEActionResultHash lib chainID (ActionResult_Hash lib (Result resp)) = Inr h \<and>
        utils_VerifySignature lib h (ar_Signature resp) tee = None) \<and>
     ar_Status (Result resp) = 1 \<and> ar_SubmissionTag (Result resp) = types_Threshold lib \<and>
     ar_ID (Result resp) = expected \<and> ar_OPType (Result resp) = op_Wallet_Hash (ops lib) \<and>
     ar_OPCommand (Result resp) = op_KeyDirectBackup_Hash (ops lib)"
proof (cases "TEEActionResultHash lib chainID (ActionResult_Hash lib (Result resp))")
  case (Inr h)
  then show ?thesis
    by (cases "utils_VerifySignature lib h (ar_Signature resp) tee") (auto simp: validateActionResponseDirect_def Let_def)
qed (simp add: validateActionResponseDirect_def)

text \<open>The backup a data-provider restore accepts: the requested one, consistent in itself.\<close>

definition backup_accepted ::
    "('x, 'k) backup_lib \<Rightarrow> u64 \<Rightarrow> data_provider_restore \<Rightarrow> tee_machine list \<Rightarrow> wallet_backup \<Rightarrow> bool" where
  "backup_accepted lib chainID req tees wb \<longleftrightarrow>
     (\<exists>st response. length (fst st) \<le> sizeLimitDataProviderRestore \<and> decodeBackupResponse lib st = Inr response \<and>
        checkConsistency lib req (br_BackupID response) tees = None \<and>
        unmarshalWalletBackup lib (br_WalletBackup response) = Inr wb \<and> WalletBackup_Check lib wb chainID = None \<and>
        WalletBackupID_Equal lib (br_BackupID response) (wb_WalletBackupID wb) = None)"

text \<open>A key split the signer decrypts from its own part of the backup.\<close>

definition owned_split ::
    "('x, 'k) backup_lib \<Rightarrow> 'x signer \<Rightarrow> u64 \<Rightarrow> wallet_backup_id \<Rightarrow> public_key \<Rightarrow> encrypted_parts \<Rightarrow> key_split \<Rightarrow> bool" where
  "owned_split lib s chainID wid pk parts k \<longleftrightarrow>
     (\<exists>i x pt x'. i < length (OwnersPublicKeys parts) \<and> OwnersPublicKeys parts ! i = pk \<and> i < length (Splits parts) \<and>
        Decrypt s (Splits parts ! i) x = (Ok pt, x') \<and> unmarshalKeySplit lib pt = Inr k \<and>
        KeySplit_VerifySignature lib k chainID = None \<and> WalletBackupID_Equal lib wid (ks_WalletBackupID k) = None)"

definition owns :: "public_key \<Rightarrow> encrypted_parts \<Rightarrow> bool" where
  "owns pk parts \<longleftrightarrow> pk \<in> set (OwnersPublicKeys parts)"

text \<open>The plaintext for the machine: the split of every part the signer owns.\<close>

definition plaintext_of ::
    "('x, 'k) backup_lib \<Rightarrow> 'x signer \<Rightarrow> u64 \<Rightarrow> wallet_backup \<Rightarrow> public_key \<Rightarrow> bytes \<Rightarrow> bool" where
  "plaintext_of lib s chainID wb pk pt \<longleftrightarrow>
     (let provider = owned_split lib s chainID (wb_WalletBackupID wb) pk (wb_ProviderParts wb);
          admin = owned_split lib s chainID (wb_WalletBackupID wb) pk (wb_AdminParts wb) in
      if owns pk (wb_ProviderParts wb) \<and> owns pk (wb_AdminParts wb) then
        (\<exists>k0 k1. provider k0 \<and> admin k1 \<and> marshalKeySplits lib (k0, k1) = Inr pt)
      else if owns pk (wb_ProviderParts wb) then (\<exists>k. provider k \<and> marshalKeySplit lib k = Inr pt)
      else owns pk (wb_AdminParts wb) \<and> (\<exists>k. admin k \<and> marshalKeySplit lib k = Inr pt))"

definition restore_good ::
    "('x, 'k) backup_lib \<Rightarrow> (u64 \<Rightarrow> data \<Rightarrow> error + hash) \<Rightarrow> 'x signer \<Rightarrow> u64 \<Rightarrow> (hash \<Rightarrow> bytes \<Rightarrow> bool) \<Rightarrow> base \<Rightarrow> bool" where
  "restore_good lib hashFor s chainID valid ib \<longleftrightarrow>
     signed hashFor chainID valid ib \<and>
     (\<exists>d req wb pk pt teePK. chain_part d = chain_part (GeneralData ib) \<and>
        ParseKeyDataProviderRestore lib (DataFixed d) = Inr req \<and> backup_accepted lib chainID req (Tees ib) wb \<and>
        marshalMetaData lib wb = Inr (AdditionalFixedMessage (GeneralData ib)) \<and>
        (\<exists>x x'. Identify s x = (Ok pk, x')) \<and> plaintext_of lib s chainID wb pk pt \<and>
        ParsePubKey lib (dp_TeePublicKey req) = Inr teePK \<and>
        (\<exists>x x'. utils_Encrypt lib pt teePK x = (Ok (AdditionalVariableMessage (GeneralData ib)), x')))"

text \<open>The envelope a direct restore accepts: signed by the source machine, for the requested backup.\<close>

definition envelope_accepted ::
    "('x, 'k) backup_lib \<Rightarrow> u64 \<Rightarrow> direct_restore \<Rightarrow> bytes \<Rightarrow> bool" where
  "envelope_accepted lib chainID req envelope \<longleftrightarrow>
     (\<exists>st actionResp skdb h wid. length (fst st) \<le> sizeLimitDirectRestore \<and> decodeActionResponse lib st = Inr actionResp \<and>
        validateActionResponseDirect lib actionResp chainID (dr_SourceTeeId req) (dr_BackupInstructionId req) = None \<and>
        envelope = ar_Data (Result actionResp) \<and> unmarshalSignedKeyDirectBackup lib envelope = Inr skdb \<and>
        TEEKeyDirectBackupHash lib chainID (Keccak256Hash lib (Payload skdb)) = Inr h \<and>
        utils_VerifySignature lib h (TEESignature skdb) (dr_SourceTeeId req) = None \<and>
        unmarshalKeyDirectBackupPayload lib (Payload skdb) = Inr wid \<and> same_backup (dr_BackupId req) wid)"

definition direct_good ::
    "('x, 'k) backup_lib \<Rightarrow> (u64 \<Rightarrow> data \<Rightarrow> error + hash) \<Rightarrow> u64 \<Rightarrow> (hash \<Rightarrow> bytes \<Rightarrow> bool) \<Rightarrow> base \<Rightarrow> bool" where
  "direct_good lib hashFor chainID valid ib \<longleftrightarrow>
     signed hashFor chainID valid ib \<and> length (Tees ib) = 1 \<and>
     (\<exists>d req. chain_part d = chain_part (GeneralData ib) \<and> ParseKeyDirectRestore lib (DataFixed d) = Inr req \<and>
        envelope_accepted lib chainID req (AdditionalFixedMessage (GeneralData ib)))"

definition backup_good ::
    "('x, 'k) backup_lib \<Rightarrow> (u64 \<Rightarrow> data \<Rightarrow> error + hash) \<Rightarrow> 'x signer \<Rightarrow> u64 \<Rightarrow> (hash \<Rightarrow> bytes \<Rightarrow> bool) \<Rightarrow> base \<Rightarrow> bool" where
  "backup_good lib hashFor s chainID valid ib \<longleftrightarrow>
     (let c = HashToOPCommand (ops lib) (ev_OpCommand (Event ib)) in
      if c = op_KeyDataProviderRestore (ops lib) then restore_good lib hashFor s chainID valid ib
      else c = op_KeyDirectRestore (ops lib) \<and> direct_good lib hashFor chainID valid ib)"

lemma restore_good_signed: "restore_good lib hashFor s chainID valid ib \<Longrightarrow> signed hashFor chainID valid ib"
  by (simp only: restore_good_def)

lemma direct_good_signed: "direct_good lib hashFor chainID valid ib \<Longrightarrow> signed hashFor chainID valid ib"
  by (simp only: direct_good_def)

lemma backup_good_signed: "backup_good lib hashFor s chainID valid ib \<Longrightarrow> signed hashFor chainID valid ib"
  by (auto simp: backup_good_def Let_def restore_good_signed direct_good_signed split: if_splits)

section \<open>Steps of the two flows\<close>

lemma limited_length: "length (fst (limited n st)) \<le> n"
  by (simp add: limited_def)

text \<open>Fetching and decrypting only move the outside world on.\<close>

lemma wp_fetch_backup:
  assumes "\<And>resp x. Q resp (s\<lparr>ps_env := x\<rparr>)" and "\<And>e x. E e (s\<lparr>ps_env := x\<rparr>)"
  shows "wpA (fetch_backup lib unsafe url) Q E s"
proof -
  have "E e s" for e using assms(2) [of e "ps_env s"] by simp
  with assms show ?thesis
    by (auto simp: fetch_backup_def wp split: option.split intro!: wpA_any)
qed

lemma wp_fetch_envelope:
  assumes "\<And>resp x. Q resp (s\<lparr>ps_env := x\<rparr>)" and "\<And>e x. E e (s\<lparr>ps_env := x\<rparr>)"
  shows "wpA (fetch_envelope lib unsafe url) Q E s"
proof -
  have "E e s" for e using assms(2) [of e "ps_env s"] by simp
  with assms show ?thesis
    by (auto simp: fetch_envelope_def wp split: option.split intro!: wpA_any)
qed

lemma backup_acceptedI:
  assumes "decodeBackupResponse lib (limited sizeLimitDataProviderRestore b) = Inr response"
    and "checkConsistency lib req (br_BackupID response) tees = None"
    and "unmarshalWalletBackup lib (br_WalletBackup response) = Inr wb" and "WalletBackup_Check lib wb chainID = None"
    and "WalletBackupID_Equal lib (br_BackupID response) (wb_WalletBackupID wb) = None"
  shows "backup_accepted lib chainID req tees wb"
  unfolding backup_accepted_def using assms limited_length by blast

lemma owned_splitI:
  assumes "slices_Index (OwnersPublicKeys parts) pk = Some i" and "i < length (Splits parts)"
    and "Decrypt s (Splits parts ! i) x = (Ok pt, x')" and "unmarshalKeySplit lib pt = Inr k"
    and "KeySplit_VerifySignature lib k chainID = None"
    and "WalletBackupID_Equal lib wid (ks_WalletBackupID k) = None"
  shows "owned_split lib s chainID wid pk parts k"
  unfolding owned_split_def using assms slices_Index_Some [OF assms(1)] by blast

lemma wp_accept_backup:
  assumes "\<And>wb. backup_accepted lib chainID req (Tees (ps_ib s)) wb \<Longrightarrow> Q wb s" and "\<And>e. E e s"
  shows "wpA (accept_backup lib chainID req resp) Q E s"
  by (auto simp: accept_backup_def wp split: sum.split option.split intro: assms backup_acceptedI)

lemma wp_set_metadata:
  assumes "\<And>m. marshalMetaData lib wb = Inr m \<Longrightarrow> Q () (s\<lparr>ps_ib := (ps_ib s)\<lparr>GeneralData := (GeneralData (ps_ib s))\<lparr>AdditionalFixedMessage := m\<rparr>\<rparr>\<rparr>)"
    and "\<And>e. E e (s\<lparr>ps_ib := (ps_ib s)\<lparr>GeneralData := (GeneralData (ps_ib s))\<lparr>AdditionalFixedMessage := []\<rparr>\<rparr>\<rparr>)"
  shows "wpA (set_metadata lib wb) Q E s"
  using assms by (auto simp: set_metadata_def wp split: sum.split)

lemma wp_own_split:
  assumes "\<And>k x. owned_split lib sg chainID wid pk parts k \<Longrightarrow> Q k (s\<lparr>ps_env := x\<rparr>)"
    and "\<And>e x. E e (s\<lparr>ps_env := x\<rparr>)" and "slices_Index (OwnersPublicKeys parts) pk = Some i"
  shows "wpA (own_split lib sg chainID wid parts i mismatch) Q E s"
proof (cases "i < length (Splits parts)")
  case False
  moreover have "E None s" using assms(2) [of None "ps_env s"] by simp
  ultimately show ?thesis by (simp add: own_split_def wp)
next
  case True
  have "wpA (Decrypt sg (Splits parts ! i))
      (\<lambda>pt x. Decrypt sg (Splits parts ! i) (ps_env s) = (Ok pt, x)) (\<lambda>_ _. True) (ps_env s)"
    by (auto simp: wpA_def split: prod.splits res.splits)
  then show ?thesis
    using True unfolding own_split_def decryptKeySplit_def wp
    by (auto simp: wp split: sum.split option.split elim!: wpA_mono
        intro!: assms(1) assms(2) owned_splitI [OF assms(3)])
qed

lemma plaintext_of_intros:
  fixes lib s pk wb chainID
  defines "provider \<equiv> owned_split lib s chainID (wb_WalletBackupID wb) pk (wb_ProviderParts wb)"
    and "admin \<equiv> owned_split lib s chainID (wb_WalletBackupID wb) pk (wb_AdminParts wb)"
  shows "owns pk (wb_ProviderParts wb) \<Longrightarrow> owns pk (wb_AdminParts wb) \<Longrightarrow> provider k0 \<Longrightarrow> admin k1 \<Longrightarrow>
      marshalKeySplits lib (k0, k1) = Inr pt \<Longrightarrow> plaintext_of lib s chainID wb pk pt"
    and "owns pk (wb_ProviderParts wb) \<Longrightarrow> \<not> owns pk (wb_AdminParts wb) \<Longrightarrow> provider k \<Longrightarrow>
      marshalKeySplit lib k = Inr pt \<Longrightarrow> plaintext_of lib s chainID wb pk pt"
    and "\<not> owns pk (wb_ProviderParts wb) \<Longrightarrow> owns pk (wb_AdminParts wb) \<Longrightarrow> admin k \<Longrightarrow>
      marshalKeySplit lib k = Inr pt \<Longrightarrow> plaintext_of lib s chainID wb pk pt"
  by (auto simp: plaintext_of_def Let_def provider_def admin_def)

lemma wp_plaintextForTEE:
  assumes Q: "\<And>pt x. pt = None \<or> plaintext_of lib sg chainID wb pk (the pt) \<Longrightarrow> Q pt (s\<lparr>ps_env := x\<rparr>)"
    and E: "\<And>e x. E e (s\<lparr>ps_env := x\<rparr>)"
  shows "wpA (plaintextForTEE lib sg chainID wb pk) Q E s"
proof -
  have Es: "E e s" for e using E [of e "ps_env s"] by simp
  have Qs: "Q None s" using Q [of None "ps_env s"] by simp
  have Qp: "plaintext_of lib sg chainID wb pk pt \<Longrightarrow> Q (Some pt) (s\<lparr>ps_env := x\<rparr>)" for pt x
    using Q [of "Some pt" x] by simp
  let ?pi = "slices_Index (OwnersPublicKeys (wb_ProviderParts wb)) pk"
  let ?ai = "slices_Index (OwnersPublicKeys (wb_AdminParts wb)) pk"
  have owns: "owns pk (wb_ProviderParts wb) \<longleftrightarrow> ?pi \<noteq> None" "owns pk (wb_AdminParts wb) \<longleftrightarrow> ?ai \<noteq> None"
    by (simp_all add: owns_def)
  note split = wp_own_split [where pk = pk]
  show ?thesis
  proof (cases ?pi)
    case p: None
    show ?thesis
    proof (cases ?ai)
      case None
      with p Qs show ?thesis by (simp add: plaintextForTEE_def Let_def wp del: slices_Index_None)
    next
      case (Some j)
      with p owns show ?thesis
        unfolding plaintextForTEE_def Let_def
        by (auto simp: wp simp del: slices_Index_None split: sum.split intro!: split E Qp intro: plaintext_of_intros)
    qed
  next
    case p: (Some i)
    show ?thesis
    proof (cases ?ai)
      case None
      with p owns show ?thesis
        unfolding plaintextForTEE_def Let_def
        by (auto simp: wp simp del: slices_Index_None split: sum.split intro!: split E Qp intro: plaintext_of_intros)
    next
      case (Some j)
      with p owns show ?thesis
        unfolding plaintextForTEE_def Let_def
        by (auto simp: wp simp del: slices_Index_None split: sum.split intro!: split E Qp)
          (blast intro: plaintext_of_intros(1))
    qed
  qed
qed

lemma envelope_acceptedI:
  assumes "decodeActionResponse lib (limited sizeLimitDirectRestore b) = Inr actionResp"
    and "validateActionResponseDirect lib actionResp chainID (dr_SourceTeeId req) (dr_BackupInstructionId req) = None"
    and "unmarshalSignedKeyDirectBackup lib (ar_Data (Result actionResp)) = Inr skdb"
    and "TEEKeyDirectBackupHash lib chainID (Keccak256Hash lib (Payload skdb)) = Inr h"
    and "utils_VerifySignature lib h (TEESignature skdb) (dr_SourceTeeId req) = None"
    and "unmarshalKeyDirectBackupPayload lib (Payload skdb) = Inr wid"
    and "checkConsistencyDirect wid (dr_BackupId req) = None"
  shows "envelope_accepted lib chainID req (ar_Data (Result actionResp))"
  unfolding envelope_accepted_def
  using assms(1-6) assms(7) [unfolded checkConsistencyDirect_None] limited_length by blast

lemma wp_accept_envelope:
  assumes "\<And>m. envelope_accepted lib chainID req m \<Longrightarrow>
      Q () (s\<lparr>ps_ib := (ps_ib s)\<lparr>GeneralData := (GeneralData (ps_ib s))\<lparr>AdditionalFixedMessage := m\<rparr>\<rparr>\<rparr>)"
    and "\<And>e m. E e (s\<lparr>ps_ib := (ps_ib s)\<lparr>GeneralData := (GeneralData (ps_ib s))\<lparr>AdditionalFixedMessage := m\<rparr>\<rparr>\<rparr>)"
    and "\<And>e. E e s"
  shows "wpA (accept_envelope lib chainID req resp) Q E s"
  unfolding accept_envelope_def wp
  by (auto simp: wp split: sum.split option.split intro: assms envelope_acceptedI)

text \<open>What parsing reads is fixed by the chain.\<close>

lemma same_instruction_chain: "same_instruction a b \<Longrightarrow> chain_part (GeneralData a) = chain_part (GeneralData b)"
  by (simp add: same_instruction_def)

section \<open>What leaves the processor\<close>

lemma restore_goodI:
  assumes "signed hashFor chainID valid ib" and "chain_part d = chain_part (GeneralData ib)"
    and "ParseKeyDataProviderRestore lib (DataFixed d) = Inr req" and "backup_accepted lib chainID req (Tees ib) wb"
    and "marshalMetaData lib wb = Inr (AdditionalFixedMessage (GeneralData ib))" and "Identify s y = (Ok pk, y')"
    and "plaintext_of lib s chainID wb pk pt" and "ParsePubKey lib (dp_TeePublicKey req) = Inr teePK"
    and "utils_Encrypt lib pt teePK x = (Ok (AdditionalVariableMessage (GeneralData ib)), x')"
  shows "restore_good lib hashFor s chainID valid ib"
  unfolding restore_good_def using assms by blast

context signer_contract
begin

lemma processDirectRestore_emits:
  "wpA (processDirectRestore lib hashFor sel sgnr b unsafe)
     (\<lambda>_ t. quiet s t \<or> emitted (direct_good lib hashFor (bp_chainID b) valid) s t) (\<lambda>_ t. quiet s t) s"
proof (cases "length (Tees (ps_ib s)) = 1")
  case False
  then show ?thesis by (simp add: processDirectRestore_def wp)
next
  case one: True
  show ?thesis
  proof (cases "ParseKeyDirectRestore lib (DataFixed (GeneralData (ps_ib s)))")
    case (Inl e)
    with one show ?thesis by (simp add: processDirectRestore_def wp)
  next
    case (Inr req)
    have good: "direct_good lib hashFor (bp_chainID b) valid (ib\<lparr>Signatures := sigs\<rparr>)"
      if "envelope_accepted lib (bp_chainID b) req (AdditionalFixedMessage (GeneralData ib))"
        "same_instruction (ps_ib s) ib" "signed hashFor (bp_chainID b) valid (ib\<lparr>Signatures := sigs\<rparr>)" for ib sigs
      using that one Inr same_instruction_chain [OF that(2)]
      by (auto simp: direct_good_def same_instruction_def)
    have tail: "wpA (bindA (accept_envelope lib (bp_chainID b) req resp)
        (\<lambda>_. bindA (wrapA ''signing: '' [] (Base_Sign hashFor sgnr (bp_chainID b))) (\<lambda>_. emit sel b)))
        (\<lambda>_ t. quiet s t \<or> emitted (direct_good lib hashFor (bp_chainID b) valid) s t) (\<lambda>_ t. quiet s t) (s\<lparr>ps_env := x\<rparr>)"
      for resp x
      unfolding wpA_bind [of "accept_envelope _ _ _ _"]
      by (intro wp_accept_envelope wp_sign_emit good) (auto simp: quiet_ib)
    from one Inr show ?thesis
      unfolding processDirectRestore_def
      by (simp add: wpA_bind [of "fetch_envelope _ _ _"]) (auto simp: wpA_bind [of "wrapA _ _ (liftA _)"] wp intro!: wp_fetch_envelope tail)
  qed
qed

lemma wp_send_split:
  assumes "quiet r s" and "pt \<noteq> None \<Longrightarrow> plaintext_of lib sgnr (bp_chainID b) wb pk (the pt)"
    and "ParseKeyDataProviderRestore lib (DataFixed (GeneralData (ps_ib r))) = Inr req"
    and "backup_accepted lib (bp_chainID b) req (Tees (ps_ib r)) wb"
    and "marshalMetaData lib wb = Inr (AdditionalFixedMessage (GeneralData (ps_ib s)))"
    and "Identify sgnr y = (Ok pk, y')"
  shows "wpA (send_split lib hashFor sel sgnr b req pt)
    (\<lambda>_ t. quiet r t \<or> emitted (restore_good lib hashFor sgnr (bp_chainID b) valid) r t) (\<lambda>_ t. quiet r t) s"
proof (cases pt)
  case None
  with assms(1) show ?thesis by (simp add: send_split_def wp)
next
  case pt: (Some p)
  show ?thesis
  proof (cases "ParsePubKey lib (dp_TeePublicKey req)")
    case (Inl e)
    with pt assms(1) show ?thesis by (simp add: send_split_def wp)
  next
    case (Inr teePK)
    have good: "restore_good lib hashFor sgnr (bp_chainID b) valid (ib\<lparr>Signatures := sigs\<rparr>)"
      if "same_instruction (ps_ib r) ib" "utils_Encrypt lib p teePK x = (Ok (AdditionalVariableMessage (GeneralData ib)), x')"
        "AdditionalFixedMessage (GeneralData ib) = AdditionalFixedMessage (GeneralData (ps_ib s))"
        "signed hashFor (bp_chainID b) valid (ib\<lparr>Signatures := sigs\<rparr>)" for ib x x' sigs
    proof -
      from that(1) have "Tees ib = Tees (ps_ib r)" by (simp add: same_instruction_def)
      with assms(2-5) pt Inr that same_instruction_chain [OF that(1)] show ?thesis
        by (intro restore_goodI [OF that(4), where d = "GeneralData (ps_ib r)", OF _ _ _ _ assms(6)]) simp_all
    qed
    have enc: "wpA (utils_Encrypt lib p teePK) (\<lambda>c x. \<exists>y. utils_Encrypt lib p teePK y = (Ok c, x)) (\<lambda>_ _. True) x" for x
      by (auto simp: wpA_def split: prod.splits res.splits)
    have sign: "wpA (bindA (wrapA ''signing: '' [] (Base_Sign hashFor sgnr (bp_chainID b))) (\<lambda>_. emit sel b))
        (\<lambda>_ t. quiet r t \<or> emitted (restore_good lib hashFor sgnr (bp_chainID b) valid) r t) (\<lambda>_ t. quiet r t)
        (s\<lparr>ps_env := x, ps_ib := (ps_ib s)\<lparr>GeneralData := (GeneralData (ps_ib s))\<lparr>AdditionalVariableMessage := c\<rparr>\<rparr>\<rparr>)"
      if "utils_Encrypt lib p teePK y = (Ok c, x)" for c x y
      using assms(1) that by (intro wp_sign_emit good) (auto simp: quiet_def)
    have "wpA (utils_Encrypt lib p teePK)
        (\<lambda>c x. wpA (bindA (wrapA ''signing: '' [] (Base_Sign hashFor sgnr (bp_chainID b))) (\<lambda>_. emit sel b))
          (\<lambda>_ t. quiet r t \<or> emitted (restore_good lib hashFor sgnr (bp_chainID b) valid) r t) (\<lambda>_ t. quiet r t)
          (s\<lparr>ps_env := x, ps_ib := (ps_ib s)\<lparr>GeneralData := (GeneralData (ps_ib s))\<lparr>AdditionalVariableMessage := c\<rparr>\<rparr>\<rparr>))
        (\<lambda>_ x. quiet r (s\<lparr>ps_env := x\<rparr>)) (ps_env s)"
      using assms(1) by (intro wpA_mono [OF enc]) (auto intro: sign)
    with pt Inr show ?thesis by (simp add: send_split_def wpA_bind [of "wrapA _ _ (on_env _)"] wpA_bind [of "modify_data _"] wp)
  qed
qed

lemma processDataProviderRestore_emits:
  "wpA (processDataProviderRestore lib hashFor sel sgnr b unsafe)
     (\<lambda>_ t. quiet s t \<or> emitted (restore_good lib hashFor sgnr (bp_chainID b) valid) s t) (\<lambda>_ t. quiet s t) s"
proof (cases "ParseKeyDataProviderRestore lib (DataFixed (GeneralData (ps_ib s)))")
  case (Inl e)
  then show ?thesis by (simp add: processDataProviderRestore_def wp)
next
  case (Inr req)
  let ?Q = "\<lambda>_ t. quiet s t \<or> emitted (restore_good lib hashFor sgnr (bp_chainID b) valid) s t"
  let ?E = "\<lambda>_ t. quiet s t"
  have identify: "wpA (Identify sgnr) (\<lambda>pk x. \<exists>y. Identify sgnr y = (Ok pk, x)) (\<lambda>_ _. True) x" for x
    by (auto simp: wpA_def split: prod.splits res.splits)
  have last: "wpA (plaintextForTEE lib sgnr (bp_chainID b) wb pk) (\<lambda>pt. wpA (send_split lib hashFor sel sgnr b req pt) ?Q ?E) ?E u"
    if "quiet s u" "backup_accepted lib (bp_chainID b) req (Tees (ps_ib s)) wb"
      "marshalMetaData lib wb = Inr (AdditionalFixedMessage (GeneralData (ps_ib u)))" "Identify sgnr y = (Ok pk, y')" for wb pk u y y'
    using that Inr by (intro wp_plaintextForTEE wp_send_split) auto
  have rest: "wpA (bindA (set_metadata lib wb) (\<lambda>_. bindA (wrapA ''identifying signer: '' [] (on_env (Identify sgnr)))
      (\<lambda>pk. bindA (plaintextForTEE lib sgnr (bp_chainID b) wb pk) (send_split lib hashFor sel sgnr b req)))) ?Q ?E u"
    if "quiet s u" "backup_accepted lib (bp_chainID b) req (Tees (ps_ib s)) wb" for wb u
    unfolding wpA_bind wpA_wrap wpA_on_env
    using that by (auto intro!: wp_set_metadata wpA_mono [OF identify] last simp: quiet_ib elim!: quiet_ib)
  have "wpA (bindA (accept_backup lib (bp_chainID b) req resp) (\<lambda>wb. bindA (set_metadata lib wb)
      (\<lambda>_. bindA (wrapA ''identifying signer: '' [] (on_env (Identify sgnr)))
      (\<lambda>pk. bindA (plaintextForTEE lib sgnr (bp_chainID b) wb pk) (send_split lib hashFor sel sgnr b req))))) ?Q ?E (s\<lparr>ps_env := x\<rparr>)"
    for resp x
    by (subst wpA_bind) (intro wp_accept_backup rest; simp)
  note tail = this
  let ?k = "\<lambda>resp. bindA (accept_backup lib (bp_chainID b) req resp) (\<lambda>wb. bindA (set_metadata lib wb)
      (\<lambda>_. bindA (wrapA ''identifying signer: '' [] (on_env (Identify sgnr)))
      (\<lambda>pk. bindA (plaintextForTEE lib sgnr (bp_chainID b) wb pk) (send_split lib hashFor sel sgnr b req))))"
  from Inr have "processDataProviderRestore lib hashFor sel sgnr b unsafe s =
      bindA (fetch_backup lib unsafe (dp_BackupUrl req)) ?k s"
    by (simp add: processDataProviderRestore_def)
  then show ?thesis
    by (rule wpA_run) (subst wpA_bind, intro wp_fetch_backup tail, simp)
qed

lemma Backup_Process_emits:
  "wpA (Backup_Process lib hashFor sel sgnr b unsafe)
     (\<lambda>_ t. quiet s t \<or> emitted (backup_good lib hashFor sgnr (bp_chainID b) valid) s t) (\<lambda>_ t. quiet s t) s"
proof -
  let ?c = "HashToOPCommand (ops lib) (ev_OpCommand (Event (ps_ib s)))"
  have "wpA (processDataProviderRestore lib hashFor sel sgnr b unsafe)
      (\<lambda>_ t. quiet s t \<or> emitted (backup_good lib hashFor sgnr (bp_chainID b) valid) s t) (\<lambda>_ t. quiet s t) s"
    if "?c = op_KeyDataProviderRestore (ops lib)"
    by (rule wpA_mono [OF processDataProviderRestore_emits]) (erule emitted_mono, use that in \<open>simp_all add: same_instruction_def backup_good_def Let_def\<close>)
  moreover have "wpA (processDirectRestore lib hashFor sel sgnr b unsafe)
      (\<lambda>_ t. quiet s t \<or> emitted (backup_good lib hashFor sgnr (bp_chainID b) valid) s t) (\<lambda>_ t. quiet s t) s"
    if "?c \<noteq> op_KeyDataProviderRestore (ops lib)" "?c = op_KeyDirectRestore (ops lib)"
    by (rule wpA_mono [OF processDirectRestore_emits]) (erule emitted_mono, use that in \<open>simp_all add: same_instruction_def backup_good_def Let_def\<close>)
  ultimately show ?thesis
    by (auto simp: Backup_Process_def Let_def wp)
qed

end

sublocale signer_contract < backup: processor
    "Backup_Process lib hashFor sel sgnr b unsafe" "backup_good lib hashFor sgnr (bp_chainID b) valid"
  for lib :: "('x, 'k) backup_lib" and hashFor sel b unsafe
  by unfold_locales (rule Backup_Process_emits)

section \<open>When a restore ends silently\<close>

text \<open>A data-provider restore of an accepted backup none of whose parts has this signer among its owners.\<close>

definition unowned :: "('x, 'k) backup_lib \<Rightarrow> 'x signer \<Rightarrow> u64 \<Rightarrow> base \<Rightarrow> bool" where
  "unowned lib sg chainID ib \<longleftrightarrow>
     HashToOPCommand (ops lib) (ev_OpCommand (Event ib)) = op_KeyDataProviderRestore (ops lib) \<and>
     (\<exists>d req wb pk x y. chain_part d = chain_part (GeneralData ib) \<and> ParseKeyDataProviderRestore lib (DataFixed d) = Inr req \<and>
        backup_accepted lib chainID req (Tees ib) wb \<and> Identify sg x = (Ok pk, y) \<and>
        \<not> owns pk (wb_ProviderParts wb) \<and> \<not> owns pk (wb_AdminParts wb))"

lemma keeps_out_fetch [outs]:
  "keeps_out (fetch_backup lib unsafe url)" "keeps_out (fetch_envelope lib unsafe url)"
  by (auto simp: keeps_out_def intro: wp_fetch_backup wp_fetch_envelope)

lemma keeps_out_accept [outs]:
  "keeps_out (accept_backup lib chainID req resp)" "keeps_out (accept_envelope lib chainID dreq resp)"
  by (auto simp: keeps_out_def intro: wp_accept_backup wp_accept_envelope)

lemma keeps_out_set_metadata: "keeps_out (set_metadata lib wb)"
  by (auto simp: keeps_out_def intro: wp_set_metadata)

lemma keeps_out_plaintextForTEE: "keeps_out (plaintextForTEE lib sg chainID wb pk)"
  by (auto simp: keeps_out_def intro: wp_plaintextForTEE)

lemma processDirectRestore_not_silent: "sends_out (processDirectRestore lib hashFor sel sg b unsafe)"
  unfolding processDirectRestore_def by (intro outs)

lemma send_split_not_silent: "sends_out (send_split lib hashFor sel sg b req (Some pt))"
  unfolding send_split_def option.case by (intro outs)

lemma plaintextForTEE_None:
  assumes "plaintextForTEE lib sg chainID wb pk s = (Ok None, t)"
  shows "\<not> owns pk (wb_ProviderParts wb) \<and> \<not> owns pk (wb_AdminParts wb)"
  using assms
  by (auto simp: plaintextForTEE_def owns_def Let_def bindA_Ok_iff retA_def split: option.splits)

lemma processDataProviderRestore_silent:
  assumes "processDataProviderRestore lib hashFor sel sg b unsafe s = (Ok u, t)" and "ps_out t = ps_out s"
    and "HashToOPCommand (ops lib) (ev_OpCommand (Event (ps_ib s))) = op_KeyDataProviderRestore (ops lib)"
  shows "unowned lib sg (bp_chainID b) (ps_ib s)"
proof -
  from assms(1) obtain req resp s1 wb s2 s3 pk s4 pt s5 where
      req: "ParseKeyDataProviderRestore lib (DataFixed (GeneralData (ps_ib s))) = Inr req"
    and fetch: "fetch_backup lib unsafe (dp_BackupUrl req) s = (Ok resp, s1)"
    and acc: "accept_backup lib (bp_chainID b) req resp s1 = (Ok wb, s2)"
    and meta: "set_metadata lib wb s2 = (Ok (), s3)" and id: "on_env (Identify sg) s3 = (Ok pk, s4)"
    and pt: "plaintextForTEE lib sg (bp_chainID b) wb pk s4 = (Ok pt, s5)"
    and send: "send_split lib hashFor sel sg b req pt s5 = (Ok u, t)"
    by (auto simp: processDataProviderRestore_def bindA_Ok_iff)
  have "ps_ib s1 = ps_ib s"
    using wpA_OkD [OF wp_fetch_backup [where Q = "\<lambda>_ t. ps_ib t = ps_ib s" and E = "\<lambda>_ _. True"] fetch] by simp
  moreover have "backup_accepted lib (bp_chainID b) req (Tees (ps_ib s1)) wb"
    using wpA_OkD [OF wp_accept_backup [where Q = "\<lambda>wb _. backup_accepted lib (bp_chainID b) req (Tees (ps_ib s1)) wb" and E = "\<lambda>_ _. True"] acc]
    by simp
  moreover have "pt = None"
  proof (rule ccontr)
    assume "pt \<noteq> None"
    then have "ps_out t \<noteq> ps_out s5" using sends_outD [OF send_split_not_silent] send by fastforce
    moreover have "ps_out s5 = ps_out s"
      using keeps_outD [OF keeps_out_fetch(1) fetch] keeps_outD [OF keeps_out_accept(1) acc] keeps_outD [OF keeps_out_set_metadata meta]
        keeps_outD [OF keeps_out_basic(7) id] keeps_outD [OF keeps_out_plaintextForTEE pt] by simp
    ultimately show False using assms(2) by simp
  qed
  with plaintextForTEE_None pt have "\<not> owns pk (wb_ProviderParts wb) \<and> \<not> owns pk (wb_AdminParts wb)" by metis
  moreover have "\<exists>x y. Identify sg x = (Ok pk, y)"
    using id by (auto simp: on_env_def zoomA_def split: prod.splits res.splits)
  ultimately show ?thesis using req assms(3) unfolding unowned_def by metis
qed

lemma Backup_Process_silent:
  assumes "Backup_Process lib hashFor sel sg b unsafe s = (Ok u, t)" and "ps_out t = ps_out s"
  shows "unowned lib sg (bp_chainID b) (ps_ib s)"
proof -
  let ?c = "HashToOPCommand (ops lib) (ev_OpCommand (Event (ps_ib s)))"
  consider "?c = op_KeyDataProviderRestore (ops lib)" "processDataProviderRestore lib hashFor sel sg b unsafe s = (Ok u, t)"
    | "processDirectRestore lib hashFor sel sg b unsafe s = (Ok u, t)"
    using assms(1) by (auto simp: Backup_Process_def Let_def bindA_def failA_def split: if_splits)
  then show ?thesis
  proof cases
    case 1
    with assms(2) show ?thesis by (intro processDataProviderRestore_silent)
  next
    case 2
    with sends_outD [OF processDirectRestore_not_silent] assms(2) show ?thesis by metis
  qed
qed

end
