(* ===== verification/Router.thy ===== *)
theory Router
  imports Fdc Backup
begin

text \<open>
  The router, \<open>internal/router/router.go\<close> and \<open>filterer.go\<close>: the filter of data providers and
  cosigners, the classification of instructions, and the handling of a log up to the goroutine that
  processes its instruction.

  The record \<open>relay\<close> collects what the processors are given from outside: the library's hash of
  an instruction, the runtime's choice at a send, the signer, the libraries of the FDC and backup
  processors, the clock, the queues' \<open>Add\<close> and the client of a verifier server.
\<close>

section \<open>Filters\<close>

datatype filterer = ProviderFilterer | CosignerFilterer address

definition Filter :: "filterer \<Rightarrow> event \<Rightarrow> bool" where
  "Filter f event = (case f of
     ProviderFilterer \<Rightarrow> False
   | CosignerFilterer a \<Rightarrow> a \<notin> set (ev_Cosigners event))"

definition NewFilterer ::
    "(public_key \<Rightarrow> error + 'k) \<Rightarrow> ('k \<Rightarrow> address) \<Rightarrow> bool \<Rightarrow> 'x signer \<Rightarrow> ('x, filterer) act" where
  "NewFilterer parsePubKey pubkeyToAddress isCosigner sgnr =
     (if \<not> isCosigner then retA ProviderFilterer
      else bindA (wrapA ''identifying signer: '' [] (Identify sgnr)) (\<lambda>pk.
           bindA (wrapA ''parsing signer public key: '' [] (liftA (parsePubKey pk))) (\<lambda>pubkey.
           retA (CosignerFilterer (pubkeyToAddress pubkey)))))"

section \<open>Classes\<close>

datatype InstructionClass = Invalid | Plain | ClassFDC | ClassBackup

definition instClass :: "op_lib \<Rightarrow> hash \<Rightarrow> hash \<Rightarrow> InstructionClass" where
  "instClass ol opType opCommand =
     (let t = HashToOPType ol opType; c = HashToOPCommand ol opCommand in
      if t = op_FDC2 ol \<and> c = op_Prove ol then ClassFDC
      else if t = op_Wallet ol \<and> c = op_KeyDataProviderRestore ol then ClassBackup
      else if t = op_Wallet ol \<and> c = op_KeyDirectRestore ol then ClassBackup
      else if IsValid ol t c then Plain
      else Invalid)"

section \<open>The router\<close>

record ('x, 'k) relay =
  hashFor :: "u64 \<Rightarrow> data \<Rightarrow> error + hash"
  sel :: "'x \<Rightarrow> bool \<times> 'x"
  rsigner :: "'x signer"
  fdcLib :: fdc_lib
  backupLib :: "('x, 'k) backup_lib"
  clockNow :: "('x, time) act"
  queueAdd :: "fdc_queue \<Rightarrow> base \<Rightarrow> weight \<Rightarrow> ('x, unit) act"
  verifierClient :: "credentials \<Rightarrow> att_request \<Rightarrow> ('x, verifier_response) act"

record router =
  Filterer :: "filterer option"
  baseProcessor :: base_proc
  fdcProcessor :: fdc_proc
  backupProcessor :: backup_proc

definition NewRouter ::
    "(string \<Rightarrow> error + hash) \<Rightarrow> (string \<Rightarrow> error + string \<times> string) \<Rightarrow> u64 \<Rightarrow> fdc_cfg option \<Rightarrow> filterer option \<Rightarrow> bool
      \<Rightarrow> error + router" where
  "NewRouter toHash urlParse chainID fdcCfg filterer allowUnsafeURLs =
     (case NewFDC toHash urlParse fdcCfg of
        Inl e \<Rightarrow> Inl (Wrapf ''creating FDC processor: '' [] e)
      | Inr f \<Rightarrow> Inr \<lparr>Filterer = filterer, baseProcessor = NewBase chainID, fdcProcessor = f,
          backupProcessor = NewBackup allowUnsafeURLs\<rparr>)"

text \<open>The three processors share the base, so one assignment sets the channel of all.\<close>

definition Router_SetOut :: "router \<Rightarrow> router" where
  "Router_SetOut r = r\<lparr>baseProcessor := SetOut (baseProcessor r)\<rparr>"

text \<open>The processor a route leads to, and what it runs.\<close>

datatype proc = BaseProcessor | FDCProcessor | BackupProcessor

definition Route :: "op_lib \<Rightarrow> base \<Rightarrow> error + proc" where
  "Route ol b =
     (case instClass ol (ev_OpType (Event b)) (ev_OpCommand (Event b)) of
        Plain \<Rightarrow> Inr BaseProcessor
      | ClassFDC \<Rightarrow> Inr FDCProcessor
      | ClassBackup \<Rightarrow> Inr BackupProcessor
      | Invalid \<Rightarrow> Inl (Errorf ''unexpected instructions.InstructionClass: %#v'' [AInt 0]))"

definition Process :: "('x, 'k) relay \<Rightarrow> router \<Rightarrow> proc \<Rightarrow> ('x pst, unit) act" where
  "Process R r p = (case p of
     BaseProcessor \<Rightarrow> Base_Process (hashFor R) (sel R) (rsigner R) (baseProcessor r)
   | FDCProcessor \<Rightarrow> FDC_Process (fdcLib R) (clockNow R) (queueAdd R) (fdcProcessor r)
   | BackupProcessor \<Rightarrow>
       Backup_Process (backupLib R) (hashFor R) (sel R) (rsigner R) (baseProcessor r) (bk_allowUnsafeURLs (backupProcessor r)))"

text \<open>What the worker of a queue runs at each attempt.\<close>

definition queued_handler :: "('x, 'k) relay \<Rightarrow> router \<Rightarrow> ('x pst, unit) act" where
  "queued_handler R r =
     wrapHandle (FDC_Handle (fdcLib R) (hashFor R) (sel R) (rsigner R) (baseProcessor r)
       (FDC_verifiers (verifierClient R) (fdcProcessor r)))"

text \<open>
  \<open>Handle\<close> up to the start of the goroutine: \<open>None\<close> when the instruction is filtered out.
\<close>

definition Router_Handle ::
    "op_lib \<Rightarrow> ('r db_log \<Rightarrow> error + 'c) \<Rightarrow> ('c \<Rightarrow> error + event) \<Rightarrow> router \<Rightarrow> 'r db_log
      \<Rightarrow> error + (proc \<times> base) option" where
  "Router_Handle ol convert parse r inLog =
     (case ParseInstruction convert parse inLog of
        Inl e \<Rightarrow> Inl (Wrapf ''parsing instruction: '' [] e)
      | Inr instr \<Rightarrow>
          if (case Filterer r of None \<Rightarrow> False | Some f \<Rightarrow> Filter f (Event instr)) then Inr None
          else (case Route ol instr of
                  Inl e \<Rightarrow> Inl (Wrapf ''no processor for %v: '' [AHash (ev_InstructionId (Event instr))] e)
                | Inr p \<Rightarrow> Inr (Some (p, instr))))"

text \<open>The goroutine: an error is logged, a panic is recovered and logged.\<close>

definition goroutine :: "('s, unit) act \<Rightarrow> ('s, unit) act" where
  "goroutine m = (\<lambda>s. case m s of
       (Ok u, t) \<Rightarrow> (Ok (), t)
     | (Fail e, t) \<Rightarrow> (Ok (), t)
     | (Panic p, t) \<Rightarrow> (Ok (), t))"

definition topicHex :: "string \<Rightarrow> string" where
  "topicHex topic = ''0x'' @ topic"

text \<open>
  The loop: what the select yields, and the goroutines started. An error of \<open>Handle\<close> is logged
  and the next log of the batch is handled.
\<close>

datatype 'r router_recv = RouterCtxDone | RouterClosed | Batch "'r db_log list"

fun handle_batch ::
    "op_lib \<Rightarrow> ('r db_log \<Rightarrow> error + 'c) \<Rightarrow> ('c \<Rightarrow> error + event) \<Rightarrow> router \<Rightarrow> 'r db_log list \<Rightarrow> (proc \<times> base) list" where
  "handle_batch ol convert parse r [] = []"
| "handle_batch ol convert parse r (l # ls) =
     (case Router_Handle ol convert parse r l of
        Inr (Some pb) \<Rightarrow> pb # handle_batch ol convert parse r ls
      | Inr None \<Rightarrow> handle_batch ol convert parse r ls
      | Inl e \<Rightarrow> handle_batch ol convert parse r ls)"

fun Router_Run ::
    "op_lib \<Rightarrow> ('r db_log \<Rightarrow> error + 'c) \<Rightarrow> ('c \<Rightarrow> error + event) \<Rightarrow> router \<Rightarrow> 'r router_recv list \<Rightarrow> (proc \<times> base) list" where
  "Router_Run ol convert parse r [] = []"
| "Router_Run ol convert parse r (RouterCtxDone # evs) = []"
| "Router_Run ol convert parse r (RouterClosed # evs) = []"
| "Router_Run ol convert parse r (Batch ls # evs) =
     handle_batch ol convert parse r ls @ Router_Run ol convert parse r evs"

section \<open>What is handled\<close>

lemma NewRouter_Inr:
  "NewRouter toHash urlParse chainID cfg fl unsafe = Inr r \<longleftrightarrow>
     (\<exists>f. NewFDC toHash urlParse cfg = Inr f \<and>
        r = \<lparr>Filterer = fl, baseProcessor = NewBase chainID, fdcProcessor = f, backupProcessor = NewBackup unsafe\<rparr>)"
  by (auto simp: NewRouter_def split: sum.splits)

text \<open>The filter of the router lets an event through.\<close>

definition relevant :: "router \<Rightarrow> event \<Rightarrow> bool" where
  "relevant r ev \<longleftrightarrow> (case Filterer r of Some (CosignerFilterer a) \<Rightarrow> a \<in> set (ev_Cosigners ev) | _ \<Rightarrow> True)"

lemma relevant_Filter:
  "relevant r ev \<longleftrightarrow> \<not> (case Filterer r of None \<Rightarrow> False | Some f \<Rightarrow> Filter f ev)"
  by (auto simp: relevant_def Filter_def split: option.split filterer.split)

text \<open>The instruction a log of an event is parsed into.\<close>

definition parsed :: "u64 \<Rightarrow> event \<Rightarrow> base" where
  "parsed ts ev = EventToData ts \<lparr>Event = ev, Tees = [], GeneralData = zero_data, Signatures = []\<rparr>"

lemma parsed_simps [simp]:
  "Event (parsed ts ev) = ev" "Tees (parsed ts ev) = removeDuplicates (ev_TeeMachines ev)"
  "Signatures (parsed ts ev) = []"
  by (simp_all add: parsed_def EventToData_def)

lemma ParseInstruction_eq:
  "ParseInstruction convert parse l =
     (case parseTeeInstructionsSent convert parse l of Inl e \<Rightarrow> Inl e | Inr ev \<Rightarrow> Inr (parsed (LogTimestamp l) ev))"
  by (simp add: ParseInstruction_def parsed_def split: sum.split)

lemma Router_Handle_Some:
  "Router_Handle ol convert parse r l = Inr (Some (p, b)) \<longleftrightarrow>
     (\<exists>ev. parseTeeInstructionsSent convert parse l = Inr ev \<and> relevant r ev \<and>
        b = parsed (LogTimestamp l) ev \<and> Route ol b = Inr p)"
proof (cases "parseTeeInstructionsSent convert parse l")
  case (Inr ev)
  then show ?thesis
    by (cases "Filterer r"; cases "Route ol (parsed (LogTimestamp l) ev)")
      (auto simp: Router_Handle_def ParseInstruction_eq relevant_Filter)
qed (simp add: Router_Handle_def ParseInstruction_eq)

definition dispatched_of ::
    "op_lib \<Rightarrow> ('r db_log \<Rightarrow> error + 'c) \<Rightarrow> ('c \<Rightarrow> error + event) \<Rightarrow> router \<Rightarrow> 'r db_log \<Rightarrow> (proc \<times> base) option" where
  "dispatched_of ol convert parse r l =
     (case Router_Handle ol convert parse r l of Inr x \<Rightarrow> x | Inl e \<Rightarrow> None)"

lemma dispatched_of_Some:
  "dispatched_of ol convert parse r l = Some pb \<longleftrightarrow> Router_Handle ol convert parse r l = Inr (Some pb)"
  by (auto simp: dispatched_of_def split: sum.split)

lemma handle_batch_eq: "handle_batch ol convert parse r ls = List.map_filter (dispatched_of ol convert parse r) ls"
  by (induction ls) (auto simp: dispatched_of_def List.map_filter_simps split: sum.splits option.splits)

lemma goroutine_snd: "snd (goroutine m s) = snd (m s)"
  by (simp add: goroutine_def split: prod.split res.split)

lemma goroutine_Ok: "fst (goroutine m s) = Ok ()"
  by (simp add: goroutine_def split: prod.split res.split)

lemma Route_Inr:
  "Route ol b = Inr p \<longleftrightarrow>
     (case instClass ol (ev_OpType (Event b)) (ev_OpCommand (Event b)) of
        Plain \<Rightarrow> p = BaseProcessor | ClassFDC \<Rightarrow> p = FDCProcessor | ClassBackup \<Rightarrow> p = BackupProcessor | Invalid \<Rightarrow> False)"
  by (auto simp: Route_def split: InstructionClass.split)

section \<open>Properties\<close>

text \<open>The batches the loop receives before it stops.\<close>

fun batches :: "'r router_recv list \<Rightarrow> 'r db_log list list" where
  "batches (Batch ls # evs) = ls # batches evs"
| "batches evs = []"

text \<open>
  C18. Until it stops, the router starts a goroutine for exactly those logs it receives, in their order, that
  parse into an event its filter lets through and whose pair of operation type and command has a processor:
  a data provider sees every event, a cosigner only those that list it; a bad log does not hold up the rest of
  its batch.
\<close>

theorem router_dispatches:
  "Router_Run ol convert parse r evs = List.map_filter (dispatched_of ol convert parse r) (concat (batches evs)) \<and>
   (dispatched_of ol convert parse r lg = Some (p, b) \<longleftrightarrow>
      (\<exists>ev. parseTeeInstructionsSent convert parse lg = Inr ev \<and>
         (case Filterer r of Some (CosignerFilterer a) \<Rightarrow> a \<in> set (ev_Cosigners ev) | _ \<Rightarrow> True) \<and>
         b = parsed (LogTimestamp lg) ev \<and>
         (case instClass ol (ev_OpType ev) (ev_OpCommand ev) of
            Plain \<Rightarrow> p = BaseProcessor | ClassFDC \<Rightarrow> p = FDCProcessor | ClassBackup \<Rightarrow> p = BackupProcessor | Invalid \<Rightarrow> False)))"
proof
  show "Router_Run ol convert parse r evs = List.map_filter (dispatched_of ol convert parse r) (concat (batches evs))"
    by (induction evs rule: batches.induct) (simp_all add: handle_batch_eq List.map_filter_def)
  show "dispatched_of ol convert parse r lg = Some (p, b) \<longleftrightarrow>
      (\<exists>ev. parseTeeInstructionsSent convert parse lg = Inr ev \<and>
         (case Filterer r of Some (CosignerFilterer a) \<Rightarrow> a \<in> set (ev_Cosigners ev) | _ \<Rightarrow> True) \<and>
         b = parsed (LogTimestamp lg) ev \<and>
         (case instClass ol (ev_OpType ev) (ev_OpCommand ev) of
            Plain \<Rightarrow> p = BaseProcessor | ClassFDC \<Rightarrow> p = FDCProcessor | ClassBackup \<Rightarrow> p = BackupProcessor | Invalid \<Rightarrow> False))"
    unfolding dispatched_of_Some Router_Handle_Some relevant_def Route_Inr by auto
qed

end
