(* ===== verification/Health.thy ===== *)
theory Health
  imports Relay_Prelude
begin

text \<open>
  The health probes, \<open>internal/health/status.go\<close> and \<open>server.go\<close>: the status the pipeline
  reports to, the startup and readiness verdicts, the routing of the three endpoints, and the server's
  listener.

  A \<open>*Status\<close> is a \<open>status option\<close>, nil being \<open>None\<close>: the methods are nil-safe. The
  clock is the argument \<open>now\<close>. The methods hold the status' lock from start to end, so each is
  one step of a run.
\<close>

section \<open>The status\<close>

record status =
  started :: bool
  block :: u64
  blockTime :: time
  maxLag :: duration

definition NewStatus :: "duration \<Rightarrow> status option" where
  "NewStatus lag = Some \<lparr>started = False, block = 0, blockTime = 0, maxLag = lag\<rparr>"

definition SetStarted :: "status option \<Rightarrow> status option" where
  "SetStarted st = (case st of None \<Rightarrow> None | Some s \<Rightarrow> Some (s\<lparr>started := True\<rparr>))"

definition SetIndexer :: "u64 \<Rightarrow> time \<Rightarrow> status option \<Rightarrow> status option" where
  "SetIndexer b t st = (case st of None \<Rightarrow> None | Some s \<Rightarrow> Some (s\<lparr>block := b, blockTime := t\<rparr>))"

definition Startup :: "status option \<Rightarrow> errorp" where
  "Startup st = (case st of
     None \<Rightarrow> Some ErrStartupNotFinished
   | Some s \<Rightarrow> if \<not> started s then Some ErrStartupNotFinished else None)"

definition Ready :: "time \<Rightarrow> status option \<Rightarrow> errorp" where
  "Ready now st = (case st of
     None \<Rightarrow> Some ErrStartupNotFinished
   | Some s \<Rightarrow>
       if \<not> started s then Some ErrStartupNotFinished
       else if blockTime s = 0 then Some ErrNoIndexerState
       else let age = max (time_Sub now (blockTime s)) 0 in
         if age > maxLag s then
           Some (WrapPre ErrIndexerStale '': block %d is %s old, max %s''
             [AInt (uint (block s)), AInt (duration_Round age second), AInt (maxLag s)])
         else None)"

section \<open>The endpoints\<close>

text \<open>
  \<open>http.Error\<close> answers with the text on a line of its own and the headers of a plain text; the
  header set before it stays.
\<close>

record response =
  code :: int
  headers :: "(string \<times> string) list"
  body :: string

definition writeProbe :: "(string \<Rightarrow> arg list \<Rightarrow> string) \<Rightarrow> errorp \<Rightarrow> response" where
  "writeProbe sprintf err = (case err of
     Some e \<Rightarrow>
       \<lparr>code = 503,
        headers = [(''Cache-Control'', ''no-store''), (''Content-Type'', ''text/plain; charset=utf-8''),
          (''X-Content-Type-Options'', ''nosniff'')],
        body = error_text sprintf e @ [CHR 0x0A]\<rparr>
   | None \<Rightarrow>
       \<lparr>code = 200, headers = [(''Cache-Control'', ''no-store''), (''Content-Length'', ''0'')], body = []\<rparr>)"

text \<open>
  Routing by \<open>http.ServeMux\<close>. A pattern with the method GET also matches HEAD requests; a
  path that is not in clean form is redirected to its clean form (\<open>path.Clean\<close>, a parameter),
  except for CONNECT; a known path under another method is 405, an unknown one 404.
\<close>

datatype answer = Answer response | Redirect string | MethodNotAllowed | NotFound

definition Handler ::
    "(string \<Rightarrow> arg list \<Rightarrow> string) \<Rightarrow> (string \<Rightarrow> string) \<Rightarrow> time \<Rightarrow> status option \<Rightarrow> string \<Rightarrow> string \<Rightarrow> answer" where
  "Handler sprintf cleanPath now s meth path =
     (if meth \<noteq> ''CONNECT'' \<and> cleanPath path \<noteq> path then Redirect (cleanPath path)
      else if path = ''/healthy'' then
        (if meth \<in> {''GET'', ''HEAD''} then Answer (writeProbe sprintf None) else MethodNotAllowed)
      else if path = ''/startup'' then
        (if meth \<in> {''GET'', ''HEAD''} then Answer (writeProbe sprintf (Startup s)) else MethodNotAllowed)
      else if path = ''/ready'' then
        (if meth \<in> {''GET'', ''HEAD''} then Answer (writeProbe sprintf (Ready now s)) else MethodNotAllowed)
      else NotFound)"

section \<open>The server\<close>

text \<open>
  Of the \<open>http.Server\<close>, its limits; of the listener, the address it is bound to, whether it accepts
  connections, and whether the goroutine of \<open>Start\<close> has reached \<open>Serve\<close>, which makes \<open>Shutdown\<close> close it. What
  binding an address (the address bound, or an error), shutting down and closing a listener return is given.
\<close>

record http_server =
  ReadHeaderTimeout :: duration
  ReadTimeout :: duration
  WriteTimeout :: duration
  IdleTimeout :: duration
  MaxHeaderBytes :: int

definition probe_limits :: http_server where
  "probe_limits = \<lparr>ReadHeaderTimeout = 2 * second, ReadTimeout = 5 * second, WriteTimeout = 5 * second,
     IdleTimeout = 30 * second, MaxHeaderBytes = 4096\<rparr>"

record server =
  srv :: http_server
  ln_addr :: string
  ln_open :: bool
  ln_served :: bool

definition Listen :: "(string \<Rightarrow> error + string) \<Rightarrow> string \<Rightarrow> error + server" where
  "Listen netListen addr = (case netListen addr of
     Inl e \<Rightarrow> Inl (Wrapf ''binding health server: '' [] e)
   | Inr bound \<Rightarrow> Inr \<lparr>srv = probe_limits, ln_addr = bound, ln_open = True, ln_served = False\<rparr>)"

definition Addr :: "server \<Rightarrow> string" where
  "Addr s = ln_addr s"

text \<open>What the goroutine of \<open>Start\<close> does when it runs, and when \<open>Serve\<close> has returned.\<close>

definition Server_Start :: "server \<Rightarrow> server" where
  "Server_Start s = s\<lparr>ln_served := True\<rparr>"

definition errors_Join :: "errorp \<Rightarrow> error \<Rightarrow> error" where
  "errors_Join err e = (case err of None \<Rightarrow> WrapText '''' e | Some e' \<Rightarrow> Join e' e)"

definition Server_Close :: "errorp \<Rightarrow> errorp \<Rightarrow> server \<Rightarrow> errorp \<times> server" where
  "Server_Close shutdown lnClose s =
     (let err = shutdown;
          s = (if ln_served s then s\<lparr>ln_open := False\<rparr> else s);
          lnErr = (if ln_open s then lnClose else Some ErrNetClosed);
          s = s\<lparr>ln_open := False\<rparr> in
      case lnErr of
        Some e \<Rightarrow> if \<not> errors_Is e ErrNetClosed then (Some (errors_Join err e), s) else (err, s)
      | None \<Rightarrow> (err, s))"

lemma Listen_Inr:
  "Listen netListen addr = Inr s \<longleftrightarrow>
     (\<exists>bound. netListen addr = Inr bound \<and> s = \<lparr>srv = probe_limits, ln_addr = bound, ln_open = True, ln_served = False\<rparr>)"
  by (cases "netListen addr") (auto simp: Listen_def)

lemma Server_Start_fresh:
  "Server_Start \<lparr>srv = l, ln_addr = a, ln_open = u, ln_served = v\<rparr> = \<lparr>srv = l, ln_addr = a, ln_open = u, ln_served = True\<rparr>"
  by (simp add: Server_Start_def)

section \<open>The verdicts\<close>

lemma Startup_None: "Startup st = None \<longleftrightarrow> (\<exists>s. st = Some s \<and> started s)"
  by (auto simp: Startup_def split: option.splits)

lemma Ready_None:
  "Ready now st = None \<longleftrightarrow>
     (\<exists>s. st = Some s \<and> started s \<and> blockTime s \<noteq> 0 \<and> max (time_Sub now (blockTime s)) 0 \<le> maxLag s)"
  by (auto simp: Ready_def Let_def split: option.splits)

lemma Ready_Startup: "Ready now st = None \<Longrightarrow> Startup st = None"
  by (auto simp: Ready_None Startup_None)

text \<open>Without a new report, an instant at which the block is stale is followed by stale ones only.\<close>

lemma Ready_stale_forever:
  assumes "Ready now st \<noteq> None" and "now \<le> later"
  shows "Ready later st \<noteq> None"
proof
  assume "Ready later st = None"
  then obtain s where s: "st = Some s" "started s" "blockTime s \<noteq> 0"
    and fresh: "max (time_Sub later (blockTime s)) 0 \<le> maxLag s"
    by (auto simp: Ready_None)
  have "max (time_Sub now (blockTime s)) 0 \<le> max (time_Sub later (blockTime s)) 0"
    using assms(2) by (simp add: time_Sub_mono max.coboundedI1)
  with fresh s have "Ready now st = None"
    by (auto simp: Ready_None)
  with assms(1) show False by simp
qed

lemma writeProbe_code: "code (writeProbe sprintf e) = (if e = None then 200 else 503)"
  by (auto simp: writeProbe_def split: option.splits)

lemma writeProbe_empty_on_200: "code (writeProbe sprintf e) = 200 \<Longrightarrow> body (writeProbe sprintf e) = []"
  by (auto simp: writeProbe_def split: option.splits)

section \<open>Runs of reports\<close>

datatype report = Started | Indexer u64 time

fun apply_report :: "status option \<Rightarrow> report \<Rightarrow> status option" where
  "apply_report st Started = SetStarted st"
| "apply_report st (Indexer b t) = SetIndexer b t st"

definition run_reports :: "status option \<Rightarrow> report list \<Rightarrow> status option" where
  "run_reports = foldl apply_report"

text \<open>The block the probes see is the one last reported.\<close>

fun last_block :: "report list \<Rightarrow> (u64 \<times> time) option" where
  "last_block [] = None"
| "last_block (r # rs) = (case last_block rs of
     Some bt \<Rightarrow> Some bt
   | None \<Rightarrow> (case r of Indexer b t \<Rightarrow> Some (b, t) | Started \<Rightarrow> None))"

lemma apply_report_nil [simp]: "apply_report None r = None"
  by (cases r) (simp_all add: SetStarted_def SetIndexer_def)

lemma run_reports_nil [simp]: "run_reports None rs = None"
  by (induction rs) (simp_all add: run_reports_def)

lemma run_reports_Some:
  "run_reports (Some s) rs = Some
     \<lparr>started = started s \<or> Started \<in> set rs,
      block = (case last_block rs of None \<Rightarrow> block s | Some bt \<Rightarrow> fst bt),
      blockTime = (case last_block rs of None \<Rightarrow> blockTime s | Some bt \<Rightarrow> snd bt),
      maxLag = maxLag s\<rparr>"
proof (induction rs arbitrary: s)
  case Nil
  then show ?case by (simp add: run_reports_def)
next
  case (Cons r rs)
  then show ?case
    by (cases r) (auto simp: run_reports_def SetStarted_def SetIndexer_def split: option.splits)
qed

section \<open>Properties\<close>

text \<open>
  C31. The readiness probe refines a specification over the history of reports: it succeeds exactly when
  startup was reported and the block last reported is not older than the limit allows.
\<close>

theorem readiness_of_history:
  "Ready now (run_reports (NewStatus lag) rs) = None \<longleftrightarrow>
     Started \<in> set rs \<and>
     (\<exists>b t. last_block rs = Some (b, t) \<and> t \<noteq> 0 \<and> max (time_Sub now t) 0 \<le> lag)"
  by (auto simp: NewStatus_def run_reports_Some Ready_None split: option.split)

text \<open>
  C40. The endpoints answer 200 exactly to GET and HEAD requests of the liveness path, and of the startup
  and readiness paths when their verdict is no error.
\<close>

theorem endpoints_answer_ok:
  "(\<exists>r. Handler sprintf cleanPath now s m p = Answer r \<and> code r = 200) \<longleftrightarrow>
     cleanPath p = p \<and> m \<in> {''GET'', ''HEAD''} \<and>
     (p = ''/healthy'' \<or> p = ''/startup'' \<and> Startup s = None \<or> p = ''/ready'' \<and> Ready now s = None)"
  by (auto simp: Handler_def writeProbe_code)

text \<open>
  Closing the health server gives up its port, whether or not it was ever started, and reports no error
  exactly when the shutdown reports none and closing a listener that only \<open>Listen\<close> knows does not fail
  otherwise than by being closed already.
\<close>

lemma health_port_released:
  "\<not> ln_open (snd (Server_Close shutdown lnClose s)) \<and>
   (fst (Server_Close shutdown lnClose s) = None \<longleftrightarrow>
      shutdown = None \<and> (ln_open s \<and> \<not> ln_served s \<longrightarrow> (case lnClose of None \<Rightarrow> True | Some e \<Rightarrow> errors_Is e ErrNetClosed)))"
  by (cases s) (auto simp: Server_Close_def Let_def split: option.splits)

lemma health_port_released_witness:
  "fst (Server_Close None None (Server_Start \<lparr>srv = probe_limits, ln_addr = ''[::]:80'', ln_open = True, ln_served = False\<rparr>)) = None"
  using health_port_released [of None None "Server_Start \<lparr>srv = probe_limits, ln_addr = ''[::]:80'', ln_open = True, ln_served = False\<rparr>"]
  by (simp add: Server_Start_def)

end
