(* ===== verification/Collector.thy ===== *)
theory Collector
  imports Health
begin

text \<open>
  The collector, \<open>internal/collector/collector.go\<close> and \<open>damper.go\<close>: the listener that reads
  the indexer database at every tick of a timer and pushes the logs it finds on a channel, and
  the damper that limits how often a lasting failure is logged at the error level.

  The listener is a state machine: one event is one pass of its loop, in which the database
  answers (or fails) and the send on the channel goes through or the context ends first. The
  database (\<open>database.FetchState\<close>, \<open>database.FetchLogsByAddressAndTopic0BlockNumber\<close>) is a
  parameter of the event. Block numbers are signed 64-bit integers, as in \<open>LogsParams\<close>.
\<close>

section \<open>The damper\<close>

definition summaryInterval :: duration where
  "summaryInterval = 5 * minute"

datatype level = ErrorLevel | DebugLevel | InfoLevel

record logline =
  level :: level
  format :: string
  fargs :: "arg list"
  ferr :: errorp

record damper =
  op :: string
  failures :: nat
  first :: time
  lastErr :: time

definition newDamper :: "string \<Rightarrow> damper" where
  "newDamper name = \<lparr>op = name, failures = 0, first = 0, lastErr = 0\<rparr>"

text \<open>
  \<open>fail\<close> reads the clock up to twice: \<open>now1\<close> and then \<open>now2\<close>. Formatting a time
  (\<open>time.RFC3339\<close>) is left to the logger: the line carries the instant.
\<close>

definition fail :: "damper \<Rightarrow> error \<Rightarrow> time \<Rightarrow> time \<Rightarrow> damper \<times> logline" where
  "fail d err now1 now2 =
     (let d = d\<lparr>failures := failures d + 1\<rparr> in
      if failures d = 1 then
        (d\<lparr>first := now1, lastErr := now1\<rparr>,
         \<lparr>level = ErrorLevel, format = ''%s: %v'', fargs = [AStr (op d)], ferr = Some err\<rparr>)
      else if time_Sub now1 (lastErr d) \<ge> summaryInterval then
        (d\<lparr>lastErr := now2\<rparr>,
         \<lparr>level = ErrorLevel, format = ''%s still failing: %d failures since %s: %v'',
          fargs = [AStr (op d), AInt (int (failures d)), AInt (first d)], ferr = Some err\<rparr>)
      else
        (d, \<lparr>level = DebugLevel, format = ''%s: %v'', fargs = [AStr (op d)], ferr = Some err\<rparr>))"

definition ok :: "damper \<Rightarrow> time \<Rightarrow> damper \<times> logline option" where
  "ok d now =
     (if failures d = 0 then (d, None)
      else (d\<lparr>failures := 0\<rparr>,
        Some \<lparr>level = InfoLevel, format = ''%s recovered after %d failures in %s'',
          fargs = [AStr (op d), AInt (int (failures d)), AInt (duration_Round (time_Sub now (first d)) second)],
          ferr = None\<rparr>))"

section \<open>The window of the first scan\<close>

definition windowStart :: "u64 \<Rightarrow> i64 \<Rightarrow> i64" where
  "windowStart index startInterval =
     (let i = index in if i <s startInterval then 0 else i - startInterval)"

section \<open>The collector\<close>

text \<open>
  The selector of the event, from the contract's ABI, when the package is initialised. The ABI, its events by
  name and their identifiers are parameters.
\<close>

definition collector_init :: "(string \<Rightarrow> arg list \<Rightarrow> string) \<Rightarrow> error + (string \<Rightarrow> hash option) \<Rightarrow> hash res" where
  "collector_init sprintf abi =
     (case abi of
        Inl err \<Rightarrow> Panic (''getting teeInstructionsABI abi: '' @ error_text sprintf err)
      | Inr events \<Rightarrow>
          (case events ''TeeInstructionsSent'' of
             None \<Rightarrow> Panic ''invalid event TeeInstructionsSent''
           | Some event \<Rightarrow> Ok event))"

definition requestInterval :: duration where
  "requestInterval = 2 * second"

record sync_params =
  Retries :: int
  OutOfSyncTolerance :: duration
  MaxSleepTime :: duration
  MinSleepTime :: duration

definition syncParams :: sync_params where
  "syncParams = \<lparr>Retries = 30, OutOfSyncTolerance = 30 * second, MaxSleepTime = 10 * minute, MinSleepTime = 5 * second\<rparr>"

text \<open>Of the pointer to the health status, whether there is one to report to.\<close>

record collector =
  col_manager :: address
  col_startInterval :: i64
  col_reports :: bool

text \<open>What the listener's goroutine is started with.\<close>

record listener_args =
  la_manager :: address
  la_topic0 :: hash
  la_startInterval :: i64
  la_listenerInterval :: duration
  la_reports :: bool

definition listener_args_of :: "hash \<Rightarrow> collector \<Rightarrow> listener_args" where
  "listener_args_of sel c = \<lparr>la_manager = col_manager c, la_topic0 = sel, la_startInterval = col_startInterval c,
     la_listenerInterval = requestInterval, la_reports = col_reports c\<rparr>"

definition Collector_New :: "address \<Rightarrow> i64 \<Rightarrow> status option \<Rightarrow> collector" where
  "Collector_New flareTeeManager startInterval st =
     \<lparr>col_manager = flareTeeManager, col_startInterval = startInterval, col_reports = (st \<noteq> None)\<rparr>"

section \<open>The listener\<close>

text \<open>Of \<open>database.State\<close>, the fields the collector reads.\<close>

record db_state =
  Index :: u64
  BlockTimestamp :: u64

definition reportState :: "status option \<Rightarrow> db_state \<Rightarrow> status option" where
  "reportState st state = SetIndexer (Index state) (time_Unix (BlockTimestamp state)) st"

text \<open>\<open>database.LogsParams\<close>, what a query for logs asks for: those of an address and a first topic in (From, To].\<close>

record logs_params =
  lp_Address :: address
  lp_Topic0 :: hash
  lp_From :: i64
  lp_To :: i64

record 'l listener =
  qAddress :: address
  qTopic0 :: hash
  From :: i64
  To :: i64
  stateDamper :: damper
  logsDamper :: damper
  hstatus :: "status option"
  sent :: "'l list list"
  stopped :: bool
  lines :: "logline list"

text \<open>
  One pass of the loop: the context is done, or the timer fires. Then the database answers the
  two queries, \<open>clk\<close> gives the readings of the clock in their order, and \<open>sends\<close> tells
  whether the send on \<open>out\<close> goes through (otherwise \<open>ctx.Done()\<close> is chosen).
\<close>

record 'l tick =
  fetchState :: "error + db_state"
  fetchLogs :: "logs_params \<Rightarrow> error + 'l list"
  sends :: bool
  clk :: "nat \<Rightarrow> time"

datatype 'l levent = Done | Trigger "'l tick"

definition log_fail :: "damper \<times> logline \<Rightarrow> logline list" where
  "log_fail dl = [snd dl]"

definition log_ok :: "damper \<times> logline option \<Rightarrow> logline list" where
  "log_ok dl = (case snd dl of None \<Rightarrow> [] | Some l \<Rightarrow> [l])"

definition params :: "'l listener \<Rightarrow> logs_params" where
  "params l = \<lparr>lp_Address = qAddress l, lp_Topic0 = qTopic0 l, lp_From = From l, lp_To = To l\<rparr>"

definition poll_logs :: "'l tick \<Rightarrow> 'l listener \<Rightarrow> 'l listener" where
  "poll_logs tk l =
     (case fetchLogs tk (params l) of
        Inl e \<Rightarrow>
          (let f = fail (logsDamper l) e (clk tk 2) (clk tk 3) in
           l\<lparr>logsDamper := fst f, lines := lines l @ log_fail f\<rparr>)
      | Inr logs \<Rightarrow>
          (let k = ok (logsDamper l) (clk tk 2);
               l = l\<lparr>logsDamper := fst k, lines := lines l @ log_ok k, From := To l\<rparr> in
           if length logs > 0 then
             (if sends tk then l\<lparr>sent := sent l @ [logs]\<rparr> else l\<lparr>stopped := True\<rparr>)
           else l))"

definition poll :: "'l tick \<Rightarrow> 'l listener \<Rightarrow> 'l listener" where
  "poll tk l =
     (case fetchState tk of
        Inl e \<Rightarrow>
          (let f = fail (stateDamper l) e (clk tk 0) (clk tk 1) in
           l\<lparr>stateDamper := fst f, lines := lines l @ log_fail f\<rparr>)
      | Inr state \<Rightarrow>
          (let k = ok (stateDamper l) (clk tk 0) in
           poll_logs tk (l\<lparr>stateDamper := fst k, lines := lines l @ log_ok k,
             hstatus := reportState (hstatus l) state, To := Index state\<rparr>)))"

definition listener_step :: "'l listener \<Rightarrow> 'l levent \<Rightarrow> 'l listener" where
  "listener_step l ev =
     (if stopped l then l
      else case ev of Done \<Rightarrow> l\<lparr>stopped := True\<rparr> | Trigger tk \<Rightarrow> poll tk l)"

definition listener_run :: "'l listener \<Rightarrow> 'l levent list \<Rightarrow> 'l listener" where
  "listener_run = foldl listener_step"

text \<open>
  Before the loop: the query is for the logs of the FlareTeeManager with the topic of TeeInstructionsSent; the first
  state decides the window. A failure here ends the listener when the context is done and panics
  (\<open>logger.Panicf\<close>) otherwise.
\<close>

definition listener_start ::
    "address \<Rightarrow> hash \<Rightarrow> status option \<Rightarrow> i64 \<Rightarrow> bool \<Rightarrow> error + db_state \<Rightarrow> 'l listener res" where
  "listener_start flareTeeManager sel st startInterval ctxDone r =
     (case r of
        Inl e \<Rightarrow> if ctxDone then Fail CtxErr else Panic ''fetching initial state''
      | Inr state \<Rightarrow> Ok
          \<lparr>qAddress = flareTeeManager, qTopic0 = sel, From = windowStart (Index state) startInterval, To = Index state,
           stateDamper = newDamper ''fetching state'', logsDamper = newDamper ''fetching logs'',
           hstatus = reportState st state, sent = [], stopped = False, lines = []\<rparr>)"

section \<open>Properties of the window\<close>

lemma windowStart_no_wrap:
  assumes "0 \<le> sint si"
  shows "sint (windowStart idx si) = max 0 (sint idx - sint si)"
proof (cases "sint idx < sint si")
  case True
  then show ?thesis by (simp add: windowStart_def word_sless_alt)
next
  case False
  have "sint idx < 2 ^ 63" "- (2 ^ 63) \<le> sint idx"
    using sint_lt [of idx] sint_ge [of idx] by simp_all
  with False assms have "signed_take_bit 63 (sint idx - sint si) = sint idx - sint si"
    by (intro signed_take_bit_int_eq_self) simp_all
  then have "sint (idx - si) = sint idx - sint si"
    by (simp add: sint_word_ariths)
  with False show ?thesis by (simp add: windowStart_def word_sless_alt)
qed

section \<open>Every log exactly once\<close>

text \<open>
  \<open>chain\<close> is what the indexer holds, in block order, \<open>blk\<close> the block of a log and \<open>src\<close> its address and first
  topic. An answer is \<open>honest\<close> when a successful query returns the logs of its address, topic and window, lower
  bound excluded.
\<close>

definition events_of :: "('l \<Rightarrow> address \<times> hash) \<Rightarrow> address \<Rightarrow> hash \<Rightarrow> 'l list \<Rightarrow> 'l list" where
  "events_of src a t chain = filter (\<lambda>l. src l = (a, t)) chain"

lemma events_of_sorted: "sorted (map blk chain) \<Longrightarrow> sorted (map blk (events_of src a t chain))"
  by (simp add: events_of_def sorted_filter)

definition in_window :: "('l \<Rightarrow> int) \<Rightarrow> int \<Rightarrow> int \<Rightarrow> 'l list \<Rightarrow> 'l list" where
  "in_window blk lo hi chain = filter (\<lambda>l. lo < blk l \<and> blk l \<le> hi) chain"

definition honest :: "('l \<Rightarrow> int) \<Rightarrow> ('l \<Rightarrow> address \<times> hash) \<Rightarrow> 'l list \<Rightarrow> 'l tick \<Rightarrow> bool" where
  "honest blk src chain tk \<longleftrightarrow>
     (\<forall>p logs. fetchLogs tk p = Inr logs \<longrightarrow>
        logs = in_window blk (sint (lp_From p)) (sint (lp_To p)) (events_of src (lp_Address p) (lp_Topic0 p) chain))"

lemma honestD:
  "honest blk src chain tk \<Longrightarrow> fetchLogs tk p = Inr logs \<Longrightarrow>
     logs = in_window blk (sint (lp_From p)) (sint (lp_To p)) (events_of src (lp_Address p) (lp_Topic0 p) chain)"
  by (simp add: honest_def)

text \<open>The indexer's last block never decreases: no state behind \<open>n\<close> is seen.\<close>

definition not_behind :: "int \<Rightarrow> 'l tick \<Rightarrow> bool" where
  "not_behind n tk \<longleftrightarrow> (\<forall>state. fetchState tk = Inr state \<longrightarrow> n \<le> sint (Index state))"

fun good_events :: "('l \<Rightarrow> int) \<Rightarrow> ('l \<Rightarrow> address \<times> hash) \<Rightarrow> 'l list \<Rightarrow> int \<Rightarrow> 'l levent list \<Rightarrow> bool" where
  "good_events blk src chain n [] = True"
| "good_events blk src chain n (Done # evs) = good_events blk src chain n evs"
| "good_events blk src chain n (Trigger tk # evs) =
     (honest blk src chain tk \<and> not_behind n tk \<and>
      good_events blk src chain (case fetchState tk of Inl _ \<Rightarrow> n | Inr state \<Rightarrow> sint (Index state)) evs)"

lemma in_window_append:
  assumes "lo \<le> mid" and "mid \<le> hi" and "sorted (map blk chain)"
  shows "in_window blk lo mid chain @ in_window blk mid hi chain = in_window blk lo hi chain"
  using assms(3)
proof (induction chain)
  case Nil
  then show ?case by (simp add: in_window_def)
next
  case (Cons l chain)
  show ?case
  proof (cases "blk l \<le> mid")
    case True
    with Cons assms(1,2) show ?thesis by (auto simp: in_window_def)
  next
    case False
    with Cons.prems have "in_window blk lo mid chain = []"
      by (auto simp: in_window_def filter_empty_conv)
    with Cons False assms(1,2) show ?thesis by (auto simp: in_window_def)
  qed
qed

lemma in_window_empty: "in_window blk lo lo chain = []"
  by (auto simp: in_window_def filter_empty_conv)

text \<open>
  What the listener has sent is a gap-free window from \<open>lo\<close>; while it runs, the window ends at
  \<open>From\<close>.
\<close>

definition delivered :: "('l \<Rightarrow> int) \<Rightarrow> ('l \<Rightarrow> address \<times> hash) \<Rightarrow> 'l list \<Rightarrow> int \<Rightarrow> 'l listener \<Rightarrow> bool" where
  "delivered blk src chain lo l \<longleftrightarrow>
     (\<exists>hi. lo \<le> hi \<and> hi \<le> sint (From l) \<and> (\<not> stopped l \<longrightarrow> hi = sint (From l)) \<and>
       concat (sent l) = in_window blk lo hi (events_of src (qAddress l) (qTopic0 l) chain))"

lemma deliveredI:
  assumes "lo \<le> hi" and "hi \<le> sint (From l)" and "\<not> stopped l \<Longrightarrow> hi = sint (From l)"
    and "concat (sent l) = in_window blk lo hi (events_of src (qAddress l) (qTopic0 l) chain)"
  shows "delivered blk src chain lo l"
  using assms by (auto simp: delivered_def)

lemma poll_delivered:
  assumes "delivered blk src chain lo l" and "\<not> stopped l" and "sorted (map blk chain)"
    and "honest blk src chain tk" and "not_behind (sint (From l)) tk"
  shows "delivered blk src chain lo (poll tk l)"
proof (cases "fetchState tk")
  case (Inl e)
  with assms(1) show ?thesis by (simp add: poll_def delivered_def Let_def)
next
  case (Inr state)
  let ?to = "Index state" and ?mine = "events_of src (qAddress l) (qTopic0 l) chain"
  let ?p = "\<lparr>lp_Address = qAddress l, lp_Topic0 = qTopic0 l, lp_From = From l, lp_To = ?to\<rparr>"
  have mine: "sorted (map blk ?mine)" using assms(3) by (rule events_of_sorted)
  from assms(1,2) have lo: "lo \<le> sint (From l)"
    and old: "concat (sent l) = in_window blk lo (sint (From l)) ?mine"
    by (auto simp: delivered_def)
  from assms(5) Inr have fwd: "sint (From l) \<le> sint ?to" by (simp add: not_behind_def)
  show ?thesis
  proof (cases "fetchLogs tk ?p")
    case (Inl e)
    with \<open>fetchState tk = Inr state\<close> assms(1,2) show ?thesis
      by (simp add: poll_def poll_logs_def params_def delivered_def Let_def)
  next
    case (Inr logs)
    from honestD [OF assms(4) this] have logs: "logs = in_window blk (sint (From l)) (sint ?to) ?mine"
      by simp
    have "concat (sent l) @ logs = in_window blk lo (sint ?to) ?mine"
      unfolding old logs using lo fwd mine by (rule in_window_append)
    note all = this
    note run = poll_def poll_logs_def params_def Let_def Inr \<open>fetchState tk = Inr state\<close>
    consider "logs = []" | "logs \<noteq> []" "sends tk" | "logs \<noteq> []" "\<not> sends tk" by blast
    then show ?thesis
    proof cases
      case 1
      with all have "concat (sent l) = in_window blk lo (sint ?to) ?mine" by simp
      with 1 lo fwd show ?thesis
        by (intro deliveredI [of lo "sint ?to"]) (simp_all add: run)
    next
      case 2
      with all lo fwd show ?thesis
        by (intro deliveredI [of lo "sint ?to"]) (simp_all add: run)
    next
      case 3
      with old lo fwd show ?thesis
        by (intro deliveredI [of lo "sint (From l)"]) (simp_all add: run)
    qed
  qed
qed

lemma poll_From:
  "\<not> stopped (poll tk l) \<Longrightarrow>
     From (poll tk l) = From l \<or> (\<exists>state. fetchState tk = Inr state \<and> From (poll tk l) = Index state)"
  by (auto simp: poll_def poll_logs_def Let_def split: sum.splits)

lemma listener_run_stopped: "stopped l \<Longrightarrow> listener_run l evs = l"
  by (induction evs) (simp_all add: listener_run_def listener_step_def)

lemma poll_From_bound:
  assumes "sint (From l) \<le> n" and "not_behind n tk"
  shows "sint (From (poll tk l)) \<le> (case fetchState tk of Inl _ \<Rightarrow> n | Inr state \<Rightarrow> sint (Index state))"
  using assms by (auto simp: poll_def poll_logs_def not_behind_def Let_def split: sum.splits)

lemma listener_run_delivered:
  assumes "delivered blk src chain lo l" and "sorted (map blk chain)"
    and "good_events blk src chain n evs" and "sint (From l) \<le> n"
  shows "delivered blk src chain lo (listener_run l evs)"
  using assms
proof (induction evs arbitrary: l n)
  case Nil
  then show ?case by (simp add: listener_run_def)
next
  case (Cons ev evs)
  show ?case
  proof (cases "stopped l")
    case True
    with Cons.prems(1) show ?thesis by (simp add: listener_run_stopped)
  next
    case False
    have step: "listener_run l (ev # evs) = listener_run (listener_step l ev) evs"
      by (simp add: listener_run_def)
    show ?thesis
    proof (cases ev)
      case Done
      with False have "listener_step l ev = l\<lparr>stopped := True\<rparr>"
        by (simp add: listener_step_def)
      with Cons.prems(1) False show ?thesis
        unfolding step by (auto simp: listener_run_stopped delivered_def)
    next
      case (Trigger tk)
      with Cons.prems have "honest blk src chain tk" "not_behind n tk"
        and rest: "good_events blk src chain (case fetchState tk of Inl _ \<Rightarrow> n | Inr state \<Rightarrow> sint (Index state)) evs"
        by auto
      moreover from this(2) Cons.prems(4) have "not_behind (sint (From l)) tk"
        by (auto simp: not_behind_def)
      ultimately have "delivered blk src chain lo (poll tk l)"
        using Cons.prems(1,2) False by (intro poll_delivered)
      moreover have "listener_step l ev = poll tk l"
        using False Trigger by (simp add: listener_step_def)
      ultimately show ?thesis
        unfolding step using Cons.IH [OF _ Cons.prems(2) rest]
          poll_From_bound [OF Cons.prems(4) \<open>not_behind n tk\<close>] by simp
    qed
  qed
qed

section \<open>The damper limits the rate of error lines\<close>

text \<open>
  A run of failures, each with the readings of the clock it may take; the error-level lines of
  the run, each with the reading that decided it and the one kept in \<open>lastErr\<close>.
\<close>

fun fail_run :: "damper \<Rightarrow> (error \<times> time \<times> time) list \<Rightarrow> damper \<times> logline list" where
  "fail_run d [] = (d, [])"
| "fail_run d ((e, now1, now2) # fs) =
     (let f = fail d e now1 now2; r = fail_run (fst f) fs in (fst r, snd f # snd r))"

fun error_times :: "damper \<Rightarrow> (error \<times> time \<times> time) list \<Rightarrow> (time \<times> time) list" where
  "error_times d [] = []"
| "error_times d ((e, now1, now2) # fs) =
     (let f = fail d e now1 now2; rest = error_times (fst f) fs in
      if level (snd f) = ErrorLevel then (now1, lastErr (fst f)) # rest else rest)"

definition spaced :: "time \<times> time \<Rightarrow> time \<times> time \<Rightarrow> bool" where
  "spaced p q \<longleftrightarrow> snd p + summaryInterval \<le> fst q"

lemma time_Sub_geD: "summaryInterval \<le> time_Sub a b \<Longrightarrow> b + summaryInterval \<le> a"
  by (auto simp: time_Sub_def summaryInterval_def min_duration_def max_duration_def)

lemma fail_counts: "failures (fst (fail d e now1 now2)) = failures d + 1"
  by (simp add: fail_def Let_def)

lemma fail_first: "failures d = 0 \<Longrightarrow> fail d e now1 now2 =
    (d\<lparr>failures := 1, first := now1, lastErr := now1\<rparr>,
     \<lparr>level = ErrorLevel, format = ''%s: %v'', fargs = [AStr (op d)], ferr = Some e\<rparr>)"
  by (simp add: fail_def)

lemma fail_again_level:
  "failures d \<noteq> 0 \<Longrightarrow> level (snd (fail d e now1 now2)) =
     (if summaryInterval \<le> time_Sub now1 (lastErr d) then ErrorLevel else DebugLevel)"
  by (simp add: fail_def Let_def)

lemma fail_again_lastErr:
  "failures d \<noteq> 0 \<Longrightarrow> lastErr (fst (fail d e now1 now2)) =
     (if summaryInterval \<le> time_Sub now1 (lastErr d) then now2 else lastErr d)"
  by (simp add: fail_def Let_def)

lemma error_times_spaced:
  "failures d \<noteq> 0 \<Longrightarrow> successively spaced ((t, lastErr d) # error_times d fs)"
proof (induction d fs arbitrary: t rule: error_times.induct)
  case (1 d)
  then show ?case by simp
next
  case (2 d e now1 now2 fs)
  have "failures (fst (fail d e now1 now2)) \<noteq> 0" by (simp add: fail_counts)
  note IH = "2.IH" [OF refl this]
  show ?case
  proof (cases "summaryInterval \<le> time_Sub now1 (lastErr d)")
    case True
    then have "spaced (t, lastErr d) (now1, now2)"
      by (auto simp: spaced_def dest: time_Sub_geD)
    with True IH [of now1] "2.prems" show ?thesis
      by (simp add: Let_def fail_again_level fail_again_lastErr)
  next
    case False
    with IH [of t] "2.prems" show ?thesis
      by (simp add: Let_def fail_again_level fail_again_lastErr)
  qed
qed

lemma fail_run_failures: "failures (fst (fail_run d fs)) = failures d + length fs"
  by (induction d fs rule: fail_run.induct) (simp_all add: Let_def fail_counts)

lemma ok_resets: "failures (fst (ok d now)) = 0"
  by (simp add: ok_def)

lemma ok_line: "(snd (ok d now) = None) = (failures d = 0)"
  by (simp add: ok_def)

lemma good_tick:
  assumes "\<not> stopped l" and "fetchState tk = Inr state" and "fetchLogs tk ((params l)\<lparr>lp_To := Index state\<rparr>) = Inr logs"
    and "sends tk"
  shows "From (listener_step l (Trigger tk)) = Index state \<and> \<not> stopped (listener_step l (Trigger tk))"
  using assms by (simp add: listener_step_def poll_def poll_logs_def params_def Let_def)

text \<open>The query's address and topic never change.\<close>

lemma listener_step_query: "qAddress (listener_step l ev) = qAddress l \<and> qTopic0 (listener_step l ev) = qTopic0 l"
  by (simp add: listener_step_def poll_def poll_logs_def Let_def split: levent.split sum.split)

lemma listener_run_query: "qAddress (listener_run l evs) = qAddress l \<and> qTopic0 (listener_run l evs) = qTopic0 l"
  unfolding listener_run_def by (induction evs rule: rev_induct) (simp_all add: listener_step_query)

lemma listener_started:
  assumes "0 \<le> sint startInterval" and "0 \<le> sint (Index state)"
    and "listener_start flareTeeManager sel st startInterval ctxDone (Inr state) = Ok l"
    and "sorted (map blk chain)" and "good_events blk src chain (sint (Index state)) evs"
  shows "delivered blk src chain (max 0 (sint (Index state) - sint startInterval)) (listener_run l evs) \<and>
    qAddress (listener_run l evs) = flareTeeManager \<and> qTopic0 (listener_run l evs) = sel"
proof -
  let ?lo = "max 0 (sint (Index state) - sint startInterval)"
  from assms(1,3) have l: "sint (From l) = ?lo" "sent l = []" and q: "qAddress l = flareTeeManager" "qTopic0 l = sel"
    by (auto simp: listener_start_def windowStart_no_wrap)
  then have "delivered blk src chain ?lo l"
    by (intro deliveredI [of ?lo ?lo]) (simp_all add: in_window_empty)
  moreover have "sint (From l) \<le> sint (Index state)"
    unfolding l using assms(1,2) by simp
  ultimately have "delivered blk src chain ?lo (listener_run l evs)"
    using assms(4,5) by (intro listener_run_delivered)
  with q show ?thesis by (simp add: listener_run_query)
qed

section \<open>What the listener reports to the health status\<close>

text \<open>A run reports every state it fetches, in their order, and nothing for a failed query or a stopped loop.\<close>

fun listener_reports :: "'l listener \<Rightarrow> 'l levent list \<Rightarrow> report list" where
  "listener_reports l [] = []"
| "listener_reports l (Done # evs) = listener_reports (listener_step l Done) evs"
| "listener_reports l (Trigger tk # evs) =
     (case fetchState tk of
        Inr state \<Rightarrow> if stopped l then [] else [Indexer (Index state) (time_Unix (BlockTimestamp state))]
      | Inl e \<Rightarrow> []) @ listener_reports (listener_step l (Trigger tk)) evs"

text \<open>The last state fetched by a run, \<open>s\<close> being the one before it.\<close>

fun last_fetched :: "db_state \<Rightarrow> 'l listener \<Rightarrow> 'l levent list \<Rightarrow> db_state" where
  "last_fetched s l [] = s"
| "last_fetched s l (Done # evs) = last_fetched s (listener_step l Done) evs"
| "last_fetched s l (Trigger tk # evs) =
     last_fetched (case fetchState tk of Inr state \<Rightarrow> if stopped l then s else state | Inl e \<Rightarrow> s)
       (listener_step l (Trigger tk)) evs"

lemma run_reports_append: "run_reports st (rs @ rs') = run_reports (run_reports st rs) rs'"
  by (simp add: run_reports_def)

lemma listener_step_hstatus:
  "hstatus (listener_step l ev) = run_reports (hstatus l) (listener_reports l [ev])"
  by (cases ev)
    (simp_all add: listener_step_def poll_def poll_logs_def reportState_def run_reports_def Let_def split: sum.split)

lemma listener_reports_Cons: "listener_reports l (ev # evs) = listener_reports l [ev] @ listener_reports (listener_step l ev) evs"
  by (cases ev) simp_all

lemma listener_run_hstatus: "hstatus (listener_run l evs) = run_reports (hstatus l) (listener_reports l evs)"
proof (induction evs arbitrary: l)
  case Nil
  show ?case by (simp add: listener_run_def run_reports_def)
next
  case (Cons ev evs)
  have "listener_run l (ev # evs) = listener_run (listener_step l ev) evs" by (simp add: listener_run_def)
  with Cons show ?case
    by (simp only: listener_reports_Cons [of l ev evs] run_reports_append listener_step_hstatus)
qed

lemma last_block_Cons:
  "last_block (r # rs) = (case last_block rs of None \<Rightarrow> last_block [r] | Some bt \<Rightarrow> Some bt)"
  by (cases r) (simp_all split: option.split)

lemma last_block_reports:
  "last_block (Indexer (Index s) (time_Unix (BlockTimestamp s)) # listener_reports l evs) =
     Some (Index (last_fetched s l evs), time_Unix (BlockTimestamp (last_fetched s l evs)))"
proof (induction s l evs rule: last_fetched.induct)
  case (3 s l tk evs)
  then show ?case
    by (cases "fetchState tk"; cases "stopped l") (simp_all add: last_block_Cons split: option.split_asm)
qed simp_all

text \<open>The client's report of its start falls anywhere between those of the listener.\<close>

lemma shuffles_Started:
  assumes "rs \<in> shuffles [Started] xs"
  shows "Started \<in> set rs \<and> last_block rs = last_block xs"
  using assms
proof (induction xs arbitrary: rs)
  case (Cons x xs)
  then consider "rs = Started # x # xs" | rs' where "rs = x # rs'" "rs' \<in> shuffles [Started] xs"
    by auto
  then show ?case
  proof cases
    case 1
    then show ?thesis by (simp split: option.split)
  next
    case 2
    with Cons.IH [OF 2(2)] show ?thesis by (simp add: last_block_Cons [of x])
  qed
qed simp

section \<open>Properties\<close>

text \<open>
  C10. Started with an interval that passed the startup check, the collector pushes exactly the logs of
  the FlareTeeManager with the selector's topic in a gap-free window of blocks, each once and in block order, whatever
  queries fail and whenever it stops. The window begins \<open>startInterval\<close> blocks behind the first state seen (at 0 at the
  lowest), and while the collector runs it ends at the last block it has fetched.
\<close>

theorem collector_exactly_once:
  assumes "0 \<le> sint startInterval" and "0 \<le> sint (Index state)"
    and "listener_start flareTeeManager sel st startInterval ctxDone (Inr state) = Ok l"
    and "sorted (map blk chain)" and "good_events blk src chain (sint (Index state)) evs"
  shows "\<exists>hi. max 0 (sint (Index state) - sint startInterval) \<le> hi \<and>
      hi \<le> sint (From (listener_run l evs)) \<and>
      (\<not> stopped (listener_run l evs) \<longrightarrow> hi = sint (From (listener_run l evs))) \<and>
      concat (sent (listener_run l evs)) =
        in_window blk (max 0 (sint (Index state) - sint startInterval)) hi (events_of src flareTeeManager sel chain)"
  using listener_started [OF assms] by (auto simp: delivered_def)

text \<open>A run with a failed query and a successful one.\<close>

definition sample_logs :: "int list" where
  "sample_logs = [7, 8, 9, 12]"

definition sample_src :: "int \<Rightarrow> address \<times> hash" where
  "sample_src n = (if n = 9 then (2, 1) else (1, 1))"

lemma sample_mine: "events_of sample_src 1 1 sample_logs = [7, 8, 12]"
  by (simp add: events_of_def sample_src_def sample_logs_def)

definition sample_tick :: "int \<Rightarrow> bool \<Rightarrow> int tick" where
  "sample_tick n up =
     \<lparr>fetchState = (if up then Inr \<lparr>Index = word_of_int n, BlockTimestamp = 0\<rparr> else Inl CtxErr),
      fetchLogs = (\<lambda>p. Inr (in_window id (sint (lp_From p)) (sint (lp_To p))
        (events_of sample_src (lp_Address p) (lp_Topic0 p) sample_logs))), sends = True, clk = int\<rparr>"

definition sample_events :: "int levent list" where
  "sample_events = [Trigger (sample_tick 0 False), Trigger (sample_tick 15 True)]"

definition sample_listener :: "int listener" where
  "sample_listener =
     \<lparr>qAddress = 1, qTopic0 = 1, From = windowStart 10 3, To = 10, stateDamper = newDamper ''fetching state'',
      logsDamper = newDamper ''fetching logs'', hstatus = reportState None \<lparr>Index = 10, BlockTimestamp = 0\<rparr>,
      sent = [], stopped = False, lines = []\<rparr>"

lemma sample_events_good: "good_events id sample_src sample_logs 10 sample_events"
  by (simp add: sample_events_def sample_tick_def honest_def not_behind_def)

lemma sample_listener_start:
  "listener_start 1 1 None 3 False (Inr \<lparr>Index = 10, BlockTimestamp = 0\<rparr>) = Ok sample_listener"
  by (simp add: listener_start_def sample_listener_def)

lemma collector_exactly_once_witness:
  "\<exists>hi. hi \<le> sint (From (listener_run sample_listener sample_events)) \<and>
     concat (sent (listener_run sample_listener sample_events)) = in_window id 7 hi [7, 8, 12]"
proof -
  have "0 \<le> sint (3 :: i64)" "0 \<le> sint (Index \<lparr>Index = 10, BlockTimestamp = 0\<rparr>)"
    "sorted (map id sample_logs)" "good_events id sample_src sample_logs (sint (Index \<lparr>Index = 10, BlockTimestamp = 0\<rparr>)) sample_events"
    using sample_events_good by (simp_all add: sample_logs_def)
  from collector_exactly_once [OF this(1,2) sample_listener_start this(3,4)]
  show ?thesis by (auto simp: sample_mine)
qed

text \<open>
  C34. Whatever has failed before, one tick whose queries succeed and whose send goes through delivers everything
  pending: what the collector has sent by then is all the logs from the lower bound of the first window up to the
  indexer's last block, and it goes on running.
\<close>

theorem good_tick_catches_up:
  assumes "0 \<le> sint startInterval" and "0 \<le> sint (Index state)"
    and "listener_start flareTeeManager sel st startInterval ctxDone (Inr state) = Ok l"
    and "sorted (map blk chain)" and "good_events blk src chain (sint (Index state)) (evs @ [Trigger tk])"
    and "\<not> stopped (listener_run l evs)" and "fetchState tk = Inr now"
    and "fetchLogs tk ((params (listener_run l evs))\<lparr>lp_To := Index now\<rparr>) = Inr logs" and "sends tk"
  shows "concat (sent (listener_run l (evs @ [Trigger tk]))) =
      in_window blk (max 0 (sint (Index state) - sint startInterval)) (sint (Index now))
        (events_of src flareTeeManager sel chain) \<and>
    \<not> stopped (listener_run l (evs @ [Trigger tk]))"
proof -
  have run: "listener_run l (evs @ [Trigger tk]) = listener_step (listener_run l evs) (Trigger tk)"
    by (simp add: listener_run_def)
  have "From (listener_run l (evs @ [Trigger tk])) = Index now" "\<not> stopped (listener_run l (evs @ [Trigger tk]))"
    using good_tick [OF assms(6-9)] by (simp_all add: run)
  with listener_started [OF assms(1-5)] show ?thesis
    by (auto simp: delivered_def)
qed

lemma good_tick_catches_up_witness:
  "concat (sent (listener_run sample_listener sample_events)) = in_window id 7 15 [7, 8, 12]"
proof -
  have events: "sample_events = [Trigger (sample_tick 0 False)] @ [Trigger (sample_tick 15 True)]"
    by (simp add: sample_events_def)
  let ?l = "listener_run sample_listener [Trigger (sample_tick 0 False)]"
  have "0 \<le> sint (3 :: i64)" "0 \<le> sint (Index \<lparr>Index = 10, BlockTimestamp = 0\<rparr>)" "sorted (map id sample_logs)"
    "good_events id sample_src sample_logs (sint (Index \<lparr>Index = 10, BlockTimestamp = 0\<rparr>))
      ([Trigger (sample_tick 0 False)] @ [Trigger (sample_tick 15 True)])"
    using sample_events_good unfolding events by (simp_all add: sample_logs_def)
  moreover have "\<not> stopped ?l"
    by (simp add: listener_run_def listener_step_def sample_listener_def poll_def sample_tick_def Let_def)
  moreover have "fetchState (sample_tick 15 True) = Inr \<lparr>Index = 15, BlockTimestamp = 0\<rparr>"
    "fetchLogs (sample_tick 15 True) ((params ?l)\<lparr>lp_To := Index \<lparr>Index = 15, BlockTimestamp = 0\<rparr>\<rparr>) =
      Inr (in_window id (sint (From ?l)) 15 (events_of sample_src (qAddress ?l) (qTopic0 ?l) sample_logs))"
    "sends (sample_tick 15 True)"
    by (simp_all add: sample_tick_def params_def)
  ultimately show ?thesis
    using good_tick_catches_up [OF _ _ sample_listener_start, of id sample_logs sample_src "[Trigger (sample_tick 0 False)]"]
    by (simp add: events sample_mine)
qed

text \<open>
  C33. However often a query fails in a row, the damper logs at the error level at the first failure and
  then only after a summary interval since the error line before.
\<close>

theorem error_lines_limited:
  "successively spaced (error_times (newDamper name) fs) \<and>
   failures (fst (fail_run (newDamper name) fs)) = length fs \<and>
   (case snd (fail_run (newDamper name) fs) of [] \<Rightarrow> fs = [] | l # ls \<Rightarrow> level l = ErrorLevel)"
proof (cases fs)
  case Nil
  then show ?thesis by (simp add: newDamper_def)
next
  case (Cons f gs)
  obtain e now1 now2 where f: "f = (e, now1, now2)" by (metis surj_pair)
  let ?d = "(newDamper name)\<lparr>failures := 1, first := now1, lastErr := now1\<rparr>"
  have "fst (fail (newDamper name) e now1 now2) = ?d"
    by (simp add: fail_first newDamper_def)
  moreover have "successively spaced ((now1, lastErr ?d) # error_times ?d gs)"
    by (rule error_times_spaced) simp
  ultimately show ?thesis
    using Cons f by (simp add: Let_def fail_first newDamper_def fail_run_failures)
qed

text \<open>
  C32. The readiness probe tells how old the last block is that the collector fetched: its reports are exactly the
  states of its successful queries, and wherever the report of the client's start falls between them, the
  probe succeeds exactly when the block of the last state fetched is within the limit of the configuration. While the
  database fails nothing is reported, so that the block's age goes on growing.
\<close>

theorem readiness_follows_indexer:
  assumes "listener_start flareTeeManager sel (NewStatus lag) startInterval ctxDone (Inr state) = Ok l"
    and "rs \<in> shuffles [Started] (Indexer (Index state) (time_Unix (BlockTimestamp state)) # listener_reports l evs)"
  shows "hstatus (listener_run l evs) =
      run_reports (NewStatus lag) (Indexer (Index state) (time_Unix (BlockTimestamp state)) # listener_reports l evs) \<and>
    (Ready now (run_reports (NewStatus lag) rs) = None \<longleftrightarrow>
      time_Unix (BlockTimestamp (last_fetched state l evs)) \<noteq> 0 \<and>
      max (time_Sub now (time_Unix (BlockTimestamp (last_fetched state l evs)))) 0 \<le> lag)"
proof -
  let ?r = "Indexer (Index state) (time_Unix (BlockTimestamp state))"
  have "hstatus l = run_reports (NewStatus lag) [?r]"
    using assms(1) by (auto simp: listener_start_def reportState_def run_reports_def)
  then have "hstatus (listener_run l evs) = run_reports (NewStatus lag) ([?r] @ listener_reports l evs)"
    by (simp only: listener_run_hstatus run_reports_append)
  moreover from shuffles_Started [OF assms(2)] have "Started \<in> set rs"
    "last_block rs = Some (Index (last_fetched state l evs), time_Unix (BlockTimestamp (last_fetched state l evs)))"
    unfolding last_block_reports by simp_all
  ultimately show ?thesis by (auto simp: NewStatus_def run_reports_Some Ready_None)
qed

text \<open>A run in which the second query for the state fails: the probe goes by the block of the first.\<close>

lemma readiness_follows_indexer_witness:
  "let l = sample_listener\<lparr>hstatus := reportState (NewStatus (30 * second)) \<lparr>Index = 10, BlockTimestamp = 1000\<rparr>\<rparr>;
       rs = [Indexer 10 (time_Unix 1000), Started] in
     Ready (time_Unix 1030) (run_reports (NewStatus (30 * second)) rs) = None \<and>
     Ready (time_Unix 1031) (run_reports (NewStatus (30 * second)) rs) \<noteq> None \<and>
     listener_reports l [Trigger (sample_tick 0 False)] = []"
proof -
  let ?l = "sample_listener\<lparr>hstatus := reportState (NewStatus (30 * second)) \<lparr>Index = 10, BlockTimestamp = 1000\<rparr>\<rparr>"
  have start: "listener_start 1 1 (NewStatus (30 * second)) 3 False (Inr \<lparr>Index = 10, BlockTimestamp = 1000\<rparr>) = Ok ?l"
    by (simp add: listener_start_def sample_listener_def)
  have none: "listener_reports ?l [Trigger (sample_tick 0 False)] = []" by (simp add: sample_tick_def)
  then have "[Indexer 10 (time_Unix 1000), Started] \<in> shuffles [Started]
      (Indexer (Index \<lparr>Index = 10, BlockTimestamp = 1000\<rparr>) (time_Unix (BlockTimestamp \<lparr>Index = 10, BlockTimestamp = 1000\<rparr>))
        # listener_reports ?l [Trigger (sample_tick 0 False)])" by simp
  note ready = conjunct2 [OF readiness_follows_indexer [OF start this]]
  have "last_fetched \<lparr>Index = 10, BlockTimestamp = 1000\<rparr> ?l [Trigger (sample_tick 0 False)] = \<lparr>Index = 10, BlockTimestamp = 1000\<rparr>"
    by (simp add: sample_tick_def)
  with ready none show ?thesis
    by (simp add: Let_def time_Unix_def time_Sub_def min_duration_def max_duration_def del: not_None_eq)
qed

text \<open>
  The first window never starts below block 0 and never wraps around, for every interval the startup
  check lets through.
\<close>

lemma window_start_exact:
  assumes "0 \<le> sint startInterval"
  shows "sint (windowStart idx startInterval) = max 0 (sint idx - sint startInterval)"
  using assms by (rule windowStart_no_wrap)

lemma window_start_exact_witness: "sint (windowStart 40 100) = 0 \<and> sint (windowStart 140 100) = 40"
  using window_start_exact [of 100 40] window_start_exact [of 100 140] by simp

end
