(* ===== verification/Sender.thy ===== *)
theory Sender
  imports Processor
begin

text \<open>
  The sender, \<open>internal/sender/sender.go\<close>: it takes processed instructions from a channel and
  posts each of them to every TEE machine it is addressed to, with that machine's signature.

  \<open>call.PostWithRetry\<close> is a parameter; the choice of the HTTP transport (guarded against SSRF
  unless \<open>allowUnsafeURLs\<close>) is kept as a value. Log lines are left out.
\<close>

section \<open>One message\<close>

text \<open>\<open>instruction.Instruction\<close>, the body of the request.\<close>

record wire_instruction =
  Data :: data
  Signature :: bytes

definition PrepareInstruction :: "base \<Rightarrow> int \<Rightarrow> (wire_instruction \<times> string) res" where
  "PrepareInstruction ib j =
     (if j < 0 \<or> j \<ge> int (length (Tees ib)) then
        Fail (Errorf ''invalid tee index %d. Should be in [0,%d)'' [AInt j, AInt (int (length (Tees ib)))])
      else
        let d = (GeneralData ib)\<lparr>TeeID := TeeId (Tees ib ! nat j)\<rparr>;
            url = Url (Tees ib ! nat j)
        in if nat j < length (Signatures ib) then Ok (\<lparr>Data = d, Signature = Signatures ib ! nat j\<rparr>, url)
           else Panic ''index out of range'')"

text \<open>What a machine answers; it is only logged.\<close>

record receipt =
  InstructionHash :: hash
  Sequence :: u64
  ReceiptSignature :: bytes
  AdditionalVariableMessageHash :: hash
  ReceiptTimestamp :: u64
  VoteHash :: hash

record signed_receipt =
  Receipt :: receipt
  ReceiverSignature :: bytes

definition sendTimeout :: duration where
  "sendTimeout = 5 * second"

definition maxRespSize :: int where
  "maxRespSize = 10240"

definition sendRetry :: retry_params where
  "sendRetry = \<lparr>Attempts = 3, Delay = 10 * second, Multiplier = 0, Jitter = 0, RetryTimeout = minute\<rparr>"

definition newTransport :: "bool \<Rightarrow> transport" where
  "newTransport allowUnsafe = (if allowUnsafe then DefaultTransport else SafeTransport)"

definition SendToTEE ::
    "('x, wire_instruction, signed_receipt) poster \<Rightarrow> string \<Rightarrow> wire_instruction \<Rightarrow> transport \<Rightarrow> ('x, unit) act" where
  "SendToTEE postWithRetry url instr tr =
     bindA (postWithRetry (url @ ''/instruction'') ('''', '''') instr
              \<lparr>CallTimeout = sendTimeout, MaxResponseSize = maxRespSize, Transport = Some tr\<rparr> [] sendRetry)
       (\<lambda>_. retA ())"

section \<open>The loop\<close>

text \<open>
  The goroutine of one machine. It has no recover: a panic in it ends the process. An error is
  logged and goes no further.
\<close>

definition send_one ::
    "('x, wire_instruction, signed_receipt) poster \<Rightarrow> transport \<Rightarrow> base \<Rightarrow> int \<Rightarrow> ('x, unit) act" where
  "send_one postWithRetry tr ib j x =
     (case PrepareInstruction ib j of
        Fail e \<Rightarrow> (Ok (), x)
      | Panic p \<Rightarrow> (Panic p, x)
      | Ok (msg, url) \<Rightarrow>
          (case SendToTEE postWithRetry url msg tr x of
             (Panic p, x') \<Rightarrow> (Panic p, x')
           | (_, x') \<Rightarrow> (Ok (), x')))"

text \<open>\<open>for j := range instr.Tees\<close>: the goroutines started for an instruction.\<close>

definition fan_out :: "base \<Rightarrow> (base \<times> int) list" where
  "fan_out ib = map (\<lambda>j. (ib, int j)) [0..<length (Tees ib)]"

text \<open>The select of the loop: the context ends, the channel closes, or an instruction arrives.\<close>

datatype recv = CtxDone | ChanClosed | Recv base

fun sender_Run :: "recv list \<Rightarrow> (base \<times> int) list" where
  "sender_Run [] = []"
| "sender_Run (CtxDone # evs) = []"
| "sender_Run (ChanClosed # evs) = []"
| "sender_Run (Recv ib # evs) = fan_out ib @ sender_Run evs"

fun received :: "recv list \<Rightarrow> base list" where
  "received (Recv ib # evs) = ib # received evs"
| "received evs = []"

section \<open>What is sent\<close>

lemma PrepareInstruction_Ok_iff:
  "PrepareInstruction ib j = Ok (msg, url) \<longleftrightarrow>
     0 \<le> j \<and> nat j < length (Tees ib) \<and> nat j < length (Signatures ib) \<and>
     msg = \<lparr>Data = (GeneralData ib)\<lparr>TeeID := TeeId (Tees ib ! nat j)\<rparr>, Signature = Signatures ib ! nat j\<rparr> \<and>
     url = Url (Tees ib ! nat j)"
  by (auto simp: PrepareInstruction_def Let_def)

lemma PrepareInstruction_panic_iff:
  "(\<exists>p. PrepareInstruction ib j = Panic p) \<longleftrightarrow> 0 \<le> j \<and> nat j < length (Tees ib) \<and> length (Signatures ib) \<le> nat j"
  by (auto simp: PrepareInstruction_def Let_def)

lemma fan_out_index: "(b, j) \<in> set (fan_out ib) \<longleftrightarrow> b = ib \<and> 0 \<le> j \<and> nat j < length (Tees ib)"
  by (auto simp: fan_out_def image_iff intro!: bexI [of _ "nat j"])

lemma sender_Run_received: "sender_Run evs = concat (map fan_out (received evs))"
  by (induction evs rule: sender_Run.induct) auto

text \<open>
  A signed instruction is prepared for each of its machines, never with a panic, and the message
  for a machine carries a valid signature of the hash of exactly the data in the message.
\<close>

lemma signed_prepared:
  assumes "signed hashFor chainID valid ib" and "0 \<le> j" and "nat j < length (Tees ib)"
  obtains msg h where "PrepareInstruction ib j = Ok (msg, Url (Tees ib ! nat j))"
    and "Data msg = (GeneralData ib)\<lparr>TeeID := TeeId (Tees ib ! nat j)\<rparr>"
    and "hashFor chainID (Data msg) = Inr h" and "valid h (Signature msg)"
proof -
  let ?msg = "\<lparr>Data = (GeneralData ib)\<lparr>TeeID := TeeId (Tees ib ! nat j)\<rparr>, Signature = Signatures ib ! nat j\<rparr>"
  from signed_nth [OF assms(1,3)] obtain h
    where "hashFor chainID (Data ?msg) = Inr h" "valid h (Signature ?msg)"
    by (auto simp: sig_for_def)
  moreover have "PrepareInstruction ib j = Ok (?msg, Url (Tees ib ! nat j))"
    using assms signed_length [OF assms(1)] by (simp add: PrepareInstruction_Ok_iff)
  ultimately show ?thesis using that by simp
qed

lemma send_budget: "worst_schedule sendTimeout sendRetry \<le> of_int (RetryTimeout sendRetry)"
  by (simp add: worst_schedule_def sendTimeout_def sendRetry_def upt_rec)

section \<open>Properties\<close>

text \<open>
  Preparing the message of a machine panics, which would end the program, exactly when the
  instruction has fewer signatures than the machine's position needs; an index outside the machines
  is an error.
\<close>

lemma prepare_panics_iff:
  "((\<exists>p. PrepareInstruction ib j = Panic p) \<longleftrightarrow> 0 \<le> j \<and> nat j < length (Tees ib) \<and> length (Signatures ib) \<le> nat j) \<and>
   ((\<exists>e. PrepareInstruction ib j = Fail e) \<longleftrightarrow> j < 0 \<or> int (length (Tees ib)) \<le> j)"
  by (auto simp: PrepareInstruction_def Let_def)

text \<open>
  Until it stops, the sender starts exactly one goroutine per machine of every instruction it
  receives, in the order of arrival.
\<close>

lemma sender_fans_out:
  "sender_Run evs = concat (map (\<lambda>ib. map (\<lambda>j. (ib, int j)) [0..<length (Tees ib)]) (received evs))"
  by (simp add: sender_Run_received fan_out_def [abs_def])

end
