(* ===== verification/Pipeline.thy ===== *)
theory Pipeline
  imports Router Collector Sender
begin

text \<open>
  The running relay as a state machine: the collector's listener, the router's loop, the
  goroutines that process instructions, the workers of the FDC queues and the sender, each taking
  its steps in any order. It is the composition that \<open>Client.Run\<close> in
  \<open>internal/client/client.go\<close> starts.

  A goroutine's effect on what is shared is one send on the out channel, at its end; so its run is
  one step, in a world that may be any. The channels are unbounded here: a full channel of the
  program only delays a step.
\<close>

section \<open>States and steps\<close>

text \<open>
  \<open>polls\<close> records the events of the listener's loop so far, \<open>taken\<close> counts the logs the router has handled of those sent, \<open>relayed\<close> the instructions the
  sender has taken of those in the out channel; \<open>dispatched\<close> is what the router has started. An instruction
  that waits in a queue has a number of attempts left. \<open>gone\<close> records the instructions that ended without a message,
  with how the code ended them.
\<close>

datatype fate = Finished | Failed error | Panicked string

fun fate_of :: "unit res \<Rightarrow> fate" where
  "fate_of (Ok u) = Finished"
| "fate_of (Fail e) = Failed e"
| "fate_of (Panic p) = Panicked p"

record 'r sys =
  lst :: "'r db_log listener"
  polls :: "'r db_log levent list"
  taken :: nat
  dispatched :: "(proc \<times> base) multiset"
  running :: "(proc \<times> base) multiset"
  waiting :: "(nat \<times> base) multiset"
  outc :: "base list"
  relayed :: nat
  gone :: "(base \<times> fate) multiset"

definition sys_start :: "'r db_log listener \<Rightarrow> 'r sys" where
  "sys_start l = \<lparr>lst = l, polls = [], taken = 0, dispatched = {#}, running = {#}, waiting = {#}, outc = [], relayed = 0,
     gone = {#}\<rparr>"

definition sent_logs :: "'r sys \<Rightarrow> 'r db_log list" where
  "sent_logs s = concat (sent (lst s))"

text \<open>What is left of an instruction that ended: nothing when it went into the channel, or its fate.\<close>

definition ended :: "base list \<Rightarrow> 'x pst \<Rightarrow> unit res \<Rightarrow> (base \<times> fate) multiset" where
  "ended out t res = (if ps_out t = out then {#(ps_ib t, fate_of res)#} else {#})"

text \<open>
  The worker of a queue takes an instruction out when the handler succeeds or its attempts, \<open>max_attempts\<close> in
  total, are used up, and keeps it otherwise, as the README documents the queue, which is a library.
\<close>

inductive sys_step ::
    "op_lib \<Rightarrow> ('r db_log \<Rightarrow> error + 'c) \<Rightarrow> ('c \<Rightarrow> error + event) \<Rightarrow> ('x, 'k) relay \<Rightarrow> router
      \<Rightarrow> 'r sys \<Rightarrow> 'r sys \<Rightarrow> bool"
  for ol convert parse R r where
  Poll: "sys_step ol convert parse R r s (s\<lparr>lst := listener_step (lst s) ev, polls := polls s @ [ev]\<rparr>)"
| HandleLog: "taken s < length (sent_logs s) \<Longrightarrow>
    Router_Handle ol convert parse r (sent_logs s ! taken s) = Inr (Some pb) \<Longrightarrow>
    sys_step ol convert parse R r s
      (s\<lparr>taken := Suc (taken s), dispatched := add_mset pb (dispatched s), running := add_mset pb (running s)\<rparr>)"
| SkipLog: "taken s < length (sent_logs s) \<Longrightarrow>
    dispatched_of ol convert parse r (sent_logs s ! taken s) = None \<Longrightarrow>
    sys_step ol convert parse R r s (s\<lparr>taken := Suc (taken s)\<rparr>)"
| Goroutine: "running s = add_mset (p, b) M \<Longrightarrow> p \<noteq> FDCProcessor \<Longrightarrow>
    goroutine (Process R r p) \<lparr>ps_ib = b, ps_out = outc s, ps_env = x\<rparr> = (u, t) \<Longrightarrow>
    sys_step ol convert parse R r s (s\<lparr>running := M, outc := ps_out t,
      gone := gone s + ended (outc s) t (fst (Process R r p \<lparr>ps_ib = b, ps_out = outc s, ps_env = x\<rparr>))\<rparr>)"
| Enqueue: "running s = add_mset (FDCProcessor, b) M \<Longrightarrow>
    Process R r FDCProcessor \<lparr>ps_ib = b, ps_out = outc s, ps_env = x\<rparr> = (Ok u, t) \<Longrightarrow>
    sys_step ol convert parse R r s (s\<lparr>running := M,
      waiting := add_mset (max_attempts (fdcLib R) (fdcProcessor r) (ps_ib t), ps_ib t) (waiting s), outc := ps_out t\<rparr>)"
| NotQueued: "running s = add_mset (FDCProcessor, b) M \<Longrightarrow>
    Process R r FDCProcessor \<lparr>ps_ib = b, ps_out = outc s, ps_env = x\<rparr> = (e, t) \<Longrightarrow> e \<noteq> Ok () \<Longrightarrow>
    sys_step ol convert parse R r s (s\<lparr>running := M, outc := ps_out t, gone := gone s + ended (outc s) t e\<rparr>)"
| Attempt: "waiting s = add_mset (n, b) M \<Longrightarrow>
    queued_handler R r \<lparr>ps_ib = b, ps_out = outc s, ps_env = x\<rparr> = (res, t) \<Longrightarrow> res = Ok () \<or> n \<le> 1 \<Longrightarrow>
    sys_step ol convert parse R r s
      (s\<lparr>waiting := M, outc := ps_out t, gone := gone s + ended (outc s) t res\<rparr>)"
| Retry: "waiting s = add_mset (n, b) M \<Longrightarrow>
    queued_handler R r \<lparr>ps_ib = b, ps_out = outc s, ps_env = x\<rparr> = (res, t) \<Longrightarrow> res \<noteq> Ok () \<Longrightarrow> 1 < n \<Longrightarrow>
    sys_step ol convert parse R r s (s\<lparr>waiting := add_mset (n - 1, ps_ib t) M, outc := ps_out t\<rparr>)"
| Relay: "relayed s < length (outc s) \<Longrightarrow>
    sys_step ol convert parse R r s (s\<lparr>relayed := Suc (relayed s)\<rparr>)"

inductive_cases sys_stepE: "sys_step ol convert parse R r s t"

inductive sys_reach ::
    "op_lib \<Rightarrow> ('r db_log \<Rightarrow> error + 'c) \<Rightarrow> ('c \<Rightarrow> error + event) \<Rightarrow> ('x, 'k) relay \<Rightarrow> router
      \<Rightarrow> 'r db_log listener \<Rightarrow> 'r sys \<Rightarrow> bool"
  for ol convert parse R r l where
  Start: "sent l = [] \<Longrightarrow> sys_reach ol convert parse R r l (sys_start l)"
| Step: "sys_reach ol convert parse R r l s \<Longrightarrow> sys_step ol convert parse R r s t \<Longrightarrow>
    sys_reach ol convert parse R r l t"

section \<open>The log of the listener only grows\<close>

lemma poll_sent: "\<exists>more. sent (poll tk l) = sent l @ more"
  by (auto simp: poll_def poll_logs_def Let_def split: sum.split)

lemma listener_step_sent: "\<exists>more. sent (listener_step l ev) = sent l @ more"
  by (auto simp: listener_step_def poll_sent split: levent.split)

lemma sent_logs_step:
  "\<exists>more. sent_logs (s\<lparr>lst := listener_step (lst s) ev, polls := polls s @ [ev]\<rparr>) = sent_logs s @ more"
  using listener_step_sent [of "lst s" ev] by (auto simp: sent_logs_def)

lemma sys_reach_polls: "sys_reach ol convert parse R r l s \<Longrightarrow> lst s = listener_run l (polls s)"
proof (induction rule: sys_reach.induct)
  case (Step s t)
  from Step.hyps(2) Step.IH show ?case
    by (cases rule: sys_step.cases) (simp_all add: listener_run_def)
qed (simp add: sys_start_def listener_run_def)

section \<open>Origins\<close>

text \<open>What the chain fixed of an instruction: its event, its machines and its data.\<close>

definition origin :: "base \<Rightarrow> event \<times> tee_machine list \<times> data" where
  "origin b = (Event b, Tees b, chain_part (GeneralData b))"

lemma same_instruction_origin: "same_instruction a b \<longleftrightarrow> origin b = origin a"
  by (auto simp: same_instruction_def origin_def)

lemma Route_origin: "origin b = origin a \<Longrightarrow> Route ol b = Route ol a"
  by (simp add: origin_def Route_def)

text \<open>What an instruction in the out channel satisfies, by the processor it came through.\<close>

definition relay_good ::
    "op_lib \<Rightarrow> ('x, 'k) relay \<Rightarrow> router \<Rightarrow> (hash \<Rightarrow> bytes \<Rightarrow> bool) \<Rightarrow> base \<Rightarrow> bool" where
  "relay_good ol R r valid b \<longleftrightarrow>
     (case Route ol b of
        Inl e \<Rightarrow> False
      | Inr BaseProcessor \<Rightarrow> signed (hashFor R) (bp_chainID (baseProcessor r)) valid b
      | Inr FDCProcessor \<Rightarrow> fdc_good (fdcLib R) (hashFor R) (bp_chainID (baseProcessor r)) valid b
      | Inr BackupProcessor \<Rightarrow>
          backup_good (backupLib R) (hashFor R) (rsigner R) (bp_chainID (baseProcessor r)) valid b)"

lemma relay_good_signed: "relay_good ol R r valid b \<Longrightarrow> signed (hashFor R) (bp_chainID (baseProcessor r)) valid b"
proof -
  assume good: "relay_good ol R r valid b"
  then obtain p where p: "Route ol b = Inr p" by (cases "Route ol b") (simp_all add: relay_good_def)
  show ?thesis
  proof (cases p)
    case BaseProcessor
    with good p show ?thesis by (simp add: relay_good_def)
  next
    case FDCProcessor
    with good p show ?thesis by (simp add: relay_good_def fdc_good_def)
  next
    case BackupProcessor
    with good p have "backup_good (backupLib R) (hashFor R) (rsigner R) (bp_chainID (baseProcessor r)) valid b"
      by (simp add: relay_good_def)
    then show ?thesis by (rule backup_good_signed)
  qed
qed

section \<open>How an instruction ends\<close>

lemma outcome_cases:
  assumes "quiet s t \<or> emitted good s t"
  obtains "ps_out t = ps_out s" "origin (ps_ib t) = origin (ps_ib s)"
    | "ps_out t = ps_out s @ [ps_ib t]" "good (ps_ib t)" "origin (ps_ib t) = origin (ps_ib s)"
  using assms by (auto simp: quiet_def emitted_def same_instruction_origin)

lemma in_ended: "bf \<in># ended out t res \<Longrightarrow> bf = (ps_ib t, fate_of res) \<and> ps_out t = out"
  by (simp add: ended_def split: if_splits)

lemma fate_of_Finished: "fate_of res = Finished \<longleftrightarrow> res = Ok ()"
  by (cases res) simp_all

text \<open>
  An instruction may end without an error and without a message in two ways: its verifier rejected the request, or
  this signer owns no part of the backup to restore. In any other case an error or a panic ended it.
\<close>

definition silent :: "op_lib \<Rightarrow> ('x, 'k) relay \<Rightarrow> router \<Rightarrow> base \<Rightarrow> bool" where
  "silent ol R r b \<longleftrightarrow>
     (case Route ol b of
        Inl e \<Rightarrow> False
      | Inr BaseProcessor \<Rightarrow> False
      | Inr FDCProcessor \<Rightarrow> rejected (fdcLib R) (FDC_verifiers (verifierClient R) (fdcProcessor r)) b
      | Inr BackupProcessor \<Rightarrow> unowned (backupLib R) (rsigner R) (bp_chainID (baseProcessor r)) b)"

lemma silent_iff:
  "silent ol R r b \<longleftrightarrow>
     Route ol b = Inr FDCProcessor \<and> rejected (fdcLib R) (FDC_verifiers (verifierClient R) (fdcProcessor r)) b \<or>
     Route ol b = Inr BackupProcessor \<and> unowned (backupLib R) (rsigner R) (bp_chainID (baseProcessor r)) b"
  by (auto simp: silent_def split: sum.splits proc.splits)

definition gone_ok :: "op_lib \<Rightarrow> ('x, 'k) relay \<Rightarrow> router \<Rightarrow> base \<times> fate \<Rightarrow> bool" where
  "gone_ok ol R r bf \<longleftrightarrow> (snd bf = Finished \<longrightarrow> silent ol R r (fst bf))"

text \<open>Both depend only on what the chain fixed.\<close>

lemma silent_origin: "origin b' = origin b \<Longrightarrow> silent ol R r b \<Longrightarrow> silent ol R r b'"
proof -
  assume o: "origin b' = origin b" and s: "silent ol R r b"
  then have c: "chain_part (GeneralData b') = chain_part (GeneralData b)" "Event b' = Event b" "Tees b' = Tees b"
    by (simp_all add: origin_def)
  then have "OriginalMessage (GeneralData b') = OriginalMessage (GeneralData b)" using chain_part_eqD by metis
  with c s Route_origin [OF o, of ol] show ?thesis
    by (auto simp: silent_def rejected_def asks_def unowned_def split: sum.splits proc.splits)
qed

section \<open>The contract of the relay's parts\<close>

locale relay_contract = signer_contract "rsigner R" valid
  for R :: "('x, 'k) relay" and valid +
  fixes sizeOk :: "bytes \<Rightarrow> bool"
  assumes clients: "responder (verifierClient R c) sizeOk"
begin

lemma Process_outcome:
  assumes "Process R r p s = (res, t)" and "Route ol (ps_ib s) = Inr p" and "p \<noteq> FDCProcessor"
  shows "quiet s t \<or> emitted (relay_good ol R r valid) s t"
proof -
  have step: "quiet s t \<or> emitted (relay_good ol R r valid) s t"
    if "processor (Process R r p) good" "\<And>ib. Route ol ib = Inr p \<Longrightarrow> good ib \<Longrightarrow> relay_good ol R r valid ib" for good
  proof -
    from processor.process_emits [OF that(1), of s] assms(1) have "quiet s t \<or> emitted good s t"
      by (auto simp: wpA_def split: res.splits)
    then show ?thesis
    proof (rule emitted_mono)
      fix ib
      assume "same_instruction (ps_ib s) ib" and ib: "good ib"
      then have "Route ol ib = Route ol (ps_ib s)" by (intro Route_origin) (simp add: same_instruction_origin)
      with ib assms(2) show "relay_good ol R r valid ib" by (intro that(2)) simp_all
    qed
  qed
  show ?thesis
  proof (cases p)
    case BaseProcessor
    then have "processor (Process R r p) (signed (hashFor R) (bp_chainID (baseProcessor r)) valid)"
      by (simp add: Process_def base.processor_axioms)
    then show ?thesis by (rule step) (simp add: relay_good_def BaseProcessor)
  next
    case BackupProcessor
    then have "processor (Process R r p) (backup_good (backupLib R) (hashFor R) (rsigner R) (bp_chainID (baseProcessor r)) valid)"
      by (simp add: Process_def backup.processor_axioms)
    then show ?thesis by (rule step) (simp add: relay_good_def BackupProcessor)
  next
    case FDCProcessor
    with assms(3) show ?thesis by simp
  qed
qed

text \<open>Processing that succeeds has sent the instruction or had a reason not to.\<close>

lemma Process_fate:
  assumes "Process R r p s = (res, t)" and "p \<noteq> FDCProcessor" and "Route ol (ps_ib s) = Inr p"
    and "bf \<in># ended (ps_out s) t res"
  shows "gone_ok ol R r bf"
proof -
  from in_ended [OF assms(4)] have bf: "bf = (ps_ib t, fate_of res)" "ps_out t = ps_out s" by auto
  have "origin (ps_ib t) = origin (ps_ib s)"
    using Process_outcome [OF assms(1,3,2)] by (cases rule: outcome_cases) simp_all
  moreover have "silent ol R r (ps_ib s)" if Ok: "res = Ok ()"
  proof (cases p)
    case BaseProcessor
    with assms(1) Ok bf(2) sends_outD [OF Base_Process_not_silent] show ?thesis by (fastforce simp: Process_def)
  next
    case BackupProcessor
    with assms(1) Ok have "Backup_Process (backupLib R) (hashFor R) (sel R) (rsigner R) (baseProcessor r)
        (bk_allowUnsafeURLs (backupProcessor r)) s = (Ok (), t)" by (simp add: Process_def)
    from Backup_Process_silent [OF this bf(2)] BackupProcessor assms(3) show ?thesis by (simp add: silent_def)
  qed (use assms(2) in simp)
  ultimately show ?thesis by (auto simp: gone_ok_def bf(1) fate_of_Finished intro: silent_origin)
qed

end

lemma FDC_Process_outcome: "Process R r FDCProcessor s = (res, t) \<Longrightarrow> quiet s t"
  using FDC_Process_quiet [of "fdcLib R" "clockNow R" "queueAdd R" "fdcProcessor r" s]
  by (auto simp: Process_def wpA_def split: res.splits)

sublocale relay_contract < fdc_handler "rsigner R" valid "FDC_verifiers (verifierClient R) f" sizeOk for f
  by unfold_locales (auto simp: FDC_verifiers_def intro: responder.response_ok [OF clients])

section \<open>The invariant\<close>

text \<open>
  Every instruction the router has started is in one place: under way, in the channel, or ended. A queued one
  has at least one attempt left and at most those of its queue.
\<close>

definition origins :: "'r sys \<Rightarrow> (event \<times> tee_machine list \<times> data) multiset" where
  "origins s = image_mset (\<lambda>pb. origin (snd pb)) (running s) + image_mset (\<lambda>nb. origin (snd nb)) (waiting s)
     + image_mset origin (mset (outc s))"

definition all_origins :: "'r sys \<Rightarrow> (event \<times> tee_machine list \<times> data) multiset" where
  "all_origins s = origins s + image_mset (\<lambda>bf. origin (fst bf)) (gone s)"

definition waiting_ok :: "op_lib \<Rightarrow> ('x, 'k) relay \<Rightarrow> router \<Rightarrow> nat \<times> base \<Rightarrow> bool" where
  "waiting_ok ol R r nb \<longleftrightarrow> Route ol (snd nb) = Inr FDCProcessor \<and> 1 \<le> fst nb \<and>
     fst nb \<le> max_attempts (fdcLib R) (fdcProcessor r) (snd nb)"

definition sys_inv ::
    "op_lib \<Rightarrow> ('r db_log \<Rightarrow> error + 'c) \<Rightarrow> ('c \<Rightarrow> error + event) \<Rightarrow> ('x, 'k) relay \<Rightarrow> router
      \<Rightarrow> (hash \<Rightarrow> bytes \<Rightarrow> bool) \<Rightarrow> 'r sys \<Rightarrow> bool" where
  "sys_inv ol convert parse R r valid s \<longleftrightarrow>
     taken s \<le> length (sent_logs s) \<and>
     dispatched s = mset (List.map_filter (dispatched_of ol convert parse r) (take (taken s) (sent_logs s))) \<and>
     (\<forall>pb \<in># running s. Route ol (snd pb) = Inr (fst pb)) \<and>
     (\<forall>nb \<in># waiting s. waiting_ok ol R r nb) \<and>
     all_origins s = image_mset (\<lambda>pb. origin (snd pb)) (dispatched s) \<and>
     (\<forall>bf \<in># gone s. gone_ok ol R r bf) \<and>
     list_all (relay_good ol R r valid) (outc s) \<and> relayed s \<le> length (outc s)"

text \<open>An instruction that ended is in the channel or has a fate, whichever way it went.\<close>

lemma ended_origins:
  assumes "quiet s t \<or> emitted good s t"
  shows "image_mset (\<lambda>bf. origin (fst bf)) (ended (ps_out s) t res) + image_mset origin (mset (ps_out t)) =
    add_mset (origin (ps_ib s)) (image_mset origin (mset (ps_out s)))"
  using assms by (cases rule: outcome_cases) (simp_all add: ended_def)

lemma outcome_good:
  assumes "quiet s t \<or> emitted good s t" and "list_all good (ps_out s)"
  shows "list_all good (ps_out t) \<and> length (ps_out s) \<le> length (ps_out t)"
  using assms by (cases rule: outcome_cases) simp_all

lemma sys_inv_start: "sent l = [] \<Longrightarrow> sys_inv ol convert parse R r valid (sys_start l)"
  by (simp add: sys_inv_def sys_start_def sent_logs_def all_origins_def origins_def List.map_filter_def)

lemma sys_inv_poll:
  assumes "sys_inv ol convert parse R r valid s"
  shows "sys_inv ol convert parse R r valid (s\<lparr>lst := listener_step (lst s) ev, polls := polls s @ [ev]\<rparr>)"
proof -
  obtain more where "sent_logs (s\<lparr>lst := listener_step (lst s) ev, polls := polls s @ [ev]\<rparr>) = sent_logs s @ more"
    using sent_logs_step [of s ev] by blast
  with assms show ?thesis by (auto simp: sys_inv_def all_origins_def origins_def)
qed

lemma map_filter_take_Suc:
  "n < length xs \<Longrightarrow> List.map_filter f (take (Suc n) xs) =
     List.map_filter f (take n xs) @ (case f (xs ! n) of None \<Rightarrow> [] | Some y \<Rightarrow> [y])"
  by (simp add: take_Suc_conv_app_nth List.map_filter_def split: option.split)

lemma sent_logs_update [simp]:
  "sent_logs (s\<lparr>taken := n\<rparr>) = sent_logs s" "sent_logs (s\<lparr>dispatched := D\<rparr>) = sent_logs s"
  "sent_logs (s\<lparr>running := M\<rparr>) = sent_logs s" "sent_logs (s\<lparr>waiting := W\<rparr>) = sent_logs s"
  "sent_logs (s\<lparr>outc := out\<rparr>) = sent_logs s" "sent_logs (s\<lparr>relayed := n\<rparr>) = sent_logs s"
  "sent_logs (s\<lparr>gone := G\<rparr>) = sent_logs s"
  by (simp_all add: sent_logs_def)

lemma sys_inv_handle:
  assumes "sys_inv ol convert parse R r valid s" and "taken s < length (sent_logs s)"
    and "Router_Handle ol convert parse r (sent_logs s ! taken s) = Inr (Some pb)"
  shows "sys_inv ol convert parse R r valid
    (s\<lparr>taken := Suc (taken s), dispatched := add_mset pb (dispatched s), running := add_mset pb (running s)\<rparr>)"
proof -
  have "Route ol (snd pb) = Inr (fst pb)"
    using assms(3) by (cases pb) (auto simp: Router_Handle_Some)
  with assms show ?thesis
    by (auto simp: sys_inv_def all_origins_def origins_def map_filter_take_Suc dispatched_of_Some [THEN iffD2] add.assoc)
qed

lemma sys_inv_skip:
  assumes "sys_inv ol convert parse R r valid s" and "taken s < length (sent_logs s)"
    and "dispatched_of ol convert parse r (sent_logs s ! taken s) = None"
  shows "sys_inv ol convert parse R r valid (s\<lparr>taken := Suc (taken s)\<rparr>)"
  using assms by (auto simp: sys_inv_def all_origins_def origins_def map_filter_take_Suc)

lemma origins_subset: "sys_inv ol convert parse R r valid s \<Longrightarrow> origins s \<subseteq># image_mset (\<lambda>pb. origin (snd pb)) (dispatched s)"
  unfolding sys_inv_def all_origins_def by (metis mset_subset_eq_add_left)

text \<open>What ends moves from one place to another.\<close>

lemma moved:
  fixes N P G E :: "'a multiset"
  assumes "E + P' = add_mset x P"
  shows "N + P' + (G + E) = add_mset x (N + P + G)"
proof -
  have "N + P' + (G + E) = N + G + (E + P')" by (simp add: ac_simps)
  also have "\<dots> = add_mset x (N + P + G)" by (simp add: assms ac_simps)
  finally show ?thesis .
qed

lemma all_origins_finish:
  assumes "running s = add_mset (p, b) M"
    and "quiet \<lparr>ps_ib = b, ps_out = outc s, ps_env = x\<rparr> t \<or> emitted good \<lparr>ps_ib = b, ps_out = outc s, ps_env = x\<rparr> t"
  shows "all_origins (s\<lparr>running := M, outc := ps_out t, gone := gone s + ended (outc s) t res\<rparr>) = all_origins s"
  using moved [OF ended_origins [OF assms(2), of res],
      of "image_mset (\<lambda>pb. origin (snd pb)) M + image_mset (\<lambda>nb. origin (snd nb)) (waiting s)"
        "image_mset (\<lambda>bf. origin (fst bf)) (gone s)"]
  by (simp add: all_origins_def origins_def assms(1))

lemma all_origins_attempt:
  assumes "waiting s = add_mset (n, b) M"
    and "quiet \<lparr>ps_ib = b, ps_out = outc s, ps_env = x\<rparr> t \<or> emitted good \<lparr>ps_ib = b, ps_out = outc s, ps_env = x\<rparr> t"
  shows "all_origins (s\<lparr>waiting := M, outc := ps_out t, gone := gone s + ended (outc s) t res\<rparr>) = all_origins s"
  using moved [OF ended_origins [OF assms(2), of res],
      of "image_mset (\<lambda>pb. origin (snd pb)) (running s) + image_mset (\<lambda>nb. origin (snd nb)) M"
        "image_mset (\<lambda>bf. origin (fst bf)) (gone s)"]
  by (simp add: all_origins_def origins_def assms(1))

text \<open>A goroutine that ends: its instruction is now the last in the channel, or has its fate.\<close>

lemma sys_inv_finish:
  assumes inv: "sys_inv ol convert parse R r valid s" and run: "running s = add_mset (p, b) M"
    and out: "quiet \<lparr>ps_ib = b, ps_out = outc s, ps_env = x\<rparr> t \<or>
      emitted (relay_good ol R r valid) \<lparr>ps_ib = b, ps_out = outc s, ps_env = x\<rparr> t"
    and fate: "\<And>bf. bf \<in># ended (outc s) t res \<Longrightarrow> gone_ok ol R r bf"
  shows "sys_inv ol convert parse R r valid
    (s\<lparr>running := M, outc := ps_out t, gone := gone s + ended (outc s) t res\<rparr>)"
  using inv run outcome_good [OF out] fate unfolding sys_inv_def all_origins_finish [OF run out]
  by auto

lemma sys_inv_enqueue:
  assumes inv: "sys_inv ol convert parse R r valid s" and run: "running s = add_mset (FDCProcessor, b) M"
    and out: "quiet \<lparr>ps_ib = b, ps_out = outc s, ps_env = x\<rparr> t"
  shows "sys_inv ol convert parse R r valid (s\<lparr>running := M,
    waiting := add_mset (max_attempts (fdcLib R) (fdcProcessor r) (ps_ib t), ps_ib t) (waiting s), outc := ps_out t\<rparr>)"
proof -
  from out have t: "ps_out t = outc s" "origin (ps_ib t) = origin b"
    by (auto simp: quiet_def same_instruction_origin)
  from inv run have "Route ol b = Inr FDCProcessor" by (simp add: sys_inv_def)
  then have "waiting_ok ol R r (max_attempts (fdcLib R) (fdcProcessor r) (ps_ib t), ps_ib t)"
    by (simp add: waiting_ok_def Route_origin [OF t(2)] Suc_le_eq)
  moreover have "all_origins (s\<lparr>running := M, waiting := add_mset (max_attempts (fdcLib R) (fdcProcessor r) (ps_ib t), ps_ib t)
      (waiting s), outc := ps_out t\<rparr>) = all_origins s"
    by (simp add: all_origins_def origins_def run t)
  ultimately show ?thesis using inv run t(1) by (simp add: sys_inv_def)
qed

lemma sys_inv_attempt:
  assumes inv: "sys_inv ol convert parse R r valid s" and wait: "waiting s = add_mset (n, b) M"
    and out: "quiet \<lparr>ps_ib = b, ps_out = outc s, ps_env = x\<rparr> t \<or>
      emitted (relay_good ol R r valid) \<lparr>ps_ib = b, ps_out = outc s, ps_env = x\<rparr> t"
    and fate: "\<And>bf. bf \<in># ended (outc s) t res \<Longrightarrow> gone_ok ol R r bf"
  shows "sys_inv ol convert parse R r valid
    (s\<lparr>waiting := M, outc := ps_out t, gone := gone s + ended (outc s) t res\<rparr>)"
  using inv wait outcome_good [OF out] fate unfolding sys_inv_def all_origins_attempt [OF wait out]
  by auto

lemma origin_max_attempts: "origin b' = origin b \<Longrightarrow> max_attempts lib f b' = max_attempts lib f b"
proof -
  assume "origin b' = origin b"
  then have "chain_part (GeneralData b') = chain_part (GeneralData b)" by (simp add: origin_def)
  then have "OriginalMessage (GeneralData b') = OriginalMessage (GeneralData b)"
    by (cases "GeneralData b"; cases "GeneralData b'") (simp add: chain_part_def)
  then show ?thesis by (rule max_attempts_same)
qed

lemma sys_inv_retry:
  assumes inv: "sys_inv ol convert parse R r valid s" and wait: "waiting s = add_mset (n, b) M" and "1 < n"
    and out: "quiet \<lparr>ps_ib = b, ps_out = outc s, ps_env = x\<rparr> t"
  shows "sys_inv ol convert parse R r valid (s\<lparr>waiting := add_mset (n - 1, ps_ib t) M, outc := ps_out t\<rparr>)"
proof -
  from out have t: "ps_out t = outc s" "origin (ps_ib t) = origin b"
    by (auto simp: quiet_def same_instruction_origin)
  from inv wait have "waiting_ok ol R r (n, b)" by (simp add: sys_inv_def)
  then have "waiting_ok ol R r (n - 1, ps_ib t)"
    using \<open>1 < n\<close> by (auto simp: waiting_ok_def Route_origin [OF t(2)] origin_max_attempts [OF t(2)])
  moreover have "all_origins (s\<lparr>waiting := add_mset (n - 1, ps_ib t) M, outc := ps_out t\<rparr>) = all_origins s"
    by (simp add: all_origins_def origins_def wait t)
  ultimately show ?thesis using inv wait t(1) by (simp add: sys_inv_def)
qed

section \<open>Every reachable state keeps it\<close>

context relay_contract
begin

lemma queued_outcome:
  assumes "queued_handler R r s = (res, t)" and "Route ol (ps_ib s) = Inr FDCProcessor"
  shows "quiet s t \<or> res = Ok () \<and> emitted (relay_good ol R r valid) s t"
proof -
  let ?good = "fdc_good (fdcLib R) (hashFor R) (bp_chainID (baseProcessor r)) valid"
  have "queue_handler (queued_handler R r) ?good"
    unfolding queued_handler_def by (rule handle.queued.queue_handler_axioms)
  from queue_handler.handle_emits [OF this, of s] assms(1)
  consider "quiet s t" | "res = Ok ()" "quiet s t \<or> emitted ?good s t"
    by (auto simp: wpA_def split: res.splits)
  then show ?thesis
  proof cases
    case 2
    from 2(2) have "quiet s t \<or> emitted (relay_good ol R r valid) s t"
    proof (rule emitted_mono)
      fix ib
      assume "same_instruction (ps_ib s) ib" and ib: "?good ib"
      then have "Route ol ib = Route ol (ps_ib s)" by (intro Route_origin) (simp add: same_instruction_origin)
      with ib assms(2) show "relay_good ol R r valid ib" by (simp add: relay_good_def)
    qed
    with 2(1) show ?thesis by blast
  qed simp
qed

lemma queued_fate:
  assumes "queued_handler R r s = (res, t)" and "Route ol (ps_ib s) = Inr FDCProcessor"
    and "bf \<in># ended (ps_out s) t res"
  shows "gone_ok ol R r bf"
proof -
  from in_ended [OF assms(3)] have bf: "bf = (ps_ib t, fate_of res)" "ps_out t = ps_out s" by auto
  have "silent ol R r (ps_ib s)" if "res = Ok ()"
  proof -
    from assms(1) that have "FDC_Handle (fdcLib R) (hashFor R) (sel R) (rsigner R) (baseProcessor r)
        (FDC_verifiers (verifierClient R) (fdcProcessor r)) s = (Ok (), t)"
      by (auto simp: queued_handler_def wrapHandle_cases split: prod.splits res.splits)
    from FDC_Handle_silent [OF this bf(2)] assms(2) show ?thesis by (simp add: silent_def)
  qed
  moreover have "origin (ps_ib t) = origin (ps_ib s)"
    using queued_outcome [OF assms(1,2)] by (auto simp: quiet_def emitted_def same_instruction_origin)
  ultimately show ?thesis by (auto simp: gone_ok_def bf(1) fate_of_Finished intro: silent_origin)
qed

lemma sys_inv_step:
  assumes "sys_step ol convert parse R r s t" and "sys_inv ol convert parse R r valid s"
  shows "sys_inv ol convert parse R r valid t"
  using assms
proof (cases rule: sys_step.cases)
  case (Poll ev)
  with assms(2) show ?thesis by (simp add: sys_inv_poll)
next
  case (HandleLog pb)
  with assms(2) show ?thesis by (simp add: sys_inv_handle)
next
  case SkipLog
  with assms(2) show ?thesis by (simp add: sys_inv_skip)
next
  case (Goroutine p b M x u v)
  let ?st = "\<lparr>ps_ib = b, ps_out = outc s, ps_env = x\<rparr>"
  have run: "Process R r p ?st = (fst (Process R r p ?st), v)"
    using Goroutine(4) goroutine_snd [of "Process R r p" ?st] by (simp add: prod_eq_iff)
  have route: "Route ol (ps_ib ?st) = Inr p" using Goroutine(2) assms(2) by (simp add: sys_inv_def)
  show ?thesis
    unfolding Goroutine(1)
    using sys_inv_finish [OF assms(2) Goroutine(2) Process_outcome [OF run route Goroutine(3)],
        of "fst (Process R r p ?st)"] Process_fate [OF run Goroutine(3) route] by simp
next
  case (Enqueue b M x u v)
  show ?thesis
    unfolding Enqueue(1) by (rule sys_inv_enqueue [OF assms(2) Enqueue(2) FDC_Process_outcome [OF Enqueue(3)]])
next
  case (NotQueued b M x e v)
  have "gone_ok ol R r bf" if "bf \<in># ended (outc s) v e" for bf
    using in_ended [OF that] NotQueued(4) by (simp add: gone_ok_def fate_of_Finished)
  then show ?thesis
    unfolding NotQueued(1)
    by (rule sys_inv_finish [OF assms(2) NotQueued(2) disjI1 [OF FDC_Process_outcome [OF NotQueued(3)]]])
next
  case (Attempt n b M x res v)
  have "Route ol (ps_ib \<lparr>ps_ib = b, ps_out = outc s, ps_env = x\<rparr>) = Inr FDCProcessor"
    using Attempt(2) assms(2) by (simp add: sys_inv_def waiting_ok_def)
  from queued_outcome [OF Attempt(3) this] queued_fate [OF Attempt(3) this] show ?thesis
    unfolding Attempt(1) by (intro sys_inv_attempt [OF assms(2) Attempt(2)]) (blast, simp)
next
  case (Retry n b M x res v)
  have "Route ol (ps_ib \<lparr>ps_ib = b, ps_out = outc s, ps_env = x\<rparr>) = Inr FDCProcessor"
    using Retry(2) assms(2) by (simp add: sys_inv_def waiting_ok_def)
  from queued_outcome [OF Retry(3) this] Retry(4,5) show ?thesis
    unfolding Retry(1) by (intro sys_inv_retry [OF assms(2) Retry(2)]) blast+
next
  case Relay
  with assms(2) show ?thesis by (auto simp: sys_inv_def all_origins_def origins_def)
qed

lemma sys_reach_inv: "sys_reach ol convert parse R r l s \<Longrightarrow> sys_inv ol convert parse R r valid s"
  by (induction rule: sys_reach.induct) (auto intro: sys_inv_start sys_inv_step)

end

section \<open>The relay with its own signers and verifiers\<close>

interpretation local_relay: relay_contract
    "R\<lparr>rsigner := NewLocal utilsSign utilsDecrypt pubKeyToStruct priv,
       verifierClient := Verifier_Response sprintf execute post checkSize proveHash\<rparr>"
    "made_by utilsSign priv" "fits checkSize proveHash"
  for R :: "('x, 'k) relay" and utilsSign utilsDecrypt pubKeyToStruct priv sprintf execute post checkSize proveHash
  by unfold_locales
    (auto intro: local_signer.sign_valid verifier.response_ok)

interpretation remote_relay: relay_contract
    "R\<lparr>rsigner := NewRemote postSign postDecrypt newRequest transport execute decode creds,
       verifierClient := Verifier_Response sprintf execute' post checkSize proveHash\<rparr>"
    any_bytes "fits checkSize proveHash"
  for R :: "('x, 'k) relay" and postSign postDecrypt newRequest transport execute decode creds
    and sprintf execute' post checkSize proveHash
  by unfold_locales
    (auto intro: remote_signer.sign_valid verifier.response_ok)

end
