(* ===== verification/Client.thy ===== *)
theory Client
  imports Pipeline
begin

text \<open>
  Startup: the assembly of the relay in \<open>internal/client/client.go\<close> and the program around it,
  \<open>cmd/main/main.go\<close>, up to the point where the pipeline runs, and the order of the shutdown.

  Connecting to the database, waiting for the indexer, reading the configuration file, binding an
  address and the constructors' cryptography are parameters; the wait for the signal and log lines are left
  out. The client's record keeps the signer, which in the code its router holds.
\<close>

section \<open>The client\<close>

definition setSigner ::
    "(string \<Rightarrow> string option) \<Rightarrow> (string \<Rightarrow> error + 'k) \<Rightarrow> (string \<Rightarrow> error + string \<times> string)
      \<Rightarrow> ('k \<Rightarrow> 'x signer) \<Rightarrow> (credentials \<Rightarrow> 'x signer) \<Rightarrow> signer_cfg \<Rightarrow> error + 'x signer" where
  "setSigner lookupEnv hexToECDSA urlParse newLocal newRemote cfg =
     (if Local cfg then
        (case PrivateKeyFromEnv lookupEnv hexToECDSA (PrivateKeyVariable cfg) of
           Inl e \<Rightarrow> Inl (Wrapf ''loading private key from env: '' [] e)
         | Inr priv \<Rightarrow> Inr (newLocal priv))
      else
        (case Check urlParse (Credentials cfg) of
           Some e \<Rightarrow> Inl (Wrapf ''checking signer credentials: '' [] e)
         | None \<Rightarrow> Inr (newRemote (Credentials cfg))))"

text \<open>What startup is given from outside.\<close>

record ('x, 'k, 'p) startup =
  su_lookupEnv :: "string \<Rightarrow> string option"
  su_hexToECDSA :: "string \<Rightarrow> error + 'k"
  su_urlParse :: "string \<Rightarrow> error + string \<times> string"
  su_toHash :: "string \<Rightarrow> error + hash"
  su_ParsePubKey :: "public_key \<Rightarrow> error + 'p"
  su_PubkeyToAddress :: "'p \<Rightarrow> address"
  su_newLocal :: "'k \<Rightarrow> 'x signer"
  su_newRemote :: "credentials \<Rightarrow> 'x signer"
  su_selector :: hash

datatype component = CollectorLoop listener_args | QueueWorkers "string set" | RouterLoop | SenderLoop bool

text \<open>The client; of its wait group, the counter of the goroutines it waits for.\<close>

record 'x client =
  c_collector :: collector
  c_signer :: "'x signer"
  c_router :: router
  c_status :: "status option"
  c_unsafe :: bool
  c_running :: "component list"
  c_wg :: int

definition newWithDB :: "('x, 'k, 'p) startup \<Rightarrow> config \<Rightarrow> status option \<Rightarrow> ('x, 'x client) act" where
  "newWithDB su cfg status =
     bindA (wrapA ''could not set signer: '' []
       (liftA (setSigner (su_lookupEnv su) (su_hexToECDSA su) (su_urlParse su) (su_newLocal su) (su_newRemote su) (Signer cfg))))
     (\<lambda>sgnr. bindA (wrapA ''could not set filterer: '' []
       (NewFilterer (su_ParsePubKey su) (su_PubkeyToAddress su) (IsCosigner cfg) sgnr))
     (\<lambda>filterer. bindA (wrapA ''could not create router: '' []
       (liftA (NewRouter (su_toHash su) (su_urlParse su) (ChainID cfg) (Some (FDC cfg)) (Some filterer) (AllowUnsafeURLs cfg))))
     (\<lambda>r. retA \<lparr>c_collector = Collector_New (FlareTeeManager cfg) (StartInterval (Collector cfg)) status, c_signer = sgnr, c_router = r,
        c_status = status, c_unsafe = AllowUnsafeURLs cfg, c_running = [], c_wg = 0\<rparr>)))"

text \<open>\<open>connect\<close> is \<open>database.Connect\<close>.\<close>

definition Client_New :: "errorp \<Rightarrow> ('x, 'k, 'p) startup \<Rightarrow> config \<Rightarrow> status option \<Rightarrow> ('x, 'x client) act" where
  "Client_New connect su cfg status =
     bindA (wrapA ''could not connect to database: '' [] (checkA connect)) (\<lambda>_. newWithDB su cfg status)"

text \<open>The constructor for other repositories, without health reporting.\<close>

definition pkg_New :: "errorp \<Rightarrow> ('x, 'k, 'p) startup \<Rightarrow> config \<Rightarrow> ('x, 'x client) act" where
  "pkg_New connect su cfg = Client_New connect su cfg None"

text \<open>\<open>waitSync\<close> is \<open>database.WaitCIndexerToSync\<close>, \<open>selector\<close> the selector found when the package was initialised.\<close>

definition Collector_Run :: "(sync_params \<Rightarrow> errorp) \<Rightarrow> hash \<Rightarrow> ('x client, unit) act" where
  "Collector_Run waitSync selector =
     bindA (wrapA ''waiting for indexer to sync: '' [] (checkA (waitSync syncParams)))
       (\<lambda>_. writeA (\<lambda>c. c\<lparr>c_wg := c_wg c + 1,
         c_running := c_running c @ [CollectorLoop (listener_args_of selector (c_collector c))]\<rparr>))"

text \<open>
  The start of the router: the processors get the out channel, then every queue of the FDC processor its worker, then
  the loop begins. A queue's worker adds two goroutines to the wait group, the loop one.
\<close>

definition Router_Run_start :: "('x client, unit) act" where
  "Router_Run_start = writeA (\<lambda>c. let r = Router_SetOut (c_router c) in
     c\<lparr>c_router := r, c_wg := c_wg c + 2 * int (card (dom (f_queues (fdcProcessor r)))) + 1,
       c_running := c_running c @ [QueueWorkers (dom (f_queues (fdcProcessor r))), RouterLoop]\<rparr>)"

definition Client_Run :: "(sync_params \<Rightarrow> errorp) \<Rightarrow> hash \<Rightarrow> ('x client, unit) act" where
  "Client_Run waitSync selector =
     bindA (wrapA ''starting collector: '' [] (Collector_Run waitSync selector)) (\<lambda>_.
     bindA Router_Run_start (\<lambda>_.
     bindA (writeA (\<lambda>c. c\<lparr>c_wg := c_wg c + 1, c_running := c_running c @ [SenderLoop (c_unsafe c)]\<rparr>)) (\<lambda>_.
     writeA (\<lambda>c. c\<lparr>c_status := SetStarted (c_status c)\<rparr>))))"

section \<open>The program\<close>

definition allowUnsafeURLsEnv :: string where
  "allowUnsafeURLsEnv = ''ALLOW_UNSAFE_URLS''"

record file_config =
  Cfg :: config
  RelayCutover :: bool

text \<open>
  \<open>readTo\<close> is \<open>toml.ReadTo\<close> of the file into the struct it is given. A failed check ends the
  function; the configuration so far is returned beside the error.
\<close>

definition loadConfig ::
    "(file_config \<Rightarrow> errorp \<times> file_config) \<Rightarrow> (string \<Rightarrow> string option) \<Rightarrow> (string \<Rightarrow> error + address)
      \<Rightarrow> (file_config, unit) act" where
  "loadConfig readTo lookupEnv unmarshalText =
     bindA (writeA (\<lambda>_. \<lparr>Cfg = Default, RelayCutover = False\<rparr>)) (\<lambda>_.
     bindA (wrapA ''reading config: '' [] (\<lambda>c. case readTo c of (None, c) \<Rightarrow> (Ok (), c) | (Some e, c) \<Rightarrow> (Fail e, c))) (\<lambda>_.
     bindA (wrapA ''reading manager address from env: '' [] (\<lambda>c.
       case ApplyFlareTeeManagerEnv lookupEnv unmarshalText (Cfg c) of
         (None, g) \<Rightarrow> (Ok (), c\<lparr>Cfg := g\<rparr>) | (Some e, g) \<Rightarrow> (Fail e, c\<lparr>Cfg := g\<rparr>))) (\<lambda>_.
     bindA (readA Cfg) (\<lambda>g.
     bindA (wrapA ''checking address: '' [] (checkA (CheckAddress g))) (\<lambda>_.
     bindA (wrapA ''checking chain id: '' [] (checkA (CheckChainID g))) (\<lambda>_.
     bindA (wrapA ''checking start interval: '' [] (checkA (CheckStartInterval g))) (\<lambda>_.
     bindA (wrapA ''checking fdc queues: '' [] (checkA (CheckQueues g))) (\<lambda>_.
     bindA (wrapA ''checking health: '' [] (checkA (CheckHealth g))) (\<lambda>_.
     if lookupEnv allowUnsafeURLsEnv = Some ''true'' then writeA (\<lambda>c. c\<lparr>Cfg := (Cfg c)\<lparr>AllowUnsafeURLs := True\<rparr>\<rparr>)
     else retA ())))))))))"

definition healthWarning :: "health_cfg \<Rightarrow> string" where
  "healthWarning h =
     (if Disabled h then ''health endpoints disabled by [health] disabled = true: health probes get connection refused''
      else if Port h \<noteq> DefaultHealthPort then
        ''health port '' @ itoa (Port h) @ '' is not the default '' @ itoa DefaultHealthPort
          @ '', which the provided Dockerfile EXPOSEs: probes and port mappings must use '' @ itoa (Port h)
      else '''')"

text \<open>
  From the loaded configuration to the running pipeline. \<open>netListen\<close> is the result of binding an
  address. Every failure ends the program by a panic.
\<close>

datatype 'x boot = BootPanic string error | Booted "'x client" "server option"

definition health_status :: "config \<Rightarrow> status option" where
  "health_status cfg = (if Disabled (Health cfg) then None else NewStatus (MaxIndexerLag (Health cfg)))"

definition main_boot ::
    "(string \<Rightarrow> error + string) \<Rightarrow> errorp \<Rightarrow> (sync_params \<Rightarrow> errorp) \<Rightarrow> ('x, 'k, 'p) startup \<Rightarrow> config \<Rightarrow> 'x \<Rightarrow> 'x boot" where
  "main_boot netListen connect waitSync su cfg x =
     (case (if Disabled (Health cfg) then Inr None else map_sum id Some (Listen netListen (Address (Health cfg)))) of
        Inl e \<Rightarrow> BootPanic ''starting health server: %v'' e
      | Inr hs \<Rightarrow>
         (case Client_New connect su cfg (health_status cfg) x of
            (Fail e, _) \<Rightarrow> BootPanic ''creating client: %v'' e
          | (Panic p, _) \<Rightarrow> BootPanic ''panic'' (New p)
          | (Ok cl, _) \<Rightarrow>
             (case Client_Run waitSync (su_selector su) cl of
                (Fail e, _) \<Rightarrow> BootPanic ''running client: %v'' e
              | (Panic p, _) \<Rightarrow> BootPanic ''panic'' (New p)
              | (Ok u, cl) \<Rightarrow> Booted cl (map_option Server_Start hs))))"

text \<open>The program up to the wait for a signal.\<close>

definition main_start ::
    "(file_config \<Rightarrow> errorp \<times> file_config) \<Rightarrow> (string \<Rightarrow> error + address) \<Rightarrow> (string \<Rightarrow> error + string) \<Rightarrow> errorp \<Rightarrow> (sync_params \<Rightarrow> errorp)
      \<Rightarrow> ('x, 'k, 'p) startup \<Rightarrow> 'x \<Rightarrow> 'x boot" where
  "main_start readTo unmarshalText netListen connect waitSync su x =
     (case loadConfig readTo (su_lookupEnv su) unmarshalText \<lparr>Cfg = Default, RelayCutover = False\<rparr> of
        (Fail e, _) \<Rightarrow> BootPanic ''loading config: %v'' e
      | (Panic p, _) \<Rightarrow> BootPanic ''panic'' (New p)
      | (Ok u, cfg) \<Rightarrow> main_boot netListen connect waitSync su (Cfg cfg) x)"

text \<open>
  Before \<open>main\<close> runs, the packages that read the contract's ABI are initialised: the collector's finds the selector,
  the instructions' builds its decoder. Either failure ends the program by a panic.
\<close>

definition program_start ::
    "(string \<Rightarrow> arg list \<Rightarrow> string) \<Rightarrow> error + (string \<Rightarrow> hash option) \<Rightarrow> errorp
      \<Rightarrow> (file_config \<Rightarrow> errorp \<times> file_config) \<Rightarrow> (string \<Rightarrow> error + address) \<Rightarrow> (string \<Rightarrow> error + string) \<Rightarrow> errorp
      \<Rightarrow> (sync_params \<Rightarrow> errorp) \<Rightarrow> ('x, 'k, 'p) startup \<Rightarrow> 'x \<Rightarrow> 'x boot" where
  "program_start sprintf abi newFilterer readTo unmarshalText netListen connect waitSync su x =
     (case collector_init sprintf abi of
        Fail e \<Rightarrow> BootPanic ''panic'' e
      | Panic p \<Rightarrow> BootPanic ''panic'' (New p)
      | Ok selector \<Rightarrow>
         (case instructions_init sprintf newFilterer of
            Fail e \<Rightarrow> BootPanic ''panic'' e
          | Panic p \<Rightarrow> BootPanic ''panic'' (New p)
          | Ok u \<Rightarrow> main_start readTo unmarshalText netListen connect waitSync (su\<lparr>su_selector := selector\<rparr>) x))"

text \<open>
  After the signal: the context is cancelled, the health server closed, the pipeline's goroutines
  awaited and the file logger flushed, in this order.
\<close>

datatype shutdown_step = Cancel | CloseHealth | WaitPipeline | SyncFileLogger

definition main_shutdown :: "server option \<Rightarrow> string \<Rightarrow> errorp \<Rightarrow> errorp \<Rightarrow> shutdown_step list \<times> server option \<times> errorp" where
  "main_shutdown hs loggingFile shutdown lnClose =
     (let (closing, hs, warning) = (case hs of
            None \<Rightarrow> ([], None, None)
          | Some s \<Rightarrow> (case Server_Close shutdown lnClose s of (err, s) \<Rightarrow> ([CloseHealth], Some s, err))) in
      ([Cancel] @ closing @ [WaitPipeline] @ (if loggingFile \<noteq> '''' then [SyncFileLogger] else []), hs, warning))"

section \<open>What startup accepts\<close>

definition loaded_ok :: "config \<Rightarrow> bool" where
  "loaded_ok g \<longleftrightarrow>
     FlareTeeManager g \<noteq> 0 \<and> ChainID g \<noteq> 0 \<and> 0 \<le> sint (StartInterval (Collector g)) \<and>
     (\<forall>nq \<in> set (Queues (FDC g)). queue_ok (snd nq)) \<and>
     (Disabled (Health g) \<or> 1 \<le> Port (Health g) \<and> Port (Health g) \<le> 65535 \<and> 0 < MaxIndexerLag (Health g))"

lemma loaded_ok_checks:
  "loaded_ok g \<longleftrightarrow> CheckAddress g = None \<and> CheckChainID g = None \<and> CheckStartInterval g = None \<and>
     CheckQueues g = None \<and> CheckHealth g = None"
  by (simp add: loaded_ok_def check_iffs)

lemma loadConfig_Ok:
  "loadConfig readTo lookupEnv unmarshalText c = (Ok (), c') \<longleftrightarrow>
     (\<exists>f g. readTo \<lparr>Cfg = Default, RelayCutover = False\<rparr> = (None, f) \<and>
        ApplyFlareTeeManagerEnv lookupEnv unmarshalText (Cfg f) = (None, g) \<and> loaded_ok g \<and>
        c' = f\<lparr>Cfg := (if lookupEnv allowUnsafeURLsEnv = Some ''true'' then g\<lparr>AllowUnsafeURLs := True\<rparr> else g)\<rparr>)"
proof -
  let ?c0 = "\<lparr>Cfg = Default, RelayCutover = False\<rparr>"
  obtain re f where r: "readTo ?c0 = (re, f)" by fastforce
  obtain ae g where a: "ApplyFlareTeeManagerEnv lookupEnv unmarshalText (Cfg f) = (ae, g)" by fastforce
  show ?thesis
  proof (cases "re = None \<and> ae = None \<and> loaded_ok g")
    case True
    with r a show ?thesis
      by (auto simp: loadConfig_def loaded_ok_checks bindA_def wrapA_def mapErr_def)
  next
    case False
    have "loadConfig readTo lookupEnv unmarshalText c \<noteq> (Ok (), c')"
      using False r a
      by (auto simp: loadConfig_def bindA_Ok_iff loaded_ok_checks split: option.splits)
    with False r a show ?thesis by auto
  qed
qed

lemma newWithDB_Ok:
  assumes "newWithDB su cfg st x = (Ok cl, x')"
  obtains sgnr f fl y where "setSigner (su_lookupEnv su) (su_hexToECDSA su) (su_urlParse su) (su_newLocal su)
      (su_newRemote su) (Signer cfg) = Inr sgnr"
    and "NewFilterer (su_ParsePubKey su) (su_PubkeyToAddress su) (IsCosigner cfg) sgnr x = (Ok fl, x')"
    and "NewFDC (su_toHash su) (su_urlParse su) (Some (FDC cfg)) = Inr f"
    and "cl = \<lparr>c_collector = Collector_New (FlareTeeManager cfg) (StartInterval (Collector cfg)) st, c_signer = sgnr,
       c_router = \<lparr>Filterer = Some fl, baseProcessor = NewBase (ChainID cfg), fdcProcessor = f,
         backupProcessor = NewBackup (AllowUnsafeURLs cfg)\<rparr>,
       c_status = st, c_unsafe = AllowUnsafeURLs cfg, c_running = [], c_wg = 0\<rparr>"
  using assms
  by (auto simp: newWithDB_def bindA_Ok_iff NewRouter_Inr)

lemma Client_Run_Ok:
  "Client_Run w selector cl = (Ok (), cl') \<longleftrightarrow> w syncParams = None \<and>
     cl' = cl\<lparr>c_router := Router_SetOut (c_router cl),
       c_running := c_running cl @ [CollectorLoop (listener_args_of selector (c_collector cl)),
         QueueWorkers (dom (f_queues (fdcProcessor (c_router cl)))), RouterLoop, SenderLoop (c_unsafe cl)],
       c_wg := c_wg cl + 2 * int (card (dom (f_queues (fdcProcessor (c_router cl))))) + 3,
       c_status := SetStarted (c_status cl)\<rparr>"
  by (auto simp: Client_Run_def Collector_Run_def Router_Run_start_def Router_SetOut_def Let_def bindA_Ok_iff)

lemma Client_Run_err: "w syncParams = Some e \<Longrightarrow> Client_Run w selector cl =
    (Fail (Wrapf ''starting collector: '' [] (Wrapf ''waiting for indexer to sync: '' [] e)), cl)"
  by (simp add: Client_Run_def Collector_Run_def bindA_def wrapA_def mapErr_def)

text \<open>The health server of a configuration, serving on the address it is bound to.\<close>

definition serving :: "(string \<Rightarrow> error + string) \<Rightarrow> config \<Rightarrow> server option \<Rightarrow> bool" where
  "serving netListen cfg hs \<longleftrightarrow>
     (if Disabled (Health cfg) then hs = None
      else \<exists>bound. netListen (Address (Health cfg)) = Inr bound \<and>
        hs = Some \<lparr>srv = probe_limits, ln_addr = bound, ln_open = True, ln_served = True\<rparr>)"

lemma main_boot_Booted:
  assumes "main_boot netListen connect w su cfg x = Booted cl hs"
  obtains cl0 x' where "connect = None" and "w syncParams = None" and "newWithDB su cfg (health_status cfg) x = (Ok cl0, x')"
    and "cl = cl0\<lparr>c_router := Router_SetOut (c_router cl0),
        c_running := c_running cl0 @ [CollectorLoop (listener_args_of (su_selector su) (c_collector cl0)),
          QueueWorkers (dom (f_queues (fdcProcessor (c_router cl0)))), RouterLoop, SenderLoop (c_unsafe cl0)],
        c_wg := c_wg cl0 + 2 * int (card (dom (f_queues (fdcProcessor (c_router cl0))))) + 3,
        c_status := SetStarted (c_status cl0)\<rparr>"
    and "serving netListen cfg hs"
proof -
  let ?server = "if Disabled (Health cfg) then Inr None else map_sum id Some (Listen netListen (Address (Health cfg)))"
  obtain h where h: "?server = Inr h" using assms by (cases ?server) (simp_all add: main_boot_def)
  obtain r x' where r: "Client_New connect su cfg (health_status cfg) x = (r, x')" by fastforce
  note boot = assms [unfolded main_boot_def h r sum.case prod.case]
  then obtain cl0 where Ok: "r = Ok cl0" by (cases r) simp_all
  obtain r' cl' where r': "Client_Run w (su_selector su) cl0 = (r', cl')" by fastforce
  note boot = boot [unfolded Ok res.case r' prod.case]
  then have "r' = Ok ()" "cl' = cl" and hs: "hs = map_option Server_Start h" by (cases r'; simp)+
  with r r' Ok have new: "Client_New connect su cfg (health_status cfg) x = (Ok cl0, x')"
    and run: "Client_Run w (su_selector su) cl0 = (Ok (), cl)" by simp_all
  have hs: "serving netListen cfg hs"
  proof (cases "Disabled (Health cfg)")
    case True
    with h show ?thesis by (auto simp: serving_def hs)
  next
    case False
    with h obtain s where s: "Listen netListen (Address (Health cfg)) = Inr s" and "h = Some s"
      by (cases "Listen netListen (Address (Health cfg))") simp_all
    from s obtain bound where "netListen (Address (Health cfg)) = Inr bound"
      and "s = \<lparr>srv = probe_limits, ln_addr = bound, ln_open = True, ln_served = False\<rparr>"
      unfolding Listen_Inr by blast
    with False \<open>h = Some s\<close> show ?thesis
      by (simp add: serving_def hs Server_Start_fresh)
  qed
  from new have "connect = None" "newWithDB su cfg (health_status cfg) x = (Ok cl0, x')"
    by (auto simp: Client_New_def bindA_Ok_iff)
  with run [unfolded Client_Run_Ok] hs that show ?thesis by blast
qed

section \<open>A cosigner whose remote signer cannot be asked for its key\<close>

lemma newWithDB_unsendable:
  assumes "IsCosigner cfg" and "\<not> Local (Signer cfg)" and "\<not> sendable (Credentials (Signer cfg))"
    and "CanonicalHeaderKey (KeyName (Credentials (Signer cfg))) \<noteq> ''Content-Type''"
    and "su_newRemote su = NewRemote postSign postDecrypt newRequest transport execute decode"
    and "reports_calls execute"
  shows "newWithDB su cfg st x \<noteq> (Ok cl, x')"
proof
  assume "newWithDB su cfg st x = (Ok cl, x')"
  then obtain sgnr fl where
      s: "setSigner (su_lookupEnv su) (su_hexToECDSA su) (su_urlParse su) (su_newLocal su) (su_newRemote su) (Signer cfg) = Inr sgnr"
    and f: "NewFilterer (su_ParsePubKey su) (su_PubkeyToAddress su) (IsCosigner cfg) sgnr x = (Ok fl, x')"
    by (rule newWithDB_Ok)
  from s assms have "sgnr = NewRemote postSign postDecrypt newRequest transport execute decode (Credentials (Signer cfg))"
    by (auto simp: setSigner_def split: option.splits)
  with f assms(1) obtain pk y where
      "Remote_Identify newRequest transport execute decode (Credentials (Signer cfg)) x = (Ok pk, y)"
    by (auto simp: NewFilterer_def NewRemote_def bindA_Ok_iff)
  with Remote_Identify_unsendable [OF assms(6,3,4)] show False by blast
qed

section \<open>A start of the program\<close>

lemma main_start_Booted:
  assumes "main_start readTo unmarshalText netListen connect w su x = Booted cl hs"
  obtains c where "loadConfig readTo (su_lookupEnv su) unmarshalText \<lparr>Cfg = Default, RelayCutover = False\<rparr> = (Ok (), c)"
    and "main_boot netListen connect w su (Cfg c) x = Booted cl hs"
  using assms by (auto simp: main_start_def split: res.splits prod.splits)

lemma loadConfig_loaded:
  "loadConfig readTo lookupEnv unmarshalText c0 = (Ok (), c) \<Longrightarrow> loaded_ok (Cfg c)"
proof -
  assume "loadConfig readTo lookupEnv unmarshalText c0 = (Ok (), c)"
  then obtain f g where "loaded_ok g"
    and "c = f\<lparr>Cfg := (if lookupEnv allowUnsafeURLsEnv = Some ''true'' then g\<lparr>AllowUnsafeURLs := True\<rparr> else g)\<rparr>"
    unfolding loadConfig_Ok by blast
  moreover have "loaded_ok (g\<lparr>AllowUnsafeURLs := u\<rparr>) = loaded_ok g" for u by (simp add: loaded_ok_def)
  ultimately show ?thesis by simp
qed

definition sample_cfg :: config where
  "sample_cfg = Default\<lparr>FlareTeeManager := 7, ChainID := 14,
     Signer := \<lparr>Credentials = \<lparr>KeyName = [], Key = [], URL = []\<rparr>, Local = True, PrivateKeyVariable = []\<rparr>\<rparr>"

definition sample_startup :: "(nat, unit, unit) startup" where
  "sample_startup = \<lparr>su_lookupEnv = [DefaultPrivateKeyVariable \<mapsto> ''0x5''], su_hexToECDSA = (\<lambda>s. Inr ()),
     su_urlParse = sample_urlParse, su_toHash = sample_toHash, su_ParsePubKey = (\<lambda>k. Inr ()), su_PubkeyToAddress = (\<lambda>k. 1),
     su_newLocal = (\<lambda>k. sample_signer), su_newRemote = (\<lambda>c. sample_signer), su_selector = 9\<rparr>"

text \<open>An address that binds, a database in sync and an ABI with the event.\<close>

definition sample_bind :: "string \<Rightarrow> error + string" where
  "sample_bind a = Inr ''[::]:8080''"

definition sample_abi :: "error + (string \<Rightarrow> hash option)" where
  "sample_abi = Inr [''TeeInstructionsSent'' \<mapsto> 9]"

definition sample_readTo :: "file_config \<Rightarrow> errorp \<times> file_config" where
  "sample_readTo c = (None, c\<lparr>Cfg := sample_cfg\<rparr>)"

lemma sample_loaded:
  "loadConfig sample_readTo (su_lookupEnv sample_startup) (\<lambda>t. Inl CtxErr) c0 =
     (Ok (), \<lparr>Cfg = sample_cfg, RelayCutover = False\<rparr>)"
proof -
  have env: "su_lookupEnv sample_startup FlareTeeManagerVariable = None" "su_lookupEnv sample_startup allowUnsafeURLsEnv = None"
    by (simp_all add: sample_startup_def FlareTeeManagerVariable_def DefaultPrivateKeyVariable_def allowUnsafeURLsEnv_def)
  have "loaded_ok sample_cfg"
    by (simp add: loaded_ok_def sample_cfg_def Default_def DefaultStartInterval_def DefaultHealthPort_def DefaultMaxIndexerLag_def)
  with env show ?thesis
    by (simp add: loadConfig_Ok sample_readTo_def ApplyFlareTeeManagerEnv_def)
qed

lemma sample_new: "\<exists>cl. newWithDB sample_startup sample_cfg st n = (Ok cl, n)"
proof -
  have "setSigner (su_lookupEnv sample_startup) (su_hexToECDSA sample_startup) (su_urlParse sample_startup)
      (su_newLocal sample_startup) (su_newRemote sample_startup) (Signer sample_cfg) = Inr sample_signer"
    by (simp add: setSigner_def sample_cfg_def sample_startup_def PrivateKeyFromEnv_def Let_def)
  moreover have "NewFDC (su_toHash sample_startup) (su_urlParse sample_startup) (Some (FDC sample_cfg)) =
      Inr (fdc_tables (su_toHash sample_startup) (FDC sample_cfg))"
    unfolding NewFDC_Some by (simp add: fdc_cfg_ok_def entry_ids_def sample_cfg_def Default_def)
  ultimately show ?thesis
    by (simp add: newWithDB_def bindA_Ok_iff NewRouter_def NewFilterer_def sample_cfg_def Default_def act_eval)
qed

lemma sample_start: "\<exists>cl hs. main_start sample_readTo (\<lambda>t. Inl CtxErr) sample_bind None (\<lambda>p. None) sample_startup 0 = Booted cl hs"
proof -
  obtain cl where "newWithDB sample_startup sample_cfg (health_status sample_cfg) 0 = (Ok cl, 0)"
    using sample_new by blast
  then have "Client_New None sample_startup sample_cfg (health_status sample_cfg) 0 = (Ok cl, 0)"
    by (simp add: Client_New_def)
  moreover obtain cl' where "Client_Run (\<lambda>p. None) (su_selector sample_startup) cl = (Ok (), cl')"
    using Client_Run_Ok by blast
  moreover have "\<not> Disabled (Health sample_cfg)" by (simp add: sample_cfg_def Default_def)
  ultimately show ?thesis
    by (simp add: main_start_def sample_loaded main_boot_def Listen_def sample_bind_def)
qed

lemma program_start_Booted:
  assumes "program_start sprintf abi newFilterer readTo unmarshalText netListen connect w su x = Booted cl hs"
  obtains events selector where "abi = Inr events" and "events ''TeeInstructionsSent'' = Some selector" and "newFilterer = None"
    and "main_start readTo unmarshalText netListen connect w (su\<lparr>su_selector := selector\<rparr>) x = Booted cl hs"
  using assms
  by (auto simp: program_start_def collector_init_def instructions_init_def split: sum.splits option.splits)

section \<open>Properties\<close>

text \<open>
  C26. Loading the configuration succeeds exactly when the file decodes over the defaults, the manager override of
  the environment applies, and the result has an address, a chain, an interval that is not negative, queues
  that retry with a delay and usable health settings; \<open>ALLOW_UNSAFE_URLS\<close> has an effect only as the text true.
\<close>

theorem config_loads_iff:
  "loadConfig readTo lookupEnv unmarshalText c = (Ok (), c') \<longleftrightarrow>
     (\<exists>f g. readTo \<lparr>Cfg = Default, RelayCutover = False\<rparr> = (None, f) \<and>
        ApplyFlareTeeManagerEnv lookupEnv unmarshalText (Cfg f) = (None, g) \<and>
        FlareTeeManager g \<noteq> 0 \<and> ChainID g \<noteq> 0 \<and> 0 \<le> sint (StartInterval (Collector g)) \<and>
        (\<forall>nq \<in> set (Queues (FDC g)). queue_ok (snd nq)) \<and>
        (Disabled (Health g) \<or> 1 \<le> Port (Health g) \<and> Port (Health g) \<le> 65535 \<and> 0 < MaxIndexerLag (Health g)) \<and>
        c' = f\<lparr>Cfg := (if lookupEnv ''ALLOW_UNSAFE_URLS'' = Some ''true'' then g\<lparr>AllowUnsafeURLs := True\<rparr> else g)\<rparr>)"
  unfolding loadConfig_Ok loaded_ok_def allowUnsafeURLsEnv_def by (simp only: conj_assoc)

lemma config_loads_iff_witness:
  "loadConfig sample_readTo (su_lookupEnv sample_startup) (\<lambda>t. Inl CtxErr) \<lparr>Cfg = Default, RelayCutover = True\<rparr> =
     (Ok (), \<lparr>Cfg = sample_cfg, RelayCutover = False\<rparr>) \<and> ChainID sample_cfg \<noteq> 0"
  using config_loads_iff [of sample_readTo "su_lookupEnv sample_startup" "\<lambda>t. Inl CtxErr"
      "\<lparr>Cfg = Default, RelayCutover = True\<rparr>" "\<lparr>Cfg = sample_cfg, RelayCutover = False\<rparr>"] sample_loaded
  by (auto simp: sample_cfg_def)

text \<open>
  C12. The program reaches its wait for a signal only with everything in place: the event's selector found in the
  ABI, the configuration loaded and checked, the database connected, the indexer in sync, the FDC configuration
  accepted; the collector running with exactly the configured manager, which is not zero, that selector and the
  configured interval, then a worker for every configured queue, the router and the sender, whose transport is unguarded only as configured; the
  processors given the out channel and the configured chain; and the health server, unless it is disabled, serving
  on the address it is bound to a startup probe that succeeds.
\<close>

theorem boot_is_complete:
  assumes "program_start sprintf abi newFilterer readTo unmarshalText netListen connect waitSync su x = Booted cl hs"
  shows "\<exists>c selector. loadConfig readTo (su_lookupEnv su) unmarshalText \<lparr>Cfg = Default, RelayCutover = False\<rparr> = (Ok (), c) \<and>
    map_sum id (\<lambda>events. events ''TeeInstructionsSent'') abi = Inr (Some selector) \<and> newFilterer = None \<and>
    connect = None \<and> waitSync syncParams = None \<and> fdc_cfg_ok (su_toHash su) (su_urlParse su) (FDC (Cfg c)) \<and>
    c_running cl = [CollectorLoop \<lparr>la_manager = FlareTeeManager (Cfg c), la_topic0 = selector,
      la_startInterval = StartInterval (Collector (Cfg c)), la_listenerInterval = requestInterval,
      la_reports = (\<not> Disabled (Health (Cfg c)))\<rparr>, QueueWorkers (fst ` set (Queues (FDC (Cfg c)))), RouterLoop,
      SenderLoop (AllowUnsafeURLs (Cfg c))] \<and>
    baseProcessor (c_router cl) = \<lparr>bp_chainID = ChainID (Cfg c), bp_out = True\<rparr> \<and>
    FlareTeeManager (Cfg c) \<noteq> 0 \<and> 0 \<le> sint (StartInterval (Collector (Cfg c))) \<and> serving netListen (Cfg c) hs \<and>
    (if Disabled (Health (Cfg c)) then c_status cl = None else Startup (c_status cl) = None)"
proof -
  from assms obtain events selector where init: "abi = Inr events" "events ''TeeInstructionsSent'' = Some selector" "newFilterer = None"
    and main: "main_start readTo unmarshalText netListen connect waitSync (su\<lparr>su_selector := selector\<rparr>) x = Booted cl hs"
    by (rule program_start_Booted)
  let ?su = "su\<lparr>su_selector := selector\<rparr>"
  from main obtain c where c: "loadConfig readTo (su_lookupEnv su) unmarshalText \<lparr>Cfg = Default, RelayCutover = False\<rparr> = (Ok (), c)"
    and boot: "main_boot netListen connect waitSync ?su (Cfg c) x = Booted cl hs"
    by (rule main_start_Booted) simp
  from boot obtain cl0 x' where new: "newWithDB ?su (Cfg c) (health_status (Cfg c)) x = (Ok cl0, x')"
    and run: "connect = None" "waitSync syncParams = None"
    and cl: "cl = cl0\<lparr>c_router := Router_SetOut (c_router cl0),
        c_running := c_running cl0 @ [CollectorLoop (listener_args_of (su_selector ?su) (c_collector cl0)),
          QueueWorkers (dom (f_queues (fdcProcessor (c_router cl0)))), RouterLoop, SenderLoop (c_unsafe cl0)],
        c_wg := c_wg cl0 + 2 * int (card (dom (f_queues (fdcProcessor (c_router cl0))))) + 3,
        c_status := SetStarted (c_status cl0)\<rparr>"
    and hs: "serving netListen (Cfg c) hs"
    by (rule main_boot_Booted)
  from new obtain f where "NewFDC (su_toHash su) (su_urlParse su) (Some (FDC (Cfg c))) = Inr f"
    and cl0: "fdcProcessor (c_router cl0) = f" "c_running cl0 = []" "c_unsafe cl0 = AllowUnsafeURLs (Cfg c)" "baseProcessor (c_router cl0) = NewBase (ChainID (Cfg c))"
      "c_collector cl0 = Collector_New (FlareTeeManager (Cfg c)) (StartInterval (Collector (Cfg c))) (health_status (Cfg c))" "c_status cl0 = health_status (Cfg c)"
    by (elim newWithDB_Ok) simp
  moreover have "0 \<le> sint (StartInterval (Collector (Cfg c)))" "FlareTeeManager (Cfg c) \<noteq> 0"
    using loadConfig_loaded [OF c] by (simp_all add: loaded_ok_def)
  ultimately show ?thesis
    using c run cl hs init
    by (intro exI [of _ c] exI [of _ selector])
      (simp add: listener_args_of_def NewFDC_Some fdc_tables_def dom_NewFDC_queues Router_SetOut_def SetOut_def NewBase_def health_status_def NewStatus_def SetStarted_def Startup_def
        Collector_New_def)
qed

lemma boot_is_complete_witness:
  "\<exists>cl hs args queues unsafe. program_start (\<lambda>f as. f) sample_abi None sample_readTo (\<lambda>t. Inl CtxErr) sample_bind None (\<lambda>p. None)
      sample_startup 0 = Booted cl hs \<and> c_running cl = [CollectorLoop args, QueueWorkers queues, RouterLoop, SenderLoop unsafe] \<and>
      la_topic0 args = 9"
proof -
  have "sample_startup\<lparr>su_selector := 9\<rparr> = sample_startup" by (simp add: sample_startup_def)
  with sample_start obtain cl hs where run: "program_start (\<lambda>f as. f) sample_abi None sample_readTo (\<lambda>t. Inl CtxErr)
      sample_bind None (\<lambda>p. None) sample_startup 0 = Booted cl hs"
    by (auto simp: program_start_def collector_init_def instructions_init_def sample_abi_def)
  from boot_is_complete [OF this] obtain c :: file_config and selector where
    "map_sum id (\<lambda>events. events ''TeeInstructionsSent'') sample_abi = Inr (Some selector)"
    "c_running cl = [CollectorLoop \<lparr>la_manager = FlareTeeManager (Cfg c), la_topic0 = selector,
      la_startInterval = StartInterval (Collector (Cfg c)), la_listenerInterval = requestInterval,
      la_reports = (\<not> Disabled (Health (Cfg c)))\<rparr>, QueueWorkers (fst ` set (Queues (FDC (Cfg c)))), RouterLoop,
      SenderLoop (AllowUnsafeURLs (Cfg c))]"
    by blast
  with run show ?thesis by (auto simp: sample_abi_def)
qed

text \<open>
  C25. Take any configuration that passes the checks and make it a cosigner with a remote signer at a good URL and
  no API key, neither a name nor a key: it passes every check too, those of the file and those of the credentials, and the
  signer is made. Still the program never starts with it: the identification of the signer sends a header with an empty
  name, which no HTTP client does.
\<close>

theorem unnamed_cosigner_never_starts:
  assumes "CheckAddress g = None" "CheckChainID g = None" "CheckStartInterval g = None" "CheckQueues g = None" "CheckHealth g = None"
    and "cfg = g\<lparr>IsCosigner := True,
      Signer := \<lparr>Credentials = \<lparr>KeyName = '''', Key = '''', URL = u\<rparr>, Local = False, PrivateKeyVariable = v\<rparr>\<rparr>"
    and "u \<noteq> ''''" and "su_urlParse su u = Inr (scheme, host)" and "scheme \<in> {''http'', ''https''}" and "host \<noteq> ''''"
    and "su_newRemote su = NewRemote postSign postDecrypt newRequest transport execute decode"
    and "reports_calls execute"
  shows "CheckAddress cfg = None \<and> CheckChainID cfg = None \<and> CheckStartInterval cfg = None \<and> CheckQueues cfg = None \<and>
    CheckHealth cfg = None \<and> Check (su_urlParse su) (Credentials (Signer cfg)) = None \<and>
    setSigner (su_lookupEnv su) (su_hexToECDSA su) (su_urlParse su) (su_newLocal su) (su_newRemote su) (Signer cfg) =
      Inr (su_newRemote su (Credentials (Signer cfg))) \<and>
    main_boot netListen connect waitSync su cfg x \<noteq> Booted cl hs"
proof -
  have "main_boot netListen connect waitSync su cfg x \<noteq> Booted cl hs"
  proof
    assume "main_boot netListen connect waitSync su cfg x = Booted cl hs"
    then obtain cl0 x' where "newWithDB su cfg (health_status cfg) x = (Ok cl0, x')"
      by (rule main_boot_Booted)
    with newWithDB_unsendable [OF _ _ _ _ assms(11,12)] unnamed_unsendable [of "Credentials (Signer cfg)"] show False
      by (simp add: assms(6))
  qed
  moreover have "Check (su_urlParse su) (Credentials (Signer cfg)) = None"
    using assms(7-10) by (auto simp: assms(6) Check_None creds_ok_def)
  moreover from this have "setSigner (su_lookupEnv su) (su_hexToECDSA su) (su_urlParse su) (su_newLocal su) (su_newRemote su) (Signer cfg) =
      Inr (su_newRemote su (Credentials (Signer cfg)))"
    by (simp add: setSigner_def assms(6))
  moreover have "CheckAddress cfg = None \<and> CheckChainID cfg = None \<and> CheckStartInterval cfg = None \<and> CheckQueues cfg = None \<and>
      CheckHealth cfg = None"
    using assms(1-5) by (simp add: assms(6) check_iffs)
  ultimately show ?thesis by blast
qed

lemma unnamed_cosigner_never_starts_witness:
  "let cfg = sample_cfg\<lparr>IsCosigner := True, Signer := \<lparr>Credentials = \<lparr>KeyName = [], Key = [], URL = ''http://h''\<rparr>,
         Local = False, PrivateKeyVariable = []\<rparr>\<rparr>;
       su = sample_startup\<lparr>su_newRemote := NewRemote (\<lambda>u k hs c st p. retA []) (\<lambda>u k b c st p. retA []) (\<lambda>u. None)
         (\<lambda>req x. (Ok \<lparr>StatusCode = 200, Body = [1]\<rparr>, x)) (\<lambda>m p. m) (\<lambda>b. Inr \<lparr>PX = 1, PY = 2\<rparr>)\<rparr>
   in CheckHealth cfg = None \<and> Check (su_urlParse su) (Credentials (Signer cfg)) = None \<and>
     (\<forall>cl hs. main_boot sample_bind None (\<lambda>p. None) su cfg 0 \<noteq> Booted cl hs)"
proof -
  let ?cfg = "sample_cfg\<lparr>IsCosigner := True, Signer := \<lparr>Credentials = \<lparr>KeyName = [], Key = [], URL = ''http://h''\<rparr>,
         Local = False, PrivateKeyVariable = []\<rparr>\<rparr>"
  let ?su = "sample_startup\<lparr>su_newRemote := NewRemote (\<lambda>u k hs c st p. retA []) (\<lambda>u k b c st p. retA []) (\<lambda>u. None)
         (\<lambda>req x. (Ok \<lparr>StatusCode = 200, Body = [1]\<rparr>, x)) (\<lambda>m p. m) (\<lambda>b. Inr \<lparr>PX = 1, PY = 2\<rparr>)\<rparr>"
  have "loaded_ok sample_cfg"
    by (simp add: loaded_ok_def sample_cfg_def Default_def DefaultStartInterval_def DefaultHealthPort_def DefaultMaxIndexerLag_def)
  then have ok: "CheckAddress sample_cfg = None" "CheckChainID sample_cfg = None" "CheckStartInterval sample_cfg = None"
      "CheckQueues sample_cfg = None" "CheckHealth sample_cfg = None"
    by (simp_all add: loaded_ok_checks)
  have url: "su_urlParse ?su ''http://h'' = Inr (''http'', ''h'')" by (simp add: sample_startup_def sample_urlParse_def)
  have calls: "reports_calls (\<lambda>m p. m)" unfolding reports_calls_def by blast
  have "CheckHealth ?cfg = None \<and> Check (su_urlParse ?su) (Credentials (Signer ?cfg)) = None \<and>
      main_boot sample_bind None (\<lambda>p. None) ?su ?cfg 0 \<noteq> Booted cl hs" for cl hs
    using unnamed_cosigner_never_starts [OF ok refl _ url _ _ _ calls, of "\<lambda>u k hs c st p. retA []" "\<lambda>u k b c st p. retA []"
        "\<lambda>u. None" "\<lambda>req x. (Ok \<lparr>StatusCode = 200, Body = [1]\<rparr>, x)" "\<lambda>b. Inr \<lparr>PX = 1, PY = 2\<rparr>" "[]" sample_bind None "\<lambda>p. None" 0 cl hs]
    by simp
  then show ?thesis unfolding Let_def by blast
qed

end
