(* ===== verification/Restore.thy ===== *)
theory Restore
  imports Backup
begin

text \<open>
  What the backup processor of \<open>internal/router/processors/backup.go\<close> guarantees: which backups
  and envelopes its checks accept, what a restore sends, and when it sends nothing.
\<close>

section \<open>Runs of the two flows\<close>

text \<open>An envelope that passes every check becomes the fixed message.\<close>

lemma accept_envelope_Ok:
  assumes "decodeActionResponse lib (limited sizeLimitDirectRestore (f_Body resp)) = Inr ar"
    and "validateActionResponseDirect lib ar chainID (dr_SourceTeeId req) (dr_BackupInstructionId req) = None"
    and "unmarshalSignedKeyDirectBackup lib (ar_Data (Result ar)) = Inr skdb"
    and "TEEKeyDirectBackupHash lib chainID (Keccak256Hash lib (Payload skdb)) = Inr h"
    and "utils_VerifySignature lib h (TEESignature skdb) (dr_SourceTeeId req) = None"
    and "unmarshalKeyDirectBackupPayload lib (Payload skdb) = Inr wid" and "same_backup (dr_BackupId req) wid"
  shows "accept_envelope lib chainID req resp s =
    (Ok (), s\<lparr>ps_ib := (ps_ib s)\<lparr>GeneralData := (GeneralData (ps_ib s))\<lparr>AdditionalFixedMessage := ar_Data (Result ar)\<rparr>\<rparr>\<rparr>)"
proof -
  have "checkConsistencyDirect wid (dr_BackupId req) = None"
    using assms(7) by (simp add: checkConsistencyDirect_None)
  with assms(1-6) show ?thesis
    by (simp add: accept_envelope_def modify_data_def act_eval)
qed

lemma sign_emit_Ok:
  assumes "hashesForSigning hashFor (bp_chainID b) (ps_ib s) = Inr hs" and "Sign sg hs (ps_env s) = (Ok sigs, x)"
    and "bp_out b" and "sel x = (True, x')"
  shows "bindA (wrapA f as (Base_Sign hashFor sg (bp_chainID b))) (\<lambda>_. emit sel b) s =
    (Ok (), s\<lparr>ps_ib := (ps_ib s)\<lparr>Signatures := sigs\<rparr>, ps_env := x',
       ps_out := ps_out s @ [(ps_ib s)\<lparr>Signatures := sigs\<rparr>]\<rparr>)"
  using assms(3,4) Base_Sign_Ok [OF assms(1,2)]
  by (simp add: act_eval emit_def)

text \<open>A signer without a part of the backup has nothing to decrypt.\<close>

lemma plaintextForTEE_foreign:
  assumes "\<not> owns pk (wb_ProviderParts wb)" and "\<not> owns pk (wb_AdminParts wb)"
  shows "plaintextForTEE lib sg chainID wb pk s = (Ok None, s)"
proof -
  have "slices_Index (OwnersPublicKeys (wb_ProviderParts wb)) pk = None"
    "slices_Index (OwnersPublicKeys (wb_AdminParts wb)) pk = None"
    using assms by (simp_all add: owns_def)
  then show ?thesis by (simp add: plaintextForTEE_def Let_def del: slices_Index_None)
qed

lemma set_metadata_Ok:
  "marshalMetaData lib wb = Inr m \<Longrightarrow> set_metadata lib wb s =
     (Ok (), s\<lparr>ps_ib := (ps_ib s)\<lparr>GeneralData := (GeneralData (ps_ib s))\<lparr>AdditionalFixedMessage := m\<rparr>\<rparr>\<rparr>)"
  by (simp add: set_metadata_def modify_data_def)

text \<open>A data-provider restore up to the plaintext for the machine.\<close>

lemma processDataProviderRestore_run:
  assumes "ParseKeyDataProviderRestore lib (DataFixed (GeneralData (ps_ib s))) = Inr req"
    and "fetch_backup lib unsafe (dp_BackupUrl req) s = (Ok resp, s1)"
    and "accept_backup lib (bp_chainID b) req resp s1 = (Ok wb, s2)"
    and "marshalMetaData lib wb = Inr m" and "Identify sg (ps_env s2) = (Ok pk, x)"
  shows "processDataProviderRestore lib hashFor sel sg b unsafe s =
    bindA (plaintextForTEE lib sg (bp_chainID b) wb pk) (send_split lib hashFor sel sg b req)
      (s2\<lparr>ps_ib := (ps_ib s2)\<lparr>GeneralData := (GeneralData (ps_ib s2))\<lparr>AdditionalFixedMessage := m\<rparr>\<rparr>, ps_env := x\<rparr>)"
  using assms
  by (simp add: processDataProviderRestore_def bindA_def set_metadata_Ok wrapA_def mapErr_def on_env_apply)

text \<open>A part that lists the signer as an owner without a split at its position panics.\<close>

lemma plaintextForTEE_short:
  assumes "slices_Index (OwnersPublicKeys (wb_ProviderParts wb)) pk = Some i"
    and "length (Splits (wb_ProviderParts wb)) \<le> i"
  shows "plaintextForTEE lib sg chainID wb pk s = (Panic ''index out of range'', s)"
  using assms
  by (simp add: plaintextForTEE_def Let_def own_split_def indexA_def bindA_def split: option.split)

text \<open>A direct restore whose envelope passes every check.\<close>

lemma processDirectRestore_run:
  assumes "Tees (ps_ib s) = [tm]" and "ParseKeyDirectRestore lib (DataFixed (GeneralData (ps_ib s))) = Inr req"
    and "fetch_envelope lib unsafe (envelope_url lib req) s = (Ok resp, s\<lparr>ps_env := x\<rparr>)"
    and "decodeActionResponse lib (limited sizeLimitDirectRestore (f_Body resp)) = Inr ar"
    and "validateActionResponseDirect lib ar (bp_chainID b) (dr_SourceTeeId req) (dr_BackupInstructionId req) = None"
    and "unmarshalSignedKeyDirectBackup lib (ar_Data (Result ar)) = Inr skdb"
    and "TEEKeyDirectBackupHash lib (bp_chainID b) (Keccak256Hash lib (Payload skdb)) = Inr h"
    and "utils_VerifySignature lib h (TEESignature skdb) (dr_SourceTeeId req) = None"
    and "unmarshalKeyDirectBackupPayload lib (Payload skdb) = Inr wid" and "same_backup (dr_BackupId req) wid"
    and "ib = (ps_ib s)\<lparr>GeneralData := (GeneralData (ps_ib s))\<lparr>AdditionalFixedMessage := ar_Data (Result ar)\<rparr>\<rparr>"
    and "hashesForSigning hashFor (bp_chainID b) ib = Inr hs" and "Sign sg hs x = (Ok sigs, y)"
    and "bp_out b" and "sel y = (True, z)"
  shows "processDirectRestore lib hashFor sel sg b unsafe s =
    (Ok (), s\<lparr>ps_ib := ib\<lparr>Signatures := sigs\<rparr>, ps_env := z, ps_out := ps_out s @ [ib\<lparr>Signatures := sigs\<rparr>]\<rparr>)"
proof -
  let ?t = "s\<lparr>ps_ib := ib, ps_env := x\<rparr>"
  have "accept_envelope lib (bp_chainID b) req resp (s\<lparr>ps_env := x\<rparr>) = (Ok (), ?t)"
    using accept_envelope_Ok [OF assms(4-10), of "s\<lparr>ps_env := x\<rparr>"] by (simp add: assms(11))
  moreover have "bindA (wrapA ''signing: '' [] (Base_Sign hashFor sg (bp_chainID b))) (\<lambda>_. emit sel b) ?t =
      (Ok (), ?t\<lparr>ps_ib := ib\<lparr>Signatures := sigs\<rparr>, ps_env := z, ps_out := ps_out s @ [ib\<lparr>Signatures := sigs\<rparr>]\<rparr>)"
    using sign_emit_Ok [of hashFor b ?t hs sg sigs y sel z] assms(12-15) by simp
  ultimately show ?thesis
    using assms(1-3)
    by (simp add: processDirectRestore_def bindA_def [of "fetch_envelope _ _ _"] bindA_def [of "accept_envelope _ _ _ _"])
qed

section \<open>Requests and the URL guard\<close>

text \<open>A library that answers as it does over the guarded transport, and anything over the other one.\<close>

definition unguarded :: "('x, 'k) backup_lib \<Rightarrow> (string \<Rightarrow> ('x, fetched) act) \<Rightarrow> ('x, 'k) backup_lib" where
  "unguarded lib g = lib\<lparr>http_Get := (\<lambda>tr. if tr = SafeTransport then http_Get lib tr else g)\<rparr>"

lemma unguarded_fetch:
  "fetch_backup (unguarded lib g) False = fetch_backup lib False"
  "fetch_envelope (unguarded lib g) False = fetch_envelope lib False"
  by (intro ext, simp add: fetch_backup_def fetch_envelope_def unguarded_def restore_client_def)+

lemma unguarded_fields:
  "ParseKeyDataProviderRestore (unguarded lib g) = ParseKeyDataProviderRestore lib"
  "ParseKeyDirectRestore (unguarded lib g) = ParseKeyDirectRestore lib" "ops (unguarded lib g) = ops lib"
  "ParsePubKey (unguarded lib g) = ParsePubKey lib" "PubkeyToAddress (unguarded lib g) = PubkeyToAddress lib"
  "decodeBackupResponse (unguarded lib g) = decodeBackupResponse lib"
  "unmarshalWalletBackup (unguarded lib g) = unmarshalWalletBackup lib"
  "WalletBackup_Check (unguarded lib g) = WalletBackup_Check lib"
  "WalletBackupID_Equal (unguarded lib g) = WalletBackupID_Equal lib" "marshalMetaData (unguarded lib g) = marshalMetaData lib"
  "unmarshalKeySplit (unguarded lib g) = unmarshalKeySplit lib"
  "KeySplit_VerifySignature (unguarded lib g) = KeySplit_VerifySignature lib"
  "marshalKeySplit (unguarded lib g) = marshalKeySplit lib" "marshalKeySplits (unguarded lib g) = marshalKeySplits lib"
  "utils_Encrypt (unguarded lib g) = utils_Encrypt lib" "HashHex (unguarded lib g) = HashHex lib"
  "decodeActionResponse (unguarded lib g) = decodeActionResponse lib" "ActionResult_Hash (unguarded lib g) = ActionResult_Hash lib"
  "TEEActionResultHash (unguarded lib g) = TEEActionResultHash lib"
  "TEEKeyDirectBackupHash (unguarded lib g) = TEEKeyDirectBackupHash lib"
  "utils_VerifySignature (unguarded lib g) = utils_VerifySignature lib" "types_Threshold (unguarded lib g) = types_Threshold lib"
  "Keccak256Hash (unguarded lib g) = Keccak256Hash lib"
  "unmarshalSignedKeyDirectBackup (unguarded lib g) = unmarshalSignedKeyDirectBackup lib"
  "unmarshalKeyDirectBackupPayload (unguarded lib g) = unmarshalKeyDirectBackupPayload lib"
  by (simp_all add: unguarded_def)

lemma unguarded_checks:
  "checkConsistency (unguarded lib g) = checkConsistency lib"
  "validateActionResponseDirect (unguarded lib g) = validateActionResponseDirect lib"
  "decryptKeySplit (unguarded lib g) = decryptKeySplit lib" "own_split (unguarded lib g) = own_split lib"
  "set_metadata (unguarded lib g) = set_metadata lib" "envelope_url (unguarded lib g) = envelope_url lib"
  by (intro ext, simp only: checkConsistency_def validateActionResponseDirect_def own_split_def decryptKeySplit_def
      set_metadata_def envelope_url_def unguarded_fields)+

lemma unguarded_steps:
  "accept_backup (unguarded lib g) = accept_backup lib" "accept_envelope (unguarded lib g) = accept_envelope lib"
  "plaintextForTEE (unguarded lib g) = plaintextForTEE lib" "send_split (unguarded lib g) = send_split lib"
  by (intro ext, simp only: accept_backup_def accept_envelope_def plaintextForTEE_def send_split_def
      unguarded_checks unguarded_fields)+

lemma Backup_Process_unguarded:
  "Backup_Process (unguarded lib g) hashFor sel sg b False = Backup_Process lib hashFor sel sg b False"
  by (simp only: Backup_Process_def processDataProviderRestore_def processDirectRestore_def
      unguarded_fetch unguarded_checks unguarded_steps unguarded_fields)

text \<open>A URL that the guard refuses ends the restore before any request.\<close>

lemma fetch_refused:
  assumes "safeurl_Validate lib url (ps_env s) = (Fail e, x)"
  shows "fetch_backup lib False url s = (Fail (Wrapf ''validating backup URL: '' [] e), s\<lparr>ps_env := x\<rparr>)"
    and "fetch_envelope lib False url s = (Fail (Wrapf ''validating source proxy URL: '' [] e), s\<lparr>ps_env := x\<rparr>)"
  using assms by (simp_all add: fetch_backup_def fetch_envelope_def act_eval on_env_apply)

section \<open>A sample library\<close>

definition sample_ops :: op_lib where
  "sample_ops = \<lparr>HashToOPType = (\<lambda>h. ''wallet''), HashToOPCommand = (\<lambda>h. if h = 4 then ''direct'' else ''restore''),
     IsValid = (\<lambda>t c. True), op_FDC2 = ''fdc2'', op_Wallet = ''wallet'', op_Prove = ''prove'',
     op_KeyDataProviderRestore = ''restore'', op_KeyDirectRestore = ''direct'', op_Wallet_Hash = 3, op_KeyDirectBackup_Hash = 8\<rparr>"

definition sample_rid :: requested_id where
  "sample_rid = \<lparr>rid_TeeId = 7, rid_WalletId = 6, rid_KeyId = 5, rid_PublicKey = [1], rid_KeyType = 2, rid_SigningAlgo = 3,
     rid_RewardEpochId = 4, rid_RandomNonce = 9\<rparr>"

definition sample_wid :: wallet_backup_id where
  "sample_wid = \<lparr>wid_TeeID = 7, wid_WalletID = 6, wid_KeyID = 5, wid_PublicKey = [1], wid_KeyType = 2, wid_SigningAlgo = 3,
     wid_RewardEpochID = 4, wid_RandomNonce = 9\<rparr>"

definition sample_dpr :: data_provider_restore where
  "sample_dpr = \<lparr>dp_TeePublicKey = \<lparr>PX = 1, PY = 2\<rparr>, dp_BackupId = sample_rid, dp_BackupUrl = ''http://backup''\<rparr>"

definition sample_dr :: direct_restore where
  "sample_dr = \<lparr>dr_BackupInstructionId = 11, dr_SourceProxyUrl = ''http://proxy/'', dr_SourceTeeId = 7, dr_BackupId = sample_rid\<rparr>"

definition sample_ar :: action_response where
  "sample_ar = \<lparr>Result = \<lparr>ar_ID = 11, ar_SubmissionTag = ''threshold'', ar_Status = 1, ar_OPType = 3, ar_OPCommand = 8,
     ar_Data = [42], ar_Rest = []\<rparr>, ar_Signature = [1]\<rparr>"

text \<open>The backup of an owner who is not the sample signer.\<close>

definition sample_wb :: wallet_backup where
  "sample_wb = \<lparr>wb_WalletBackupID = sample_wid,
     wb_ProviderParts = \<lparr>OwnersPublicKeys = [\<lparr>PX = 8, PY = 8\<rparr>], Splits = [[5]]\<rparr>,
     wb_AdminParts = \<lparr>OwnersPublicKeys = [], Splits = []\<rparr>, wb_Rest = []\<rparr>"

definition sample_backup_lib :: "(nat, unit) backup_lib" where
  "sample_backup_lib = \<lparr>ops = sample_ops, ParseKeyDataProviderRestore = (\<lambda>d. Inr sample_dpr),
     ParseKeyDirectRestore = (\<lambda>d. Inr sample_dr), ParsePubKey = (\<lambda>k. Inr ()), PubkeyToAddress = (\<lambda>k. 1),
     safeurl_Validate = (\<lambda>u. retA ()), http_NewRequest = (\<lambda>u. None),
     http_Get = (\<lambda>tr u n. (Ok \<lparr>f_StatusCode = 200, f_ContentType = [], f_Body = ([1], False)\<rparr>, n + 1)),
     decodeBackupResponse = (\<lambda>st. Inr \<lparr>br_BackupID = sample_wid, br_WalletBackup = [2]\<rparr>),
     unmarshalWalletBackup = (\<lambda>b. Inr sample_wb), WalletBackup_Check = (\<lambda>wb c. None),
     WalletBackupID_Equal = (\<lambda>a b. if a = b then None else Some (New ''different'')),
     marshalMetaData = (\<lambda>wb. Inr [33]), unmarshalKeySplit = (\<lambda>b. Inl (New ''no split'')),
     KeySplit_VerifySignature = (\<lambda>k c. None), marshalKeySplit = (\<lambda>k. Inr [1]), marshalKeySplits = (\<lambda>k. Inr [2]),
     utils_Encrypt = (\<lambda>b k. retA b), HashHex = (\<lambda>h. ''0x0b''), decodeActionResponse = (\<lambda>st. Inr sample_ar),
     ActionResult_Hash = (\<lambda>r. 21), TEEActionResultHash = (\<lambda>c h. Inr (h + 1)), TEEKeyDirectBackupHash = (\<lambda>c h. Inr (h + 2)),
     utils_VerifySignature = (\<lambda>h sig a. if h = 22 \<or> h = 32 then None else Some (New ''bad signature'')),
     types_Threshold = ''threshold'', Keccak256Hash = (\<lambda>b. 30),
     unmarshalSignedKeyDirectBackup = (\<lambda>b. Inr \<lparr>Payload = [6], TEESignature = [7]\<rparr>),
     unmarshalKeyDirectBackupPayload = (\<lambda>b. Inr sample_wid)\<rparr>"

definition sample_rib :: base where
  "sample_rib = sample_base\<lparr>Tees := [sample_machine 1]\<rparr>"

definition sample_rst :: "nat pst" where
  "sample_rst = \<lparr>ps_ib = sample_rib, ps_out = [], ps_env = 0\<rparr>"

definition sample_spliced :: base where
  "sample_spliced = sample_rib\<lparr>GeneralData := (GeneralData sample_rib)\<lparr>AdditionalFixedMessage := [42]\<rparr>\<rparr>"

lemma sample_rst_simps [simp]: "ps_ib sample_rst = sample_rib" "ps_out sample_rst = []" "ps_env sample_rst = 0"
  "Tees sample_rib = [sample_machine 1]"
  by (simp_all add: sample_rst_def sample_rib_def)

lemma sample_same: "same_backup sample_rid sample_wid"
  by (simp add: same_backup_def sample_rid_def sample_wid_def)

lemma sample_fetch:
  "fetch_envelope sample_backup_lib False u s =
     (Ok \<lparr>f_StatusCode = 200, f_ContentType = [], f_Body = ([1], False)\<rparr>, s\<lparr>ps_env := ps_env s + 1\<rparr>)"
  "fetch_backup sample_backup_lib False u s =
     (Ok \<lparr>f_StatusCode = 200, f_ContentType = [], f_Body = ([1], False)\<rparr>, s\<lparr>ps_env := ps_env s + 1\<rparr>)"
  by (simp_all add: fetch_envelope_def fetch_backup_def sample_backup_lib_def act_eval on_env_apply)

lemma sample_response:
  "validateActionResponseDirect sample_backup_lib sample_ar 14 (dr_SourceTeeId sample_dr) (dr_BackupInstructionId sample_dr) = None"
  by (simp add: validateActionResponseDirect_None)
    (simp add: sample_backup_lib_def sample_ar_def sample_dr_def sample_ops_def)

lemma sample_spliced_hashes: "hashesForSigning sample_hash 14 sample_spliced = Inr [15]"
  by (simp add: hashesForSigning_def sample_spliced_def sample_hash_def sample_machine_def Let_def)

lemma sample_spliced_Sign: "Sign sample_signer [15] n = (Ok [[15]], n)"
  by (simp add: sample_signer_def NewLocal_def Local_Sign_def sample_sign_def)

lemma sample_base_out [simp]: "bp_chainID (SetOut (NewBase c)) = c" "bp_out (SetOut (NewBase c))"
  by (simp_all add: SetOut_def NewBase_def)

definition sample_restored :: "nat pst" where
  "sample_restored = sample_rst\<lparr>ps_ib := sample_spliced\<lparr>Signatures := [[15]]\<rparr>, ps_env := 1,
     ps_out := [sample_spliced\<lparr>Signatures := [[15]]\<rparr>]\<rparr>"

lemma sample_envelope:
  "ParseKeyDirectRestore sample_backup_lib d = Inr sample_dr"
  "decodeActionResponse sample_backup_lib st = Inr sample_ar"
  "unmarshalSignedKeyDirectBackup sample_backup_lib m = Inr \<lparr>Payload = [6], TEESignature = [7]\<rparr>"
  "TEEKeyDirectBackupHash sample_backup_lib c (Keccak256Hash sample_backup_lib pl) = Inr 32"
  "utils_VerifySignature sample_backup_lib 32 sg a = None"
  "unmarshalKeyDirectBackupPayload sample_backup_lib pl = Inr sample_wid"
  "same_backup (dr_BackupId sample_dr) sample_wid"
  by (simp_all add: sample_backup_lib_def sample_dr_def sample_same)

lemma sample_splices:
  "sample_spliced = (ps_ib sample_rst)\<lparr>GeneralData := (GeneralData (ps_ib sample_rst))\<lparr>AdditionalFixedMessage := ar_Data (Result sample_ar)\<rparr>\<rparr>"
  by (simp add: sample_spliced_def sample_ar_def)

lemma sample_fetched:
  "fetch_envelope sample_backup_lib False u sample_rst =
     (Ok \<lparr>f_StatusCode = 200, f_ContentType = [], f_Body = ([1], False)\<rparr>, sample_rst\<lparr>ps_env := 1\<rparr>)"
  by (simp add: sample_fetch)

lemma sample_direct_run:
  "processDirectRestore sample_backup_lib sample_hash (\<lambda>n. (True, n)) sample_signer (SetOut (NewBase 14)) False sample_rst =
     (Ok (), sample_restored)"
  unfolding sample_restored_def
  by (subst processDirectRestore_run [where tm = "sample_machine 1" and x = 1 and y = 1 and z = 1 and hs = "[15]" and sigs = "[[15]]",
        OF _ sample_envelope(1) sample_fetched sample_envelope(2) _ sample_envelope(3-7) sample_splices])
    (simp_all add: sample_response sample_spliced_hashes sample_spliced_Sign)

lemma sample_process_run:
  "Backup_Process sample_backup_lib sample_hash (\<lambda>n. (True, n)) sample_signer (SetOut (NewBase 14)) False sample_rst =
     (Ok (), sample_restored)"
  by (simp add: Backup_Process_def Let_def sample_direct_run)
    (simp add: sample_backup_lib_def sample_ops_def sample_rib_def sample_base_def EventToData_def sample_event_def)

section \<open>Properties\<close>

text \<open>
  Both restores identify the backup in the same way: the direct one accepts exactly the identifier whose
  eight fields are the requested ones, the data-provider one in addition asks for a single machine, whose
  identifier is the address of the requested key.
\<close>

lemma restore_checks_agree:
  "(checkConsistencyDirect wid rid = None \<longleftrightarrow> same_backup rid wid) \<and>
   (checkConsistency lib req wid tees = None \<longleftrightarrow>
      (\<exists>pk t. ParsePubKey lib (dp_TeePublicKey req) = Inr pk \<and> tees = [t] \<and> TeeId t = PubkeyToAddress lib pk) \<and>
      checkConsistencyDirect wid (dp_BackupId req) = None)"
  by (simp add: checkConsistency_None checkConsistencyDirect_None)

text \<open>
  The response of a source machine is accepted exactly when the machine signed the chain-bound hash of its
  result and the result is the successful, threshold-tagged answer to the requested direct backup.
\<close>

lemma direct_response_accepted:
  "validateActionResponseDirect lib resp chainID tee expected = None \<longleftrightarrow>
     (\<exists>h. TEEActionResultHash lib chainID (ActionResult_Hash lib (Result resp)) = Inr h \<and>
        utils_VerifySignature lib h (ar_Signature resp) tee = None) \<and>
     ar_Status (Result resp) = 1 \<and> ar_SubmissionTag (Result resp) = types_Threshold lib \<and>
     ar_ID (Result resp) = expected \<and> ar_OPType (Result resp) = op_Wallet_Hash (ops lib) \<and>
     ar_OPCommand (Result resp) = op_KeyDirectBackup_Hash (ops lib)"
  by (rule validateActionResponseDirect_None)

text \<open>
  C8. With the local signer a restore sends at most one message, and only when it succeeds: its own instruction
  with a valid signature for every machine, whose fixed message is that of an accepted backup or envelope for
  the requested identifier and whose variable message, in the data-provider restore, is the encryption for
  the requested key of splits that this signer owns. Otherwise nothing is sent and the instruction keeps
  what the chain fixed of it.
\<close>

theorem restore_sends_accepted:
  assumes "Backup_Process lib hashFor sel (NewLocal utilsSign utilsDecrypt pubKeyToStruct priv) b unsafe s = (r, t)"
  shows "ps_out t = ps_out s \<and> same_instruction (ps_ib s) (ps_ib t) \<or>
    r = Ok () \<and> ps_out t = ps_out s @ [ps_ib t] \<and> same_instruction (ps_ib s) (ps_ib t) \<and>
      backup_good lib hashFor (NewLocal utilsSign utilsDecrypt pubKeyToStruct priv) (bp_chainID b) (made_by utilsSign priv) (ps_ib t)"
proof -
  have "wpA (Backup_Process lib hashFor sel (NewLocal utilsSign utilsDecrypt pubKeyToStruct priv) b unsafe)
      (\<lambda>_ t. quiet s t \<or> emitted (backup_good lib hashFor (NewLocal utilsSign utilsDecrypt pubKeyToStruct priv)
        (bp_chainID b) (made_by utilsSign priv)) s t) (\<lambda>_ t. quiet s t) s"
    by (rule local_signer.backup.process_emits)
  with assms show ?thesis
    by (cases r) (auto simp: wpA_def quiet_def emitted_def)
qed

lemma restore_sends_accepted_witness:
  "\<exists>t. Backup_Process sample_backup_lib sample_hash (\<lambda>n. (True, n)) sample_signer (SetOut (NewBase 14)) False sample_rst = (Ok (), t) \<and>
     ps_out t = [ps_ib t] \<and>
     backup_good sample_backup_lib sample_hash sample_signer 14 (made_by sample_sign ()) (ps_ib t)"
proof -
  note run = sample_process_run
  have "ps_out sample_restored \<noteq> ps_out sample_rst" by (simp add: sample_restored_def)
  with restore_sends_accepted [OF run [unfolded sample_signer_def]] run show ?thesis
    by (auto simp: sample_signer_def)
qed

text \<open>
  C9. Unless the override for unsafe URLs is set, a restore sends requests over the guarded transport only:
  in every state its outcome is the same whatever the unguarded transport would answer. In both flows the URL comes
  from outside; one that the guard refuses ends the restore with an error before any request, the instruction as it was.
\<close>

theorem restores_are_guarded:
  "Backup_Process (lib\<lparr>http_Get := (\<lambda>tr. if tr = SafeTransport then http_Get lib tr else g)\<rparr>) hashFor sel sg b False s =
      Backup_Process lib hashFor sel sg b False s \<and>
    (length (Tees (ps_ib s)) = 1 \<and> ParseKeyDirectRestore lib (DataFixed (GeneralData (ps_ib s))) = Inr dr \<and>
       safeurl_Validate lib (envelope_url lib dr) (ps_env s) = (Fail e, x) \<longrightarrow>
      processDirectRestore lib hashFor sel sg b False s =
        (Fail (Wrapf ''validating source proxy URL: '' [] e), s\<lparr>ps_env := x\<rparr>)) \<and>
    (ParseKeyDataProviderRestore lib (DataFixed (GeneralData (ps_ib s))) = Inr dp \<and>
       safeurl_Validate lib (dp_BackupUrl dp) (ps_env s) = (Fail e', x') \<longrightarrow>
      processDataProviderRestore lib hashFor sel sg b False s =
        (Fail (Wrapf ''validating backup URL: '' [] e'), s\<lparr>ps_env := x'\<rparr>))"
proof (intro conjI impI; (elim conjE)?)
  show "Backup_Process (lib\<lparr>http_Get := (\<lambda>tr. if tr = SafeTransport then http_Get lib tr else g)\<rparr>) hashFor sel sg b False s =
      Backup_Process lib hashFor sel sg b False s"
    using Backup_Process_unguarded [of lib g hashFor sel sg b] by (simp add: unguarded_def)
next
  assume "length (Tees (ps_ib s)) = 1" "ParseKeyDirectRestore lib (DataFixed (GeneralData (ps_ib s))) = Inr dr"
    and "safeurl_Validate lib (envelope_url lib dr) (ps_env s) = (Fail e, x)"
  with fetch_refused(2) [OF this(3)] show "processDirectRestore lib hashFor sel sg b False s =
      (Fail (Wrapf ''validating source proxy URL: '' [] e), s\<lparr>ps_env := x\<rparr>)"
    by (simp add: processDirectRestore_def bindA_def)
next
  assume "ParseKeyDataProviderRestore lib (DataFixed (GeneralData (ps_ib s))) = Inr dp"
    and "safeurl_Validate lib (dp_BackupUrl dp) (ps_env s) = (Fail e', x')"
  with fetch_refused(1) [OF this(2)] show "processDataProviderRestore lib hashFor sel sg b False s =
      (Fail (Wrapf ''validating backup URL: '' [] e'), s\<lparr>ps_env := x'\<rparr>)"
    by (simp add: processDataProviderRestore_def bindA_def)
qed

text \<open>
  An accepted URL, with an unguarded transport that would fail, is restored; a refused one is not, in either flow.
\<close>

lemma restores_are_guarded_witness:
  "let refuse = sample_backup_lib\<lparr>safeurl_Validate := (\<lambda>u n. (Fail (New ''private address''), n))\<rparr>
   in Backup_Process (sample_backup_lib\<lparr>http_Get := (\<lambda>tr. if tr = SafeTransport then http_Get sample_backup_lib tr
          else (\<lambda>u. failA (New ''unguarded'')))\<rparr>) sample_hash (\<lambda>n. (True, n)) sample_signer (SetOut (NewBase 14)) False sample_rst =
        (Ok (), sample_restored) \<and>
      processDirectRestore refuse sample_hash (\<lambda>n. (True, n)) sample_signer (SetOut (NewBase 14)) False sample_rst =
        (Fail (Wrapf ''validating source proxy URL: '' [] (New ''private address'')), sample_rst) \<and>
      processDataProviderRestore refuse sample_hash (\<lambda>n. (True, n)) sample_signer (SetOut (NewBase 14)) False sample_rst =
        (Fail (Wrapf ''validating backup URL: '' [] (New ''private address'')), sample_rst)"
proof -
  have "Backup_Process sample_backup_lib sample_hash (\<lambda>n. (True, n)) sample_signer (SetOut (NewBase 14)) False sample_rst =
      (Ok (), sample_restored)"
    by (rule sample_process_run)
  with restores_are_guarded [of sample_backup_lib "\<lambda>u. failA (New ''unguarded'')" sample_hash "\<lambda>n. (True, n)" sample_signer
      "SetOut (NewBase 14)" sample_rst]
  have "Backup_Process (sample_backup_lib\<lparr>http_Get := (\<lambda>tr. if tr = SafeTransport then http_Get sample_backup_lib tr
          else (\<lambda>u. failA (New ''unguarded'')))\<rparr>) sample_hash (\<lambda>n. (True, n)) sample_signer (SetOut (NewBase 14)) False sample_rst =
      (Ok (), sample_restored)"
    by metis
  moreover note restores_are_guarded [of "sample_backup_lib\<lparr>safeurl_Validate := (\<lambda>u n. (Fail (New ''private address''), n))\<rparr>"
      _ sample_hash "\<lambda>n. (True, n)" sample_signer "SetOut (NewBase 14)" sample_rst
      sample_dr "New ''private address''" 0 sample_dpr "New ''private address''" 0]
  ultimately show ?thesis unfolding Let_def
    by (simp add: sample_backup_lib_def)
qed

text \<open>
  C24. A direct restore whose envelope is fetched, signed by the source machine and for the requested backup
  is sent when its hashes can be computed and signed and the runtime chooses the send: the message is
  the instruction with the envelope as its fixed message and the signatures.
\<close>

theorem direct_restore_sent:
  assumes "Tees (ps_ib s) = [tm]" and "ParseKeyDirectRestore lib (DataFixed (GeneralData (ps_ib s))) = Inr req"
    and "fetch_envelope lib unsafe (envelope_url lib req) s = (Ok resp, s\<lparr>ps_env := x\<rparr>)"
    and "decodeActionResponse lib (limited sizeLimitDirectRestore (f_Body resp)) = Inr ar"
    and "validateActionResponseDirect lib ar (bp_chainID b) (dr_SourceTeeId req) (dr_BackupInstructionId req) = None"
    and "unmarshalSignedKeyDirectBackup lib (ar_Data (Result ar)) = Inr skdb"
    and "TEEKeyDirectBackupHash lib (bp_chainID b) (Keccak256Hash lib (Payload skdb)) = Inr h"
    and "utils_VerifySignature lib h (TEESignature skdb) (dr_SourceTeeId req) = None"
    and "unmarshalKeyDirectBackupPayload lib (Payload skdb) = Inr wid" and "same_backup (dr_BackupId req) wid"
    and "ib = (ps_ib s)\<lparr>GeneralData := (GeneralData (ps_ib s))\<lparr>AdditionalFixedMessage := ar_Data (Result ar)\<rparr>\<rparr>"
    and "hashesForSigning hashFor (bp_chainID b) ib = Inr hs" and "Sign sg hs x = (Ok sigs, y)"
    and "bp_out b" and "sel y = (True, z)"
  shows "processDirectRestore lib hashFor sel sg b unsafe s =
    (Ok (), s\<lparr>ps_ib := ib\<lparr>Signatures := sigs\<rparr>, ps_env := z, ps_out := ps_out s @ [ib\<lparr>Signatures := sigs\<rparr>]\<rparr>)"
  using assms by (rule processDirectRestore_run)

lemma direct_restore_sent_witness:
  "processDirectRestore sample_backup_lib sample_hash (\<lambda>n. (True, n)) sample_signer (SetOut (NewBase 14)) False sample_rst =
     (Ok (), sample_restored)"
  unfolding sample_restored_def
  by (subst direct_restore_sent [where tm = "sample_machine 1" and x = 1 and y = 1 and z = 1 and hs = "[15]" and sigs = "[[15]]",
        OF _ sample_envelope(1) sample_fetched sample_envelope(2) _ sample_envelope(3-7) sample_splices])
    (simp_all add: sample_response sample_spliced_hashes sample_spliced_Sign)

text \<open>
  A signer that owns no part of an accepted backup sends nothing, decrypts nothing and reports no error; a
  backup that lists it as an owner without a split for it ends the restore with a panic, and nothing is
  sent either.
\<close>

lemma unowned_restore_sends_nothing:
  assumes "ParseKeyDataProviderRestore lib (DataFixed (GeneralData (ps_ib s))) = Inr req"
    and "fetch_backup lib unsafe (dp_BackupUrl req) s = (Ok resp, s1)"
    and "accept_backup lib (bp_chainID b) req resp s1 = (Ok wb, s2)"
    and "marshalMetaData lib wb = Inr m" and "Identify sg (ps_env s2) = (Ok pk, x)"
    and "t = s2\<lparr>ps_ib := (ps_ib s2)\<lparr>GeneralData := (GeneralData (ps_ib s2))\<lparr>AdditionalFixedMessage := m\<rparr>\<rparr>, ps_env := x\<rparr>"
  shows "(\<not> owns pk (wb_ProviderParts wb) \<and> \<not> owns pk (wb_AdminParts wb) \<longrightarrow>
      processDataProviderRestore lib hashFor sel sg b unsafe s = (Ok (), t)) \<and>
    (\<forall>i. slices_Index (OwnersPublicKeys (wb_ProviderParts wb)) pk = Some i \<longrightarrow> length (Splits (wb_ProviderParts wb)) \<le> i \<longrightarrow>
      processDataProviderRestore lib hashFor sel sg b unsafe s = (Panic ''index out of range'', t))"
  using processDataProviderRestore_run [OF assms(1-5), of hashFor sel]
  by (auto simp: bindA_def plaintextForTEE_foreign plaintextForTEE_short send_split_def assms(6))

lemma unowned_restore_sends_nothing_witness:
  "\<exists>t. processDataProviderRestore sample_backup_lib sample_hash (\<lambda>n. (True, n)) sample_signer (SetOut (NewBase 14)) False sample_rst =
     (Ok (), t) \<and> ps_out t = []"
proof -
  let ?resp = "\<lparr>f_StatusCode = 200, f_ContentType = [], f_Body = ([1], False)\<rparr>"
  let ?s = "sample_rst\<lparr>ps_env := 1\<rparr>"
  have "ParseKeyDataProviderRestore sample_backup_lib (DataFixed (GeneralData (ps_ib sample_rst))) = Inr sample_dpr"
    "marshalMetaData sample_backup_lib sample_wb = Inr [33]"
    by (simp_all add: sample_backup_lib_def)
  moreover have "fetch_backup sample_backup_lib False (dp_BackupUrl sample_dpr) sample_rst = (Ok ?resp, ?s)"
    by (simp add: sample_fetch)
  moreover have "checkConsistency sample_backup_lib sample_dpr sample_wid [sample_machine 1] = None"
    unfolding checkConsistency_None by (simp add: sample_backup_lib_def sample_dpr_def sample_same sample_machine_def)
  then have "accept_backup sample_backup_lib (bp_chainID (SetOut (NewBase 14))) sample_dpr ?resp ?s = (Ok sample_wb, ?s)"
    by (simp add: accept_backup_def act_eval) (simp add: sample_backup_lib_def sample_wb_def)
  moreover have "Identify sample_signer (ps_env ?s) = (Ok \<lparr>PX = 1, PY = 2\<rparr>, 1)"
    by (simp add: sample_signer_def NewLocal_def Local_Identify_def)
  moreover have "\<not> owns \<lparr>PX = 1, PY = 2\<rparr> (wb_ProviderParts sample_wb)" "\<not> owns \<lparr>PX = 1, PY = 2\<rparr> (wb_AdminParts sample_wb)"
    by (simp_all add: owns_def sample_wb_def)
  ultimately show ?thesis
    using unowned_restore_sends_nothing [of sample_backup_lib sample_rst sample_dpr False ?resp ?s "SetOut (NewBase 14)"
        sample_wb ?s "[33]" sample_signer "\<lparr>PX = 1, PY = 2\<rparr>" 1 _ sample_hash "\<lambda>n. (True, n)"]
    by simp
qed

end
