(* ===== verification/Shutdown.thy ===== *)
theory Shutdown
  imports Client Restore
begin

text \<open>
  The goroutines of the pipeline as the wait group of \<open>internal/client/client.go\<close> sees them: where each stands in its
  loop, the two channels with their capacity, the cancelled context, and the counter that \<open>Client.Wait\<close> waits on.

  Steps say when a goroutine can go on: a send needs room, a receive an element, and every select offers the
  context's end as well. What the steps compute is in \<open>Collector\<close>, \<open>Router\<close>, \<open>Processor\<close>, \<open>FdcQueue\<close> and \<open>Sender\<close>; here the
  answers of the database, what processors make of an instruction and what the attempts at it return may be any.
  Outside the wait group run the goroutines that the router starts for instructions and the workers of the queue's
  library, on which the handler of a dequeued instruction runs. When the library's \<open>Dequeue\<close> returns without an
  instruction is a parameter, \<open>gives_up\<close>. The
  channels are never closed by the program, so that the branches for a closed channel have no step. A listener
  whose first query fails without a cancelled context panics, which ends the program, and has no step either.
\<close>

section \<open>The wait group\<close>

text \<open>\<open>sync.WaitGroup\<close>: a counter that must not become negative.\<close>

definition wg_Add :: "int \<Rightarrow> int \<Rightarrow> int res" where
  "wg_Add delta n = (if n + delta < 0 then Panic ''sync: negative WaitGroup counter'' else Ok (n + delta))"

definition wg_Done :: "int \<Rightarrow> int res" where
  "wg_Done = wg_Add (- 1)"

text \<open>\<open>Client.Wait\<close> returns when the counter is zero.\<close>

definition Client_Wait :: "int \<Rightarrow> bool" where
  "Client_Wait n \<longleftrightarrow> n = 0"

section \<open>Goroutines and channels\<close>

text \<open>
  Where a goroutine of the wait group stands. The listener fetches its first state, then is at the select of its loop,
  at its queries, or at the send of the logs it found. Of the two goroutines of a queue one drops what the queue reports;
  the other checks the context or is inside \<open>Dequeue\<close>. The router is at its select or has logs of a batch left to handle; the sender is at its select.
\<close>

datatype 'l task =
  Fetching | Listening | Querying | Pushing "'l list"
  | Dropping
  | Checking | Dequeuing
  | Receiving | Handling "'l list"
  | Relaying

definition chanCap :: nat where
  "chanCap = 50"

text \<open>
  \<open>inflight\<close> holds the goroutines that the router starts for instructions and \<open>on_workers\<close> the instructions handled on
  workers of the queues, which the wait group both does not know of. \<open>in_queues\<close> holds the instructions in any of the
  queues, \<open>posts\<close> the posts the sender has started.
\<close>

record 'l pipe =
  ctx_done :: bool
  wg :: int
  crashed :: bool
  tasks :: "'l task multiset"
  cToR :: "'l list list"
  rToS :: "base list"
  inflight :: "(proc \<times> base) multiset"
  in_queues :: "base multiset"
  on_workers :: "base multiset"
  posts :: "(base \<times> int) list"

fun goroutines :: "component \<Rightarrow> 'l task multiset" where
  "goroutines (CollectorLoop args) = {#Fetching#}"
| "goroutines (QueueWorkers names) = replicate_mset (card names) Dropping + replicate_mset (card names) Checking"
| "goroutines RouterLoop = {#Receiving#}"
| "goroutines (SenderLoop unsafe) = {#Relaying#}"

definition pipe_start :: "'x client \<Rightarrow> 'l pipe" where
  "pipe_start cl = \<lparr>ctx_done = False, wg = c_wg cl, crashed = False,
     tasks = sum_list (map goroutines (c_running cl)), cToR = [], rToS = [], inflight = {#},
     in_queues = {#}, on_workers = {#}, posts = []\<rparr>"

text \<open>
  One step of a goroutine on what is shared, with where it stands afterwards: nowhere when it returns. First the
  collector's \<open>instructionsListener\<close>, then the two goroutines of a queue, the router's and the sender's.
\<close>

inductive listener_task :: "'l pipe \<Rightarrow> 'l task \<Rightarrow> 'l pipe \<Rightarrow> 'l task option \<Rightarrow> bool" where
  Fetched: "listener_task s Fetching s (Some Listening)"
| FetchCancelled: "ctx_done s \<Longrightarrow> listener_task s Fetching s None"
| Tick: "listener_task s Listening s (Some Querying)"
| ListenDone: "ctx_done s \<Longrightarrow> listener_task s Listening s None"
| NoLogs: "listener_task s Querying s (Some Listening)"
| Logs: "logs \<noteq> [] \<Longrightarrow> listener_task s Querying s (Some (Pushing logs))"
| Push: "length (cToR s) < chanCap \<Longrightarrow>
    listener_task s (Pushing logs) (s\<lparr>cToR := cToR s @ [logs]\<rparr>) (Some Listening)"
| PushDone: "ctx_done s \<Longrightarrow> listener_task s (Pushing logs) s None"

text \<open>A dequeued instruction goes to a worker; the loop does not wait for its handler.\<close>

inductive queue_task :: "('l pipe \<Rightarrow> bool) \<Rightarrow> 'l pipe \<Rightarrow> 'l task \<Rightarrow> 'l pipe \<Rightarrow> 'l task option \<Rightarrow> bool"
  for gives_up where
  Drop: "queue_task gives_up s Dropping s (Some Dropping)"
| DropDone: "ctx_done s \<Longrightarrow> queue_task gives_up s Dropping s None"
| Check: "\<not> ctx_done s \<Longrightarrow> queue_task gives_up s Checking s (Some Dequeuing)"
| CheckDone: "ctx_done s \<Longrightarrow> queue_task gives_up s Checking s None"
| Dequeued: "in_queues s = add_mset b Q \<Longrightarrow>
    queue_task gives_up s Dequeuing (s\<lparr>in_queues := Q, on_workers := add_mset b (on_workers s)\<rparr>) (Some Checking)"
| GivesUp: "gives_up s \<Longrightarrow> queue_task gives_up s Dequeuing s (Some Checking)"

inductive router_task ::
    "('l \<Rightarrow> (proc \<times> base) option) \<Rightarrow> 'l pipe \<Rightarrow> 'l task \<Rightarrow> 'l pipe \<Rightarrow> 'l task option \<Rightarrow> bool"
  for handle where
  Receive: "cToR s = logs # rest \<Longrightarrow>
    router_task handle s Receiving (s\<lparr>cToR := rest\<rparr>) (Some (Handling logs))"
| ReceiveDone: "ctx_done s \<Longrightarrow> router_task handle s Receiving s None"
| Handle: "handle l = Some pb \<Longrightarrow>
    router_task handle s (Handling (l # ls)) (s\<lparr>inflight := add_mset pb (inflight s)\<rparr>) (Some (Handling ls))"
| HandleNone: "handle l = None \<Longrightarrow> router_task handle s (Handling (l # ls)) s (Some (Handling ls))"
| Handled: "router_task handle s (Handling []) s (Some Receiving)"

inductive sender_task :: "'l pipe \<Rightarrow> 'l task \<Rightarrow> 'l pipe \<Rightarrow> 'l task option \<Rightarrow> bool" where
  Relay: "rToS s = b # rest \<Longrightarrow>
    sender_task s Relaying (s\<lparr>rToS := rest, posts := posts s @ fan_out b\<rparr>) (Some Relaying)"
| RelayDone: "ctx_done s \<Longrightarrow> sender_task s Relaying s None"

definition task_step ::
    "('l pipe \<Rightarrow> bool) \<Rightarrow> ('l \<Rightarrow> (proc \<times> base) option) \<Rightarrow> 'l pipe \<Rightarrow> 'l task \<Rightarrow> 'l pipe \<Rightarrow> 'l task option \<Rightarrow> bool" where
  "task_step gives_up handle s k t k' \<longleftrightarrow>
     listener_task s k t k' \<or> queue_task gives_up s k t k' \<or> router_task handle s k t k' \<or> sender_task s k t k'"

text \<open>
  A step of the pipeline: \<open>main\<close> cancels the context, a goroutine goes on, or one returns and is done in the wait
  group. Beside them a goroutine of an instruction ends: that of an FDC2 instruction with it in a queue or not, that
  of another with its message in the channel or not. And a handler on a worker ends, with its message in the channel
  or not, or with an error after which the library puts the instruction into the queue again.
\<close>

definition leave :: "'l pipe \<Rightarrow> 'l pipe" where
  "leave s = (case wg_Done (wg s) of Ok n \<Rightarrow> s\<lparr>wg := n\<rparr> | _ \<Rightarrow> s\<lparr>crashed := True\<rparr>)"

inductive pipe_step :: "('l pipe \<Rightarrow> bool) \<Rightarrow> ('l \<Rightarrow> (proc \<times> base) option) \<Rightarrow> 'l pipe \<Rightarrow> 'l pipe \<Rightarrow> bool"
  for gives_up handle where
  Cancelled: "pipe_step gives_up handle s (s\<lparr>ctx_done := True\<rparr>)"
| Move: "tasks s = add_mset k M \<Longrightarrow> task_step gives_up handle s k t (Some k') \<Longrightarrow>
    pipe_step gives_up handle s (t\<lparr>tasks := add_mset k' M\<rparr>)"
| Return: "tasks s = add_mset k M \<Longrightarrow> task_step gives_up handle s k t None \<Longrightarrow>
    pipe_step gives_up handle s (leave (t\<lparr>tasks := M\<rparr>))"
| InflightSends: "inflight s = add_mset (p, b) M \<Longrightarrow> p \<noteq> FDCProcessor \<Longrightarrow> length (rToS s) < chanCap \<Longrightarrow>
    origin b' = origin b \<Longrightarrow> pipe_step gives_up handle s (s\<lparr>inflight := M, rToS := rToS s @ [b']\<rparr>)"
| InflightQueues: "inflight s = add_mset (FDCProcessor, b) M \<Longrightarrow>
    pipe_step gives_up handle s (s\<lparr>inflight := M, in_queues := add_mset b (in_queues s)\<rparr>)"
| InflightEnds: "inflight s = add_mset pb M \<Longrightarrow> pipe_step gives_up handle s (s\<lparr>inflight := M\<rparr>)"
| WorkerSends: "on_workers s = add_mset b M \<Longrightarrow> length (rToS s) < chanCap \<Longrightarrow> origin b' = origin b \<Longrightarrow>
    pipe_step gives_up handle s (s\<lparr>on_workers := M, rToS := rToS s @ [b']\<rparr>)"
| WorkerRetries: "on_workers s = add_mset b M \<Longrightarrow> origin b' = origin b \<Longrightarrow>
    pipe_step gives_up handle s (s\<lparr>on_workers := M, in_queues := add_mset b' (in_queues s)\<rparr>)"
| WorkerEnds: "on_workers s = add_mset b M \<Longrightarrow> pipe_step gives_up handle s (s\<lparr>on_workers := M\<rparr>)"

inductive_cases pipe_stepE: "pipe_step gives_up handle s t"
inductive_cases listener_returnsE: "listener_task s k t None"
inductive_cases queue_returnsE: "queue_task gives_up s k t None"
inductive_cases router_returnsE: "router_task handle s k t None"
inductive_cases sender_returnsE: "sender_task s k t None"

lemmas task_intros = listener_task.intros queue_task.intros router_task.intros sender_task.intros

section \<open>The wait group counts the goroutines\<close>

text \<open>
  The counter is the number of goroutines still running, no \<open>Done\<close> makes it negative, no channel holds more than its
  capacity, and nobody is gone while the context lasts: the size stays what it was at the start.
\<close>

definition pipe_inv :: "nat \<Rightarrow> 'l pipe \<Rightarrow> bool" where
  "pipe_inv n s \<longleftrightarrow> wg s = int (size (tasks s)) \<and> \<not> crashed s \<and> length (cToR s) \<le> chanCap \<and> length (rToS s) \<le> chanCap \<and>
     (\<not> ctx_done s \<longrightarrow> size (tasks s) = n)"

lemma task_step_keeps:
  assumes "task_step gives_up handle s k t k'"
  shows "wg t = wg s \<and> crashed t = crashed s \<and> tasks t = tasks s \<and> ctx_done t = ctx_done s \<and>
    (length (cToR s) \<le> chanCap \<longrightarrow> length (cToR t) \<le> chanCap) \<and> (length (rToS s) \<le> chanCap \<longrightarrow> length (rToS t) \<le> chanCap)"
  using assms unfolding task_step_def
  by (elim disjE listener_task.cases queue_task.cases router_task.cases sender_task.cases) simp_all

lemma task_returns: "task_step gives_up handle s k t None \<Longrightarrow> ctx_done s \<and> t = s"
  by (auto simp: task_step_def elim: listener_returnsE queue_returnsE router_returnsE sender_returnsE)

lemma leave_counted:
  assumes "wg s = int (Suc n)"
  shows "leave s = s\<lparr>wg := int n\<rparr>"
  using assms by (simp add: leave_def wg_Done_def wg_Add_def)

lemma pipe_inv_step:
  assumes "pipe_step gives_up handle s t" and "pipe_inv n s"
  shows "pipe_inv n t"
  using assms(1)
proof (cases rule: pipe_step.cases)
  case (Move k M u k')
  with assms(2) task_step_keeps [OF Move(3)] show ?thesis by (auto simp: pipe_inv_def)
next
  case (Return k M u)
  from task_returns [OF Return(3)] have u: "ctx_done s" "u = s" by simp_all
  have "wg (s\<lparr>tasks := M\<rparr>) = int (Suc (size M))" using assms(2) Return(2) by (simp add: pipe_inv_def)
  from leave_counted [OF this] have "t = s\<lparr>tasks := M, wg := int (size M)\<rparr>"
    by (simp add: Return(1) u)
  with assms(2) u show ?thesis by (simp add: pipe_inv_def)
qed (use assms(2) in \<open>auto simp: pipe_inv_def\<close>)

lemma pipe_inv_run:
  assumes "(pipe_step gives_up handle)\<^sup>*\<^sup>* s t" and "pipe_inv n s"
  shows "pipe_inv n t"
  using assms by (induction rule: rtranclp_induct) (auto intro: pipe_inv_step)

lemma pipe_inv_start:
  assumes "c_running cl = [CollectorLoop args, QueueWorkers names, RouterLoop, SenderLoop unsafe]"
    and "c_wg cl = 2 * int (card names) + 3"
  shows "pipe_inv (2 * card names + 3) (pipe_start cl)"
  using assms by (simp add: pipe_inv_def pipe_start_def)

lemma program_start_running:
  assumes "program_start sprintf abi newFilterer readTo unmarshalText netListen connect w su x = Booted cl hs"
  obtains args names unsafe where "c_running cl = [CollectorLoop args, QueueWorkers names, RouterLoop, SenderLoop unsafe]"
    and "c_wg cl = 2 * int (card names) + 3"
proof -
  from assms obtain selector where
    "main_start readTo unmarshalText netListen connect w (su\<lparr>su_selector := selector\<rparr>) x = Booted cl hs"
    by (rule program_start_Booted)
  then obtain c :: file_config where "main_boot netListen connect w (su\<lparr>su_selector := selector\<rparr>) (Cfg c) x = Booted cl hs"
    by (rule main_start_Booted)
  then obtain cl0 x' where "newWithDB (su\<lparr>su_selector := selector\<rparr>) (Cfg c) (health_status (Cfg c)) x = (Ok cl0, x')"
    and cl: "cl = cl0\<lparr>c_router := Router_SetOut (c_router cl0),
        c_running := c_running cl0 @ [CollectorLoop (listener_args_of selector (c_collector cl0)),
          QueueWorkers (dom (f_queues (fdcProcessor (c_router cl0)))), RouterLoop, SenderLoop (c_unsafe cl0)],
        c_wg := c_wg cl0 + 2 * int (card (dom (f_queues (fdcProcessor (c_router cl0))))) + 3,
        c_status := SetStarted (c_status cl0)\<rparr>"
    by (rule main_boot_Booted) simp
  then have "c_running cl0 = []" "c_wg cl0 = 0" by (auto elim: newWithDB_Ok)
  then show ?thesis by (intro that) (simp_all add: cl)
qed

lemma program_start_inv:
  assumes "program_start sprintf abi newFilterer readTo unmarshalText netListen connect w su x = Booted cl hs"
  obtains n where "0 < n" and "pipe_inv n (pipe_start cl)"
proof -
  from assms obtain args names unsafe where "c_running cl = [CollectorLoop args, QueueWorkers names, RouterLoop, SenderLoop unsafe]"
    and "c_wg cl = 2 * int (card names) + 3" by (rule program_start_running)
  then have "pipe_inv (2 * card names + 3) (pipe_start cl)" by (rule pipe_inv_start)
  then show ?thesis by (rule that [rotated]) simp
qed

section \<open>After the cancel everything can return\<close>

text \<open>The steps of its own that a goroutine needs at most to return once the context is cancelled.\<close>

fun own_steps :: "'l task \<Rightarrow> nat" where
  "own_steps Querying = 2"
| "own_steps Dequeuing = 2"
| "own_steps (Handling ls) = length ls + 2"
| "own_steps k = 1"

definition own_rest :: "'l task option \<Rightarrow> nat" where
  "own_rest k = (case k of None \<Rightarrow> 0 | Some k \<Rightarrow> own_steps k)"

text \<open>
  A goroutine of a cancelled context is never stuck, whatever the channels hold: it has a step towards its return
  that needs nothing of the others, sends nothing and receives nothing. Of the queue's library it needs that
  \<open>Dequeue\<close> gives up once the context it was given is done.
\<close>

lemma task_leaves:
  assumes "\<And>u. ctx_done u \<Longrightarrow> gives_up u" and "ctx_done s"
  obtains t k' where "task_step gives_up handle s k t k'" and "own_steps k = Suc (own_rest k')"
    and "cToR t = cToR s" "rToS t = rToS s" "posts t = posts s" "inflight s \<subseteq># inflight t"
proof (cases k)
  case (Handling ls)
  show ?thesis
  proof (cases ls)
    case Nil
    show ?thesis by (rule that [of s "Some Receiving"]) (simp_all add: own_rest_def Handling Nil task_step_def task_intros)
  next
    case (Cons l ls')
    show ?thesis
    proof (cases "handle l")
      case None
      then show ?thesis
        by (intro that [of s "Some (Handling ls')"]) (simp_all add: own_rest_def Handling Cons task_step_def task_intros)
    next
      case (Some pb)
      then show ?thesis
        by (intro that [of "s\<lparr>inflight := add_mset pb (inflight s)\<rparr>" "Some (Handling ls')"])
          (simp_all add: own_rest_def Handling Cons task_step_def task_intros)
    qed
  qed
qed (rule that [of s "case k of Querying \<Rightarrow> Some Listening | Dequeuing \<Rightarrow> Some Checking | _ \<Rightarrow> None"];
     simp add: own_rest_def assms task_step_def task_intros)+

definition exits :: "'l pipe \<Rightarrow> nat" where
  "exits s = sum_mset (image_mset own_steps (tasks s))"

lemma pipe_leaves:
  assumes "\<And>u. ctx_done u \<Longrightarrow> gives_up u" and "pipe_inv n s" and "ctx_done s" and "tasks s \<noteq> {#}"
  obtains t where "pipe_step gives_up handle s t" and "exits s = Suc (exits t)" and "ctx_done t"
    and "cToR t = cToR s" "rToS t = rToS s" "posts t = posts s" "inflight s \<subseteq># inflight t"
proof -
  from assms(4) obtain k M where k: "tasks s = add_mset k M" by (metis multiset_cases)
  from assms(1,3) obtain t k' where t: "task_step gives_up handle s k t k'" "own_steps k = Suc (own_rest k')"
    and same: "cToR t = cToR s" "rToS t = rToS s" "posts t = posts s" "inflight s \<subseteq># inflight t" by (rule task_leaves [of gives_up])
  note keeps = task_step_keeps [OF t(1)]
  show ?thesis
  proof (cases k')
    case (Some k2)
    with pipe_step.Move [OF k] t(1) have "pipe_step gives_up handle s (t\<lparr>tasks := add_mset k2 M\<rparr>)" by blast
    then show ?thesis by (rule that) (use k t(2) Some keeps same assms(3) in \<open>simp_all add: exits_def own_rest_def\<close>)
  next
    case None
    with pipe_step.Return [OF k] t(1) have "pipe_step gives_up handle s (leave (t\<lparr>tasks := M\<rparr>))" by blast
    moreover have "wg (t\<lparr>tasks := M\<rparr>) = int (Suc (size M))" using assms(2) k keeps by (simp add: pipe_inv_def)
    note leave_counted [OF this]
    ultimately show ?thesis
      by (intro that [of "leave (t\<lparr>tasks := M\<rparr>)"]) (use k t(2) None keeps same assms(3) in \<open>simp_all add: exits_def own_rest_def\<close>)
  qed
qed

lemma pipe_drains:
  assumes ends: "\<And>u. ctx_done u \<Longrightarrow> gives_up u" and "pipe_inv n s" and "ctx_done s"
  shows "\<exists>t. (pipe_step gives_up handle ^^ exits s) s t \<and> tasks t = {#} \<and> cToR t = cToR s \<and> rToS t = rToS s \<and> posts t = posts s \<and>
    inflight s \<subseteq># inflight t"
  using assms(2,3)
proof (induction "exits s" arbitrary: s)
  case 0
  have "own_steps k \<noteq> 0" for k :: "'a task" by (cases k) simp_all
  with 0(1) have "tasks s = {#}" by (cases "tasks s") (auto simp: exits_def)
  with 0(1) show ?case by (intro exI [of _ s]) simp
next
  case (Suc m)
  then have "tasks s \<noteq> {#}" by (auto simp: exits_def)
  from pipe_leaves [where gives_up = gives_up and handle = handle, OF ends Suc.prems this] obtain u where
      u: "pipe_step gives_up handle s u" "exits s = Suc (exits u)" "ctx_done u"
      "cToR u = cToR s" "rToS u = rToS s" "posts u = posts s" "inflight s \<subseteq># inflight u" by blast
  with Suc(1) [of u] Suc(2) pipe_inv_step [OF u(1) Suc.prems(1)] obtain t where
      t: "(pipe_step gives_up handle ^^ exits u) u t" "tasks t = {#}" "cToR t = cToR u" "rToS t = rToS u" "posts t = posts u"
      "inflight u \<subseteq># inflight t" by auto
  from relpowp_Suc_I2 [OF u(1) t(1)] subset_mset.order_trans [OF u(7) t(6)] t(2-5) u(2,4-6) show ?case
    by (intro exI [of _ t]) simp
qed

section \<open>After the wait nothing is taken\<close>

text \<open>
  The instructions that something outside the wait group still has, as what the chain fixed of them; with no
  goroutine of the wait group left only they take steps.
\<close>

definition untracked :: "'l pipe \<Rightarrow> (event \<times> tee_machine list \<times> data) multiset" where
  "untracked s = image_mset (\<lambda>pb. origin (snd pb)) (inflight s) + image_mset origin (on_workers s)"

definition quiet_after :: "'l pipe \<Rightarrow> 'l pipe \<Rightarrow> bool" where
  "quiet_after s t \<longleftrightarrow> tasks t = {#} \<and> wg t = wg s \<and> cToR t = cToR s \<and> posts t = posts s \<and>
     (\<exists>bs Q. rToS t = rToS s @ bs \<and> in_queues t = in_queues s + Q \<and>
        mset (map origin bs) + image_mset origin Q + untracked t \<subseteq># untracked s)"

text \<open>One ends: its message is sent, it is in a queue again, or it is gone.\<close>

lemma quiet_after_less:
  assumes "quiet_after s t" and "u = t\<lparr>inflight := I, on_workers := W, rToS := rToS t @ bs', in_queues := in_queues t + Q'\<rparr>"
    and "mset (map origin bs') + image_mset origin Q' + (image_mset (\<lambda>pb. origin (snd pb)) I + image_mset origin W) \<subseteq># untracked t"
  shows "quiet_after s u"
proof -
  from assms(1) obtain bs Q where t: "tasks t = {#}" "wg t = wg s" "cToR t = cToR s" "posts t = posts s"
      "rToS t = rToS s @ bs" "in_queues t = in_queues s + Q"
    and le: "mset (map origin bs) + image_mset origin Q + untracked t \<subseteq># untracked s"
    by (auto simp: quiet_after_def)
  from assms(3) have "mset (map origin (bs @ bs')) + image_mset origin (Q + Q') + untracked u
      \<subseteq># mset (map origin bs) + image_mset origin Q + untracked t"
    by (simp add: assms(2) untracked_def ac_simps)
  from subset_mset.order_trans [OF this le] t show ?thesis
    unfolding quiet_after_def by (intro conjI exI [of _ "bs @ bs'"] exI [of _ "Q + Q'"]) (simp_all add: assms(2) ac_simps)
qed

lemma quiet_after_step:
  assumes "pipe_step gives_up handle t u" and "quiet_after s t"
  shows "quiet_after s u"
  using assms(1)
proof (cases rule: pipe_step.cases)
  case Cancelled
  with assms(2) show ?thesis by (simp add: quiet_after_def untracked_def)
next
  case (InflightSends p b M b')
  then show ?thesis
    by (intro quiet_after_less [OF assms(2), where I = M and W = "on_workers t" and bs' = "[b']" and Q' = "{#}"]) (simp_all add: untracked_def)
next
  case (InflightQueues b M)
  then show ?thesis
    by (intro quiet_after_less [OF assms(2), where I = M and W = "on_workers t" and bs' = "[]" and Q' = "{#b#}"]) (simp_all add: untracked_def)
next
  case (InflightEnds pb M)
  then show ?thesis
    by (intro quiet_after_less [OF assms(2), where I = M and W = "on_workers t" and bs' = "[]" and Q' = "{#}"]) (simp_all add: untracked_def)
next
  case (WorkerSends b M b')
  then show ?thesis
    by (intro quiet_after_less [OF assms(2), where I = "inflight t" and W = M and bs' = "[b']" and Q' = "{#}"]) (simp_all add: untracked_def)
next
  case (WorkerRetries b M b')
  then show ?thesis
    by (intro quiet_after_less [OF assms(2), where I = "inflight t" and W = M and bs' = "[]" and Q' = "{#b'#}"]) (simp_all add: untracked_def)
next
  case (WorkerEnds b M)
  then show ?thesis
    by (intro quiet_after_less [OF assms(2), where I = "inflight t" and W = M and bs' = "[]" and Q' = "{#}"]) (simp_all add: untracked_def)
qed (use assms(2) in \<open>simp_all add: quiet_after_def\<close>)

lemma quiet_after_run:
  assumes "(pipe_step gives_up handle)\<^sup>*\<^sup>* s t" and "tasks s = {#}"
  shows "quiet_after s t"
  using assms(1)
proof (induction rule: rtranclp_induct)
  case base
  with assms(2) show ?case by (simp add: quiet_after_def)
qed (rule quiet_after_step)

text \<open>
  A run in which the listener delivers one log, the router starts the goroutine of its instruction and the cancel comes
  before that ends.
\<close>

lemma goes:
  "tasks s = add_mset k M \<Longrightarrow> task_step gives_up handle s k t (Some k') \<Longrightarrow> u = t\<lparr>tasks := add_mset k' M\<rparr> \<Longrightarrow>
     pipe_step gives_up handle s u"
  using pipe_step.Move by blast

lemma dispatch_reached:
  assumes "tasks s = {#Fetching, Receiving#} + M" and "cToR s = []" and "handle l = Some pb"
  shows "(pipe_step gives_up handle)\<^sup>*\<^sup>* s (s\<lparr>tasks := {#Listening, Handling []#} + M, cToR := [], inflight := add_mset pb (inflight s)\<rparr>)"
proof -
  let ?S = "\<lambda>q c i. s\<lparr>tasks := q + M, cToR := c, inflight := i\<rparr>" and ?I = "inflight s" and ?step = "pipe_step gives_up handle"
  have "s = ?S {#Fetching, Receiving#} [] ?I" using assms(1,2) by (cases s) simp
  moreover have "?step (?S {#Fetching, Receiving#} [] ?I) (?S {#Listening, Receiving#} [] ?I)"
    by (rule goes [of _ Fetching "{#Receiving#} + M" _ _ "?S {#Fetching, Receiving#} [] ?I" Listening])
      (simp_all add: task_step_def task_intros)
  moreover have "?step (?S {#Listening, Receiving#} [] ?I) (?S {#Querying, Receiving#} [] ?I)"
    by (rule goes [of _ Listening "{#Receiving#} + M" _ _ "?S {#Listening, Receiving#} [] ?I" Querying])
      (simp_all add: task_step_def task_intros)
  moreover have "?step (?S {#Querying, Receiving#} [] ?I) (?S {#Pushing [l], Receiving#} [] ?I)"
    by (rule goes [of _ Querying "{#Receiving#} + M" _ _ "?S {#Querying, Receiving#} [] ?I" "Pushing [l]"])
      (simp_all add: task_step_def task_intros)
  moreover have "?step (?S {#Pushing [l], Receiving#} [] ?I) (?S {#Listening, Receiving#} [[l]] ?I)"
  proof (rule goes [of _ "Pushing [l]" "{#Receiving#} + M" _ _ "?S {#Pushing [l], Receiving#} [[l]] ?I" Listening])
    show "task_step gives_up handle (?S {#Pushing [l], Receiving#} [] ?I) (Pushing [l]) (?S {#Pushing [l], Receiving#} [[l]] ?I) (Some Listening)"
      using listener_task.Push [of "?S {#Pushing [l], Receiving#} [] ?I" "[l]"] by (simp add: task_step_def chanCap_def)
  qed simp_all
  moreover have "?step (?S {#Listening, Receiving#} [[l]] ?I) (?S {#Listening, Handling [l]#} [] ?I)"
  proof (rule goes [of _ Receiving "{#Listening#} + M" _ _ "?S {#Listening, Receiving#} [] ?I" "Handling [l]"])
    show "task_step gives_up handle (?S {#Listening, Receiving#} [[l]] ?I) Receiving (?S {#Listening, Receiving#} [] ?I) (Some (Handling [l]))"
      using router_task.Receive [of "?S {#Listening, Receiving#} [[l]] ?I" "[l]" "[]" handle] by (simp add: task_step_def)
  qed (simp_all add: add_mset_commute)
  moreover have "?step (?S {#Listening, Handling [l]#} [] ?I) (?S {#Listening, Handling []#} [] (add_mset pb ?I))"
  proof (rule goes [of _ "Handling [l]" "{#Listening#} + M" _ _ "?S {#Listening, Handling [l]#} [] (add_mset pb ?I)" "Handling []"])
    show "task_step gives_up handle (?S {#Listening, Handling [l]#} [] ?I) (Handling [l])
        (?S {#Listening, Handling [l]#} [] (add_mset pb ?I)) (Some (Handling []))"
      using assms(3) router_task.Handle [where handle = handle and l = l and pb = pb and s = "?S {#Listening, Handling [l]#} [] ?I" and ls = "[]"]
      by (simp add: task_step_def)
  qed (simp_all add: add_mset_commute)
  ultimately show ?thesis
    by (metis (no_types, lifting) converse_rtranclp_into_rtranclp rtranclp.rtrancl_refl)
qed

lemma waits_in_flight:
  fixes cl :: "'x client" and l :: 'l
  assumes "program_start sprintf abi newFilterer readTo unmarshalText netListen connect w su x = Booted cl hs" and "handle l = Some pb"
  obtains s where "(pipe_step ctx_done handle)\<^sup>*\<^sup>* (pipe_start cl) s" and "tasks s = {#}" "wg s = 0" "rToS s = []"
    and "pb \<in># inflight s"
proof -
  let ?step = "pipe_step ctx_done handle" and ?s0 = "pipe_start cl :: 'l pipe"
  from assms(1) obtain n where inv0: "pipe_inv n ?s0" by (rule program_start_inv)
  from assms(1) obtain args names unsafe where "c_running cl = [CollectorLoop args, QueueWorkers names, RouterLoop, SenderLoop unsafe]"
    by (rule program_start_running)
  then have start: "tasks ?s0 = {#Fetching, Receiving#} + (goroutines (QueueWorkers names) + {#Relaying#})" "cToR ?s0 = []"
    by (simp_all add: pipe_start_def)
  let ?s1 = "?s0\<lparr>tasks := {#Listening, Handling []#} + (goroutines (QueueWorkers names) + {#Relaying#}), cToR := [],
      inflight := add_mset pb (inflight ?s0)\<rparr>"
    and ?s2 = "(?s0\<lparr>tasks := {#Listening, Handling []#} + (goroutines (QueueWorkers names) + {#Relaying#}), cToR := [],
      inflight := add_mset pb (inflight ?s0)\<rparr>)\<lparr>ctx_done := True\<rparr>"
  from start assms(2) have "?step\<^sup>*\<^sup>* ?s0 ?s1" by (rule dispatch_reached)
  from this pipe_step.Cancelled have reach: "?step\<^sup>*\<^sup>* ?s0 ?s2" by (rule rtranclp.rtrancl_into_rtrancl)
  from this inv0 have inv: "pipe_inv n ?s2" by (rule pipe_inv_run)
  from pipe_drains [where gives_up = ctx_done and handle = handle, OF _ inv] obtain t where t: "(?step ^^ exits ?s2) ?s2 t" "tasks t = {#}" "rToS t = rToS ?s2" "inflight ?s2 \<subseteq># inflight t"
    by auto
  from reach relpowp_imp_rtranclp [OF t(1)] have all: "?step\<^sup>*\<^sup>* ?s0 t" by (rule rtranclp_trans)
  from all inv0 have "pipe_inv n t" by (rule pipe_inv_run)
  with t(2) have "wg t = 0" by (simp add: pipe_inv_def)
  moreover from t(3) have "rToS t = []" by (simp add: pipe_start_def)
  moreover from t(4) have "pb \<in># inflight t" by (simp add: insert_subset_eq_iff)
  ultimately show ?thesis using all t(2) by (intro that)
qed

section \<open>Properties\<close>

text \<open>
  C13. Shutting down never deadlocks: in whatever state the cancel of the context finds the running program, with
  channels full or logs left to handle, it can reach the end of the wait by a stated number of steps in which every goroutine
  returns on its own, sending, receiving and posting nothing. Of the queue's library this needs that a \<open>Dequeue\<close>
  whose context is done returns; when else it does may be anything.
\<close>

theorem shutdown_completes:
  fixes s :: "'r db_log pipe"
  assumes "program_start sprintf abi newFilterer readTo unmarshalText netListen connect w su x = Booted cl hs"
    and "(pipe_step gives_up (dispatched_of ol convert parse (c_router cl)))\<^sup>*\<^sup>* (pipe_start cl) s" and "ctx_done s"
    and "\<And>u. ctx_done u \<Longrightarrow> gives_up u"
  shows "\<exists>t. (pipe_step gives_up (dispatched_of ol convert parse (c_router cl)) ^^ exits s) s t \<and> tasks t = {#} \<and>
    Client_Wait (wg t) \<and> \<not> crashed t \<and> cToR t = cToR s \<and> rToS t = rToS s \<and> posts t = posts s"
proof -
  from assms(1) obtain n where "pipe_inv n (pipe_start cl :: 'r db_log pipe)" by (rule program_start_inv)
  with assms(2) have inv: "pipe_inv n s" by (rule pipe_inv_run)
  from pipe_drains [where gives_up = gives_up, OF assms(4) this assms(3)] obtain t where
    t: "(pipe_step gives_up (dispatched_of ol convert parse (c_router cl)) ^^ exits s) s t" "tasks t = {#}"
      "cToR t = cToR s" "rToS t = rToS s" "posts t = posts s" by blast
  from pipe_inv_run [OF relpowp_imp_rtranclp [OF t(1)] inv] t show ?thesis
    by (intro exI [of _ t]) (simp add: pipe_inv_def Client_Wait_def)
qed

text \<open>The start on sample data, and the cancel of its context.\<close>

lemma sample_boot:
  obtains cl hs where "program_start (\<lambda>f as. f) sample_abi None sample_readTo (\<lambda>t. Inl CtxErr) sample_bind None (\<lambda>p. None)
      sample_startup 0 = Booted cl hs"
proof -
  have "sample_startup\<lparr>su_selector := 9\<rparr> = sample_startup" by (simp add: sample_startup_def)
  with sample_start show ?thesis
    by (auto simp: program_start_def collector_init_def instructions_init_def sample_abi_def intro: that)
qed

lemma sample_dispatchable:
  obtains parse b where "dispatched_of sample_ops Inr parse r sample_log = Some (BackupProcessor, b)"
proof -
  let ?ev = "sample_event\<lparr>ev_Cosigners := (case Filterer r of Some (CosignerFilterer a) \<Rightarrow> [a] | _ \<Rightarrow> [])\<rparr>"
  have "relevant r ?ev" by (simp add: relevant_def split: option.split filterer.split)
  moreover have "Route sample_ops (parsed (LogTimestamp sample_log) ?ev) = Inr BackupProcessor"
    by (simp add: Route_def instClass_def sample_ops_def sample_event_def Let_def)
  ultimately have "Router_Handle sample_ops Inr (\<lambda>l. Inr ?ev) r sample_log =
      Inr (Some (BackupProcessor, parsed (LogTimestamp sample_log) ?ev))"
    unfolding Router_Handle_Some by (intro exI [of _ ?ev]) (simp add: parseTeeInstructionsSent_def)
  then show ?thesis by (intro that) (simp only: dispatched_of_Some)
qed

lemma cancelled_reached: "(pipe_step gives_up handle)\<^sup>*\<^sup>* (pipe_start cl) ((pipe_start cl)\<lparr>ctx_done := True\<rparr>)"
  using pipe_step.Cancelled by (rule r_into_rtranclp)

lemma shutdown_completes_witness:
  "\<exists>cl hs t. program_start (\<lambda>f as. f) sample_abi None sample_readTo (\<lambda>t. Inl CtxErr) sample_bind None (\<lambda>p. None)
      sample_startup 0 = Booted cl hs \<and>
    (pipe_step ctx_done (dispatched_of sample_ops Inr (\<lambda>l :: unit db_log. Inr sample_event) (c_router cl))
      ^^ exits ((pipe_start cl :: unit db_log pipe)\<lparr>ctx_done := True\<rparr>)) ((pipe_start cl)\<lparr>ctx_done := True\<rparr>) t \<and>
    Client_Wait (wg t)"
proof -
  obtain cl hs where run: "program_start (\<lambda>f as. f) sample_abi None sample_readTo (\<lambda>t. Inl CtxErr) sample_bind None (\<lambda>p. None)
      sample_startup 0 = Booted cl hs" by (rule sample_boot)
  let ?s = "(pipe_start cl :: unit db_log pipe)\<lparr>ctx_done := True\<rparr>"
  have "ctx_done ?s" by simp
  from shutdown_completes [where gives_up = ctx_done, OF run cancelled_reached this] run show ?thesis by blast
qed

text \<open>
  C14. The end of the wait is the end of the pipeline: the counter of the wait group is at any time the number of its goroutines, it
  never becomes negative, and it is zero only after the cancel, when all of them have returned. From then on no log is
  taken, nothing is taken from a queue, no post is started and no goroutine added. Only the goroutines of instructions
  and the handlers on workers of the queues, which the wait does not track, may still end: each with at most one
  message for its instruction, which is not posted, or with the instruction in a queue, from where it is not taken.
\<close>

theorem wait_is_last:
  fixes s :: "'r db_log pipe"
  assumes "program_start sprintf abi newFilterer readTo unmarshalText netListen connect w su x = Booted cl hs"
    and "(pipe_step gives_up (dispatched_of ol convert parse (c_router cl)))\<^sup>*\<^sup>* (pipe_start cl) s"
  shows "wg s = int (size (tasks s)) \<and> \<not> crashed s \<and> length (cToR s) \<le> 50 \<and> length (rToS s) \<le> 50 \<and>
    (Client_Wait (wg s) \<longrightarrow> ctx_done s \<and> tasks s = {#} \<and>
      (\<forall>t. (pipe_step gives_up (dispatched_of ol convert parse (c_router cl)))\<^sup>*\<^sup>* s t \<longrightarrow>
        tasks t = {#} \<and> Client_Wait (wg t) \<and> cToR t = cToR s \<and> posts t = posts s \<and>
        (\<exists>bs Q. rToS t = rToS s @ bs \<and> in_queues t = in_queues s + Q \<and>
          mset (map origin bs) + image_mset origin Q + untracked t \<subseteq># untracked s)))"
proof -
  from assms(1) obtain n where "0 < n" "pipe_inv n (pipe_start cl :: 'r db_log pipe)" by (rule program_start_inv)
  with assms(2) have inv: "pipe_inv n s" by (metis pipe_inv_run)
  then have counted: "wg s = int (size (tasks s)) \<and> \<not> crashed s \<and> length (cToR s) \<le> 50 \<and> length (rToS s) \<le> 50"
    by (simp add: pipe_inv_def chanCap_def)
  have "ctx_done s \<and> tasks s = {#}" if "Client_Wait (wg s)"
    using inv that \<open>0 < n\<close> by (auto simp: pipe_inv_def Client_Wait_def)
  moreover have "tasks t = {#} \<and> Client_Wait (wg t) \<and> cToR t = cToR s \<and> posts t = posts s \<and>
      (\<exists>bs Q. rToS t = rToS s @ bs \<and> in_queues t = in_queues s + Q \<and>
        mset (map origin bs) + image_mset origin Q + untracked t \<subseteq># untracked s)"
    if "Client_Wait (wg s)" "tasks s = {#}" "(pipe_step gives_up (dispatched_of ol convert parse (c_router cl)))\<^sup>*\<^sup>* s t" for t
    using quiet_after_run [OF that(3,2)] that(1) unfolding quiet_after_def by metis
  ultimately show ?thesis using counted by metis
qed

text \<open>
  On sample data: a run in which the wait ends while the instruction of one log is in flight, whose message is sent
  afterwards and not posted.
\<close>

lemma wait_is_last_witness:
  "\<exists>cl hs parse s t b. program_start (\<lambda>f as. f) sample_abi None sample_readTo (\<lambda>t. Inl CtxErr) sample_bind None (\<lambda>p. None)
      sample_startup 0 = Booted cl hs \<and>
    (pipe_step ctx_done (dispatched_of sample_ops Inr parse (c_router cl)))\<^sup>*\<^sup>* (pipe_start cl) s \<and>
    ctx_done s \<and> Client_Wait (wg s) \<and> untracked s \<noteq> {#} \<and>
    pipe_step ctx_done (dispatched_of sample_ops Inr parse (c_router cl)) s t \<and> rToS t = rToS s @ [b] \<and>
    Client_Wait (wg t) \<and> posts t = posts (s :: unit db_log pipe)"
proof -
  obtain cl hs where run: "program_start (\<lambda>f as. f) sample_abi None sample_readTo (\<lambda>t. Inl CtxErr) sample_bind None (\<lambda>p. None)
      sample_startup 0 = Booted cl hs" by (rule sample_boot)
  obtain parse b where dispatched: "dispatched_of sample_ops Inr parse (c_router cl) sample_log = Some (BackupProcessor, b)"
    by (rule sample_dispatchable)
  let ?step = "pipe_step ctx_done (dispatched_of sample_ops Inr parse (c_router cl))"
  from run obtain s where s: "?step\<^sup>*\<^sup>* (pipe_start cl) s" "tasks s = {#}" "wg s = 0" "rToS s = []"
    and "(BackupProcessor, b) \<in># inflight s"
    using dispatched by (rule waits_in_flight)
  then obtain M where inflight: "inflight s = add_mset (BackupProcessor, b) M" by (meson multi_member_split)
  let ?t = "s\<lparr>inflight := M, rToS := rToS s @ [b]\<rparr>"
  from pipe_step.InflightSends [OF inflight, of b] s(4) have t: "?step s ?t"
    by (simp add: chanCap_def)
  have "untracked s \<noteq> {#}" by (simp add: untracked_def inflight)
  have wait: "Client_Wait (wg s)" using s(3) by (simp add: Client_Wait_def)
  with wait_is_last [where gives_up = ctx_done, OF run s(1)] r_into_rtranclp [of ?step, OF t]
  have "ctx_done s" "posts ?t = posts s" "Client_Wait (wg ?t)" by blast+
  with run s(1) wait \<open>untracked s \<noteq> {#}\<close> t show ?thesis
    by (intro exI [of _ cl] exI [of _ hs] exI [of _ parse] exI [of _ s] exI [of _ ?t] exI [of _ b] conjI) simp_all
qed

end
