(* ===== verification/Test_Signer.thy ===== *)
theory Test_Signer
  imports Config
begin

text \<open>
  The signer server for simulations, \<open>pkg/testutils/utils.go\<close>: it looks for a free port, starts tee-node's signer on
  it and returns the credentials a client needs. Binding an address and the constructor of the server
  are parameters.
\<close>

section \<open>The server and its credentials\<close>

text \<open>\<open>signer.Config\<close> of go-flare-common.\<close>

record signer_config =
  ServerAddr :: string
  APIKeyName :: string
  APIKeys :: "string list"

text \<open>\<open>listen\<close> yields the port of the listener's address, when it is one of TCP.\<close>

definition NewTestSigner ::
    "(string \<Rightarrow> arg list \<Rightarrow> string) \<Rightarrow> (string \<Rightarrow> error + int option) \<Rightarrow> (signer_config \<Rightarrow> 'k \<Rightarrow> error + 's) \<Rightarrow> 'k
      \<Rightarrow> ('s \<times> credentials) res" where
  "NewTestSigner sprintf listen signerNew prv =
     (case listen '':0'' of
        Inl err \<Rightarrow> Panic (''failed to find free port: '' @ error_text sprintf err)
      | Inr None \<Rightarrow> Panic ''listener address is not TCP''
      | Inr (Some port) \<Rightarrow>
          (let cfg = \<lparr>ServerAddr = '':'' @ itoa port, APIKeyName = ''X-API-KEY'', APIKeys = [''testkey'']\<rparr>;
               cred = \<lparr>KeyName = APIKeyName cfg, Key = APIKeys cfg ! 0, URL = ''http://localhost:'' @ itoa port\<rparr>;
               cfg = cfg\<lparr>ServerAddr := ''127.0.0.1'' @ ServerAddr cfg\<rparr>
           in case signerNew cfg prv of
                Inl err \<Rightarrow> Fail (Wrapf ''creating new signer '' [] err)
              | Inr s \<Rightarrow> Ok (s, cred)))"

definition NilCred :: credentials where
  "NilCred = \<lparr>KeyName = '''', Key = '''', URL = ''''\<rparr>"

section \<open>The credentials fit the server\<close>

text \<open>
  The credentials returned name the server's header and one of its keys, point at its port, and pass the check of
  the configuration; the empty ones never do.
\<close>

lemma test_signer_credentials:
  assumes "NewTestSigner sprintf listen signerNew prv = Ok (s, cred)"
    and "\<And>port. urlParse (''http://localhost:'' @ itoa port) = Inr (''http'', ''localhost:'' @ itoa port)"
  shows "\<exists>cfg port. signerNew cfg prv = Inr s \<and> ServerAddr cfg = ''127.0.0.1:'' @ itoa port \<and>
    URL cred = ''http://localhost:'' @ itoa port \<and> KeyName cred = APIKeyName cfg \<and> Key cred \<in> set (APIKeys cfg) \<and>
    Check urlParse cred = None"
proof -
  from assms(1) obtain port where "listen '':0'' = Inr (Some port)"
    by (cases "listen '':0''") (auto simp: NewTestSigner_def split: option.splits)
  moreover have "checkHeaderName ''X-API-KEY'' = None"
    by (simp add: token_byte_def headerTokenSpecials_def)
  ultimately show ?thesis
    using assms
    by (intro exI [of _ "\<lparr>ServerAddr = ''127.0.0.1:'' @ itoa port, APIKeyName = ''X-API-KEY'', APIKeys = [''testkey'']\<rparr>"] exI [of _ port])
      (auto simp: NewTestSigner_def Check_def Let_def split: sum.splits)
qed

lemma NilCred_refused: "Check urlParse NilCred \<noteq> None"
  by (simp add: Check_def NilCred_def)

end
