(* ===== verification/Relay_Spec.thy ===== *)
theory Relay_Spec
  imports Pipeline
begin

text \<open>
  What the running relay promises, without its parts: a multiset of instructions under way and a
  multiset of those sent. The pipeline's machine refines it: goroutines, queues, retries
  and the channel are hidden, and every step is a step of the specification or changes nothing.
\<close>

section \<open>The specification\<close>

record 'o spec =
  under_way :: "'o multiset"
  sent_off :: "'o multiset"

text \<open>An instruction that \<open>admit\<close> allows is taken up; one under way is dropped, or sent once.\<close>

inductive spec_step :: "('o \<Rightarrow> bool) \<Rightarrow> 'o spec \<Rightarrow> 'o spec \<Rightarrow> bool"
  for admit where
  TakeUp: "admit x \<Longrightarrow> spec_step admit s (s\<lparr>under_way := add_mset x (under_way s)\<rparr>)"
| Drop: "under_way s = add_mset x M \<Longrightarrow> spec_step admit s (s\<lparr>under_way := M\<rparr>)"
| SendOff: "under_way s = add_mset x M \<Longrightarrow>
    spec_step admit s (s\<lparr>under_way := M, sent_off := add_mset x (sent_off s)\<rparr>)"

definition abs_sys :: "'r sys \<Rightarrow> (event \<times> tee_machine list \<times> data) spec" where
  "abs_sys s = \<lparr>under_way = image_mset (\<lambda>pb. origin (snd pb)) (running s) + image_mset (\<lambda>nb. origin (snd nb)) (waiting s),
     sent_off = image_mset origin (mset (outc s))\<rparr>"

text \<open>What the router admits: the instruction of a log that the collector sent on.\<close>

definition admitted ::
    "op_lib \<Rightarrow> ('r db_log \<Rightarrow> error + 'c) \<Rightarrow> ('c \<Rightarrow> error + event) \<Rightarrow> router \<Rightarrow> 'r sys
      \<Rightarrow> event \<times> tee_machine list \<times> data \<Rightarrow> bool" where
  "admitted ol convert parse r s x \<longleftrightarrow>
     (\<exists>lg \<in> set (sent_logs s). \<exists>pb. dispatched_of ol convert parse r lg = Some pb \<and> origin (snd pb) = x)"

lemma abs_sys_lst [simp]: "abs_sys (s\<lparr>lst := l, polls := ps\<rparr>) = abs_sys s" "abs_sys (s\<lparr>taken := n\<rparr>) = abs_sys s"
  "abs_sys (s\<lparr>relayed := n\<rparr>) = abs_sys s" "abs_sys (s\<lparr>gone := g\<rparr>) = abs_sys s"
  by (simp_all add: abs_sys_def)

text \<open>Steps of the specification between two abstract states, by what leaves \<open>under_way\<close>.\<close>

lemma spec_drop:
  "under_way a = add_mset x M \<Longrightarrow> b = a\<lparr>under_way := M\<rparr> \<Longrightarrow> spec_step admit a b"
  by (simp add: spec_step.Drop)

lemma spec_send:
  "under_way a = add_mset x M \<Longrightarrow> b = a\<lparr>under_way := M, sent_off := add_mset x (sent_off a)\<rparr> \<Longrightarrow> spec_step admit a b"
  by (simp add: spec_step.SendOff)

text \<open>An instruction that leaves the running or the waiting ones, quietly or into the channel.\<close>

lemma abs_sys_leaves:
  assumes under: "under_way (abs_sys s) = add_mset (origin b) M"
    and t: "abs_sys t = \<lparr>under_way = M, sent_off = image_mset origin (mset (ps_out u))\<rparr>"
    and out: "quiet \<lparr>ps_ib = b, ps_out = outc s, ps_env = x\<rparr> u \<or> emitted good \<lparr>ps_ib = b, ps_out = outc s, ps_env = x\<rparr> u"
  shows "spec_step admit (abs_sys s) (abs_sys t)"
  using out
proof (cases rule: outcome_cases)
  case 1
  then show ?thesis by (intro spec_drop [OF under]) (simp add: t abs_sys_def [of s])
next
  case 2
  then show ?thesis by (intro spec_send [OF under]) (simp add: t abs_sys_def [of s])
qed

section \<open>The pipeline refines it\<close>

context relay_contract
begin

lemma sys_step_refines:
  assumes step: "sys_step ol convert parse R r s t" and inv: "sys_inv ol convert parse R r valid s"
  shows "abs_sys t = abs_sys s \<or> spec_step (admitted ol convert parse r s) (abs_sys s) (abs_sys t)"
  using step
proof (cases rule: sys_step.cases)
  case (HandleLog pb)
  have "admitted ol convert parse r s (origin (snd pb))"
    using HandleLog(2,3) unfolding admitted_def
    by (intro bexI [of _ "sent_logs s ! taken s"]) (auto simp: dispatched_of_Some)
  from spec_step.TakeUp [of "admitted ol convert parse r s", OF this, of "abs_sys s"] show ?thesis
    unfolding HandleLog(1) by (simp add: abs_sys_def)
next
  case (Goroutine p b M x u v)
  let ?u = "\<lparr>ps_ib = b, ps_out = outc s, ps_env = x\<rparr>"
  have "Process R r p ?u = (fst (Process R r p ?u), v)"
    using Goroutine(4) goroutine_snd [of "Process R r p" ?u] by (simp add: prod_eq_iff)
  moreover have "Route ol (ps_ib ?u) = Inr p" using Goroutine(2) inv by (simp add: sys_inv_def)
  ultimately have "quiet ?u v \<or> emitted (relay_good ol R r valid) ?u v"
    using Goroutine(3) by (rule Process_outcome)
  then have "spec_step (admitted ol convert parse r s) (abs_sys s) (abs_sys t)"
    using Goroutine(2) unfolding Goroutine(1)
    by (intro abs_sys_leaves [where M = "image_mset (\<lambda>pb. origin (snd pb)) M + image_mset (\<lambda>nb. origin (snd nb)) (waiting s)"])
      (simp_all add: abs_sys_def)
  then show ?thesis ..
next
  case (Enqueue b M x u v)
  from FDC_Process_outcome [OF Enqueue(3)] have "ps_out v = outc s" "origin (ps_ib v) = origin b"
    by (auto simp: quiet_def same_instruction_origin)
  with Enqueue(1,2) have "abs_sys t = abs_sys s" by (simp add: abs_sys_def)
  then show ?thesis ..
next
  case (NotQueued b M x e v)
  have "spec_step (admitted ol convert parse r s) (abs_sys s) (abs_sys t)"
    using NotQueued(2) disjI1 [OF FDC_Process_outcome [OF NotQueued(3)]] unfolding NotQueued(1)
    by (intro abs_sys_leaves [where M = "image_mset (\<lambda>pb. origin (snd pb)) M + image_mset (\<lambda>nb. origin (snd nb)) (waiting s)"
          and good = "\<lambda>_. True"]) (simp_all add: abs_sys_def)
  then show ?thesis ..
next
  case (Attempt n b M x res v)
  have "Route ol (ps_ib \<lparr>ps_ib = b, ps_out = outc s, ps_env = x\<rparr>) = Inr FDCProcessor"
    using Attempt(2) inv by (simp add: sys_inv_def waiting_ok_def)
  from queued_outcome [OF Attempt(3) this]
  have "quiet \<lparr>ps_ib = b, ps_out = outc s, ps_env = x\<rparr> v \<or>
      emitted (relay_good ol R r valid) \<lparr>ps_ib = b, ps_out = outc s, ps_env = x\<rparr> v" by blast
  then have "spec_step (admitted ol convert parse r s) (abs_sys s) (abs_sys t)"
    using Attempt(2) unfolding Attempt(1)
    by (intro abs_sys_leaves [where M = "image_mset (\<lambda>pb. origin (snd pb)) (running s) + image_mset (\<lambda>nb. origin (snd nb)) M"])
      (simp_all add: abs_sys_def)
  then show ?thesis ..
next
  case (Retry n b M x res v)
  have "Route ol (ps_ib \<lparr>ps_ib = b, ps_out = outc s, ps_env = x\<rparr>) = Inr FDCProcessor"
    using Retry(2) inv by (simp add: sys_inv_def waiting_ok_def)
  from queued_outcome [OF Retry(3) this] Retry(4)
  have "ps_out v = outc s" "origin (ps_ib v) = origin b"
    by (auto simp: quiet_def same_instruction_origin)
  with Retry(1,2) have "abs_sys t = abs_sys s" by (simp add: abs_sys_def)
  then show ?thesis ..
qed (simp_all add: abs_sys_def)

end

end
