(* ===== verification/Relay_Work.thy ===== *)
theory Relay_Work
  imports Relay_Spec
begin

text \<open>
  The work that the running relay has left, and that it always comes to an end: as long as the collector
  reports nothing new, every step of the other parts takes at least one unit off, however they are scheduled, and
  a relay with a step left to do can do one.
\<close>

section \<open>Work left\<close>

text \<open>
  A plain instruction or a restore takes its goroutine's step and the sender's; one of the FDC is put on its
  queue first and may be attempted as often as its queue allows. A log takes the router's step and what its
  instruction takes.
\<close>

definition load :: "('x, 'k) relay \<Rightarrow> router \<Rightarrow> proc \<times> base \<Rightarrow> nat" where
  "load R r pb =
     (if fst pb = FDCProcessor then max_attempts (fdcLib R) (fdcProcessor r) (snd pb) + 2 else 2)"

definition log_load ::
    "op_lib \<Rightarrow> ('r db_log \<Rightarrow> error + 'c) \<Rightarrow> ('c \<Rightarrow> error + event) \<Rightarrow> ('x, 'k) relay \<Rightarrow> router \<Rightarrow> 'r db_log \<Rightarrow> nat" where
  "log_load ol convert parse R r lg =
     (case dispatched_of ol convert parse r lg of None \<Rightarrow> 1 | Some pb \<Rightarrow> Suc (load R r pb))"

definition work ::
    "op_lib \<Rightarrow> ('r db_log \<Rightarrow> error + 'c) \<Rightarrow> ('c \<Rightarrow> error + event) \<Rightarrow> ('x, 'k) relay \<Rightarrow> router \<Rightarrow> 'r sys \<Rightarrow> nat" where
  "work ol convert parse R r s =
     sum_list (map (log_load ol convert parse R r) (drop (taken s) (sent_logs s)))
     + sum_mset (image_mset (load R r) (running s))
     + sum_mset (image_mset (\<lambda>nb. Suc (fst nb)) (waiting s))
     + (length (outc s) - relayed s)"

text \<open>Nothing is left: every log handled, every instruction ended, every message taken by the sender.\<close>

definition idle :: "'r sys \<Rightarrow> bool" where
  "idle s \<longleftrightarrow> taken s = length (sent_logs s) \<and> running s = {#} \<and> waiting s = {#} \<and> relayed s = length (outc s)"

lemma outcome_prefix:
  "quiet s t \<or> emitted good s t \<Longrightarrow> \<exists>rest. ps_out t = ps_out s @ rest \<and> length rest \<le> 1"
  by (auto simp: quiet_def emitted_def)

section \<open>Every step takes some off\<close>

text \<open>What a step does to the channel and to the work left.\<close>

definition progress ::
    "op_lib \<Rightarrow> ('r db_log \<Rightarrow> error + 'c) \<Rightarrow> ('c \<Rightarrow> error + event) \<Rightarrow> ('x, 'k) relay \<Rightarrow> router \<Rightarrow> 'r sys \<Rightarrow> 'r sys \<Rightarrow> bool" where
  "progress ol convert parse R r s t \<longleftrightarrow>
     (\<exists>rest. outc t = outc s @ rest) \<and> work ol convert parse R r t < work ol convert parse R r s"

text \<open>A goroutine that ends, and an attempt that does.\<close>

lemma progress_finish:
  assumes "running s = add_mset pb M" and "2 \<le> load R r pb" and "relayed s \<le> length (outc s)"
    and "outc t = outc s @ rest" and "length rest \<le> 1"
    and "sent_logs t = sent_logs s" "taken t = taken s" "running t = M" "waiting t = waiting s" "relayed t = relayed s"
  shows "progress ol convert parse R r s t"
  using assms by (auto simp: progress_def work_def)

lemma progress_attempt:
  assumes "waiting s = add_mset (n, b) M" and "1 \<le> n" and "relayed s \<le> length (outc s)"
    and "outc t = outc s @ rest" and "length rest \<le> 1"
    and "sent_logs t = sent_logs s" "taken t = taken s" "running t = running s" "waiting t = M" "relayed t = relayed s"
  shows "progress ol convert parse R r s t"
  using assms by (auto simp: progress_def work_def)

lemma load_pos [simp]: "2 \<le> load R r pb"
  by (simp add: load_def)

lemma drop_taken:
  "n < length xs \<Longrightarrow> sum_list (map f (drop n xs)) = f (xs ! n) + sum_list (map f (drop (Suc n) xs))"
  for f :: "'a \<Rightarrow> nat"
  by (simp add: Cons_nth_drop_Suc [symmetric])

context relay_contract
begin

lemma step_progress:
  assumes step: "sys_step ol convert parse R r s t" and inv: "sys_inv ol convert parse R r valid s"
    and polls: "polls t = polls s"
  shows "progress ol convert parse R r s t"
  using step
proof (cases rule: sys_step.cases)
  case (Poll ev)
  with polls show ?thesis by simp
next
  case (HandleLog pb)
  have "log_load ol convert parse R r (sent_logs s ! taken s) = Suc (load R r pb)"
    using HandleLog(3) by (simp add: log_load_def dispatched_of_def)
  with HandleLog show ?thesis by (simp add: progress_def work_def drop_taken)
next
  case SkipLog
  then have "log_load ol convert parse R r (sent_logs s ! taken s) = 1" by (simp add: log_load_def)
  with SkipLog show ?thesis by (simp add: progress_def work_def drop_taken)
next
  case (Goroutine p b M x u v)
  let ?st = "\<lparr>ps_ib = b, ps_out = outc s, ps_env = x\<rparr>"
  have "Process R r p ?st = (fst (Process R r p ?st), v)"
    using Goroutine(4) goroutine_snd [of "Process R r p" ?st] by (simp add: prod_eq_iff)
  moreover have "Route ol (ps_ib ?st) = Inr p" using Goroutine(2) inv by (simp add: sys_inv_def)
  ultimately obtain rest where "ps_out v = outc s @ rest" "length rest \<le> 1"
    using outcome_prefix [OF Process_outcome [OF _ _ Goroutine(3)]] by fastforce
  with Goroutine inv show ?thesis by (intro progress_finish [OF Goroutine(2)]) (simp_all add: sys_inv_def)
next
  case (Enqueue b M x u v)
  from FDC_Process_outcome [OF Enqueue(3)] have v: "ps_out v = outc s" "origin (ps_ib v) = origin b"
    by (auto simp: quiet_def same_instruction_origin)
  with Enqueue show ?thesis
    by (simp add: progress_def work_def load_def origin_max_attempts [OF v(2)])
next
  case (NotQueued b M x e v)
  from FDC_Process_outcome [OF NotQueued(3)] have "ps_out v = outc s @ []" by (simp add: quiet_def)
  with NotQueued inv show ?thesis by (intro progress_finish [where rest = "[]", OF NotQueued(2)]) (simp_all add: sys_inv_def)
next
  case (Attempt n b M x res v)
  have "waiting_ok ol R r (n, b)" using Attempt(2) inv by (simp add: sys_inv_def)
  then have "Route ol (ps_ib \<lparr>ps_ib = b, ps_out = outc s, ps_env = x\<rparr>) = Inr FDCProcessor" and n: "1 \<le> n"
    by (simp_all add: waiting_ok_def)
  from queued_outcome [OF Attempt(3) this(1)] obtain rest where "ps_out v = outc s @ rest" "length rest \<le> 1"
    using outcome_prefix [of "\<lparr>ps_ib = b, ps_out = outc s, ps_env = x\<rparr>" v] by auto
  with Attempt inv n show ?thesis by (intro progress_attempt [OF Attempt(2)]) (simp_all add: sys_inv_def)
next
  case (Retry n b M x res v)
  have "Route ol (ps_ib \<lparr>ps_ib = b, ps_out = outc s, ps_env = x\<rparr>) = Inr FDCProcessor"
    using Retry(2) inv by (simp add: sys_inv_def waiting_ok_def)
  from queued_outcome [OF Retry(3) this] Retry(4) have "ps_out v = outc s" by (auto simp: quiet_def)
  with Retry show ?thesis by (simp add: progress_def work_def)
next
  case Relay
  then show ?thesis by (auto simp: progress_def work_def)
qed

section \<open>A relay with work left can go on\<close>

lemma goes_onI:
  "sys_step ol convert parse R r s t \<Longrightarrow> polls t = polls s \<Longrightarrow> \<exists>t. sys_step ol convert parse R r s t \<and> polls t = polls s"
  by blast

lemma running_goes_on:
  assumes "running s = add_mset (p, b) M"
  shows "\<exists>t. sys_step ol convert parse R r s t \<and> polls t = polls s"
proof -
  obtain x :: 'x where "x = x" by simp
  obtain e v where run: "Process R r p \<lparr>ps_ib = b, ps_out = outc s, ps_env = x\<rparr> = (e, v)" by fastforce
  show ?thesis
  proof (cases "p = FDCProcessor")
    case False
    have "goroutine (Process R r p) \<lparr>ps_ib = b, ps_out = outc s, ps_env = x\<rparr> = (Ok (), v)"
      by (simp add: goroutine_def run split: res.split)
    from sys_step.Goroutine [OF assms False this] show ?thesis by (rule goes_onI) simp
  next
    case fdc: True
    show ?thesis
    proof (cases "e = Ok ()")
      case True
      from sys_step.Enqueue [OF assms [unfolded fdc] run [unfolded True fdc]] show ?thesis
        by (rule goes_onI) simp
    next
      case False
      from sys_step.NotQueued [OF assms [unfolded fdc] run [unfolded fdc] False] show ?thesis
        by (rule goes_onI) simp
    qed
  qed
qed

lemma waiting_goes_on:
  assumes "waiting s = add_mset (n, b) M"
  shows "\<exists>t. sys_step ol convert parse R r s t \<and> polls t = polls s"
proof -
  obtain x :: 'x where "x = x" by simp
  obtain e v where run: "queued_handler R r \<lparr>ps_ib = b, ps_out = outc s, ps_env = x\<rparr> = (e, v)" by fastforce
  show ?thesis
  proof (cases "e = Ok () \<or> n \<le> 1")
    case True
    from sys_step.Attempt [OF assms run this] show ?thesis by (rule goes_onI) simp
  next
    case False
    then have "e \<noteq> Ok ()" "1 < n" by auto
    from sys_step.Retry [OF assms run this] show ?thesis by (rule goes_onI) simp
  qed
qed

lemma goes_on:
  assumes "sys_inv ol convert parse R r valid s" and "\<not> idle s"
  shows "\<exists>t. sys_step ol convert parse R r s t \<and> polls t = polls s"
proof -
  from assms consider pb M where "running s = add_mset pb M" | nb M where "waiting s = add_mset nb M"
    | "taken s < length (sent_logs s)" | "relayed s < length (outc s)"
    unfolding idle_def sys_inv_def by (metis le_neq_implies_less multiset_cases)
  then show ?thesis
  proof cases
    case (1 pb M)
    then show ?thesis by (cases pb) (simp add: running_goes_on)
  next
    case (2 nb M)
    then show ?thesis by (cases nb) (simp add: waiting_goes_on)
  next
    case 3
    show ?thesis
    proof (cases "dispatched_of ol convert parse r (sent_logs s ! taken s)")
      case None
      from sys_step.SkipLog [OF 3 this] show ?thesis by (rule goes_onI) simp
    next
      case (Some pb)
      from sys_step.HandleLog [OF 3 Some [unfolded dispatched_of_Some]] show ?thesis
        by (rule goes_onI) simp
    qed
  next
    case 4
    from sys_step.Relay [OF this] show ?thesis by (rule goes_onI) simp
  qed
qed

end

section \<open>A queued request that its verifier decides in time\<close>

lemma queued_undecided:
  assumes "asks (fdcLib R) (FDC_verifiers (verifierClient R) (fdcProcessor r)) b rq v"
    and "AdditionalFixedMessage (GeneralData b) = []" and "undecided (v rq x)"
  obtains e y where "queued_handler R r \<lparr>ps_ib = b, ps_out = out, ps_env = x\<rparr> = (Fail e, \<lparr>ps_ib = b, ps_out = out, ps_env = y\<rparr>)"
proof -
  let ?s = "\<lparr>ps_ib = b, ps_out = out, ps_env = x\<rparr>"
  obtain e y where "FDC_Handle (fdcLib R) (hashFor R) (sel R) (rsigner R) (baseProcessor r)
      (FDC_verifiers (verifierClient R) (fdcProcessor r)) ?s = (Fail e, ?s\<lparr>ps_env := y\<rparr>)"
    using FDC_Handle_undecided [of "fdcLib R" _ ?s rq v] assms by (metis pst.select_convs(1,3))
  then show ?thesis using that by (simp add: queued_handler_def wrapHandle_cases)
qed

lemma queued_verified:
  assumes "asks (fdcLib R) (FDC_verifiers (verifierClient R) (fdcProcessor r)) b rq v"
    and "AdditionalFixedMessage (GeneralData b) = []"
    and "v rq x = (Ok res, x0)" and "vr_Status res = ''VERIFIED''"
    and "HashMessage (fdcLib R) (bp_chainID (baseProcessor r)) rq (vr_ResponseBody res) (ev_Cosigners (Event b))
      (ev_CosignersThreshold (Event b)) (Timestamp (GeneralData b)) = Inr h"
    and "Sign (rsigner R) [ChainBoundRelayPrefixedHash (fdcLib R) (bp_chainID (baseProcessor r)) h] x0 = (Ok [sig], x1)"
    and "hashesForSigning (hashFor R) (bp_chainID (baseProcessor r)) (with_signature (answered b (vr_ResponseBody res)) sig) = Inr hs"
    and "Sign (rsigner R) hs x1 = (Ok sigs, x2)" and "bp_out (baseProcessor r)" and "sel R x2 = (True, x3)"
    and "b' = (with_signature (answered b (vr_ResponseBody res)) sig)\<lparr>Signatures := sigs\<rparr>"
  shows "queued_handler R r \<lparr>ps_ib = b, ps_out = out, ps_env = x\<rparr> = (Ok (), \<lparr>ps_ib = b', ps_out = out @ [b'], ps_env = x3\<rparr>)"
  using verified_request_sent [of "fdcLib R" "FDC_verifiers (verifierClient R) (fdcProcessor r)"
      "\<lparr>ps_ib = b, ps_out = out, ps_env = x\<rparr>" rq v res x0 "baseProcessor r" h "rsigner R" sig x1 "hashFor R" hs sigs x2 "sel R" x3] assms
  by (simp add: queued_handler_def wrapHandle_cases)

lemma retried_until_sent:
  assumes "waiting s = add_mset (n, b) M" and "length xs < n"
    and "asks (fdcLib R) (FDC_verifiers (verifierClient R) (fdcProcessor r)) b rq v"
    and "AdditionalFixedMessage (GeneralData b) = []" and "list_all (\<lambda>x. undecided (v rq x)) xs"
    and "\<And>out. queued_handler R r \<lparr>ps_ib = b, ps_out = out, ps_env = x\<rparr> = (Ok (), \<lparr>ps_ib = b', ps_out = out @ [b'], ps_env = y\<rparr>)"
  shows "\<exists>t. (sys_step ol convert parse R r ^^ Suc (length xs)) s t \<and> outc t = outc s @ [b'] \<and> waiting t = M \<and> running t = running s"
  using assms(1,2,5)
proof (induction xs arbitrary: s n)
  case Nil
  let ?v = "\<lparr>ps_ib = b', ps_out = outc s @ [b'], ps_env = y\<rparr>"
  let ?t = "s\<lparr>waiting := M, outc := ps_out ?v, gone := gone s + ended (outc s) ?v (Ok ())\<rparr>"
  have "sys_step ol convert parse R r s ?t"
    by (rule sys_step.Attempt [OF Nil.prems(1) assms(6)]) simp
  then have "(sys_step ol convert parse R r ^^ Suc (length [])) s ?t" by auto
  then show ?case by (intro exI [of _ ?t]) simp
next
  case (Cons z zs)
  from Cons.prems(3) have "undecided (v rq z)" by simp
  with assms(3,4) obtain e w where
    "queued_handler R r \<lparr>ps_ib = b, ps_out = outc s, ps_env = z\<rparr> = (Fail e, \<lparr>ps_ib = b, ps_out = outc s, ps_env = w\<rparr>)"
    by (rule queued_undecided)
  from sys_step.Retry [OF Cons.prems(1) this, of ol convert parse] Cons.prems(2)
  have "sys_step ol convert parse R r s (s\<lparr>waiting := add_mset (n - 1, b) M, outc := outc s\<rparr>)" by simp
  then have step: "sys_step ol convert parse R r s (s\<lparr>waiting := add_mset (n - 1, b) M\<rparr>)" (is "sys_step _ _ _ _ _ _ ?u")
    by simp
  have "length zs < n - 1" using Cons.prems(2) by simp
  then obtain t where run: "(sys_step ol convert parse R r ^^ Suc (length zs)) ?u t"
    and t: "outc t = outc ?u @ [b']" "waiting t = M" "running t = running ?u"
    using Cons.IH [of ?u "n - 1"] Cons.prems(3) by (auto simp del: relpowp.simps)
  from relpowp_Suc_I2 [of "sys_step ol convert parse R r", OF step run] t show ?case
    by (intro exI [of _ t]) (simp del: relpowp.simps)
qed

section \<open>Runs\<close>

context relay_contract
begin

lemma sys_inv_run:
  "(sys_step ol convert parse R r ^^ n) s t \<Longrightarrow> sys_inv ol convert parse R r valid s \<Longrightarrow> sys_inv ol convert parse R r valid t"
  by (induction n arbitrary: t) (auto intro: sys_inv_step)

lemma polls_grow: "sys_step ol convert parse R r s t \<Longrightarrow> \<exists>evs. polls t = polls s @ evs"
  by (cases rule: sys_step.cases) auto

lemma polls_grow_run: "(sys_step ol convert parse R r ^^ n) s t \<Longrightarrow> \<exists>evs. polls t = polls s @ evs"
proof (induction n arbitrary: t)
  case (Suc n)
  then obtain u where "(sys_step ol convert parse R r ^^ n) s u" "sys_step ol convert parse R r u t" by auto
  from Suc.IH [OF this(1)] polls_grow [OF this(2)] obtain evs evs' where
    "polls u = polls s @ evs" "polls t = polls u @ evs'" by blast
  then show ?case by simp
qed simp

lemma run_bounded:
  assumes "sys_inv ol convert parse R r valid s"
  shows "(sys_step ol convert parse R r ^^ n) s t \<Longrightarrow> polls t = polls s \<Longrightarrow>
    n + work ol convert parse R r t \<le> work ol convert parse R r s \<and> (\<exists>rest. outc t = outc s @ rest)"
proof (induction n arbitrary: t)
  case (Suc n)
  then obtain u where run: "(sys_step ol convert parse R r ^^ n) s u" and step: "sys_step ol convert parse R r u t"
    by auto
  obtain evs evs' where "polls u = polls s @ evs" "polls t = polls u @ evs'"
    using polls_grow_run [OF run] polls_grow [OF step] by blast
  with Suc.prems(2) have polls: "polls u = polls s" "polls t = polls u" by simp_all
  from step_progress [OF step sys_inv_run [OF run assms] polls(2)] obtain rest where
    "outc t = outc u @ rest" "work ol convert parse R r t < work ol convert parse R r u"
    unfolding progress_def by blast
  moreover from Suc.IH [OF run polls(1)] obtain rest' where
    "outc u = outc s @ rest'" "n + work ol convert parse R r u \<le> work ol convert parse R r s"
    by blast
  ultimately show ?case by simp
qed simp

lemma drains:
  "sys_inv ol convert parse R r valid s \<Longrightarrow>
     \<exists>n t. (sys_step ol convert parse R r ^^ n) s t \<and> polls t = polls s \<and> idle t"
proof (induction "work ol convert parse R r s" arbitrary: s rule: less_induct)
  case less
  show ?case
  proof (cases "idle s")
    case True
    then show ?thesis by (intro exI [of _ 0] exI [of _ s]) simp
  next
    case False
    from goes_on [OF less.prems this] obtain u where u: "sys_step ol convert parse R r s u" "polls u = polls s" by blast
    with less.prems have "work ol convert parse R r u < work ol convert parse R r s"
      using step_progress unfolding progress_def by blast
    from less.hyps [OF this sys_inv_step [OF u(1) less.prems]] obtain n t where
      "(sys_step ol convert parse R r ^^ n) u t" "polls t = polls u" "idle t" by blast
    moreover from relpowp_Suc_I2 [of "sys_step ol convert parse R r", OF u(1) this(1)]
    have "(sys_step ol convert parse R r ^^ Suc n) s t" .
    ultimately show ?thesis using u(2) by metis
  qed
qed

end

section \<open>Where signing never fails, plain instructions are all sent\<close>

text \<open>Hashes can be computed, the signer signs, and the runtime chooses the send.\<close>

definition signs_all :: "('x, 'k) relay \<Rightarrow> router \<Rightarrow> bool" where
  "signs_all R r \<longleftrightarrow> bp_out (baseProcessor r) \<and>
     (\<forall>d. \<exists>h. hashFor R (bp_chainID (baseProcessor r)) d = Inr h) \<and>
     (\<forall>hs x. \<exists>sigs y. Sign (rsigner R) hs x = (Ok sigs, y)) \<and> (\<forall>x. fst (sel R x))"

lemma hashesForSigning_total:
  assumes "\<And>d. \<exists>h. hf chainID d = Inr h"
  shows "\<exists>hs. hashesForSigning hf chainID b = Inr hs"
proof -
  have "\<exists>hs. hashesForSigning_loop hf chainID d ts = Inr hs" for d ts
  proof (induction ts arbitrary: d)
    case (Cons t ts)
    obtain h where "hf chainID (d\<lparr>TeeID := TeeId t\<rparr>) = Inr h" using assms by blast
    moreover obtain hs where "hashesForSigning_loop hf chainID (d\<lparr>TeeID := TeeId t\<rparr>) ts = Inr hs"
      using Cons.IH by blast
    ultimately show ?case by (simp add: Let_def)
  qed simp
  then show ?thesis by (simp add: hashesForSigning_def)
qed

lemma signs_all_sends:
  assumes "signs_all R r"
  shows "ps_out (snd (Process R r BaseProcessor s)) \<noteq> ps_out s"
proof -
  from assms have "\<And>d. \<exists>h. hashFor R (bp_chainID (baseProcessor r)) d = Inr h" by (simp add: signs_all_def)
  then obtain hs where hs: "hashesForSigning (hashFor R) (bp_chainID (baseProcessor r)) (ps_ib s) = Inr hs"
    using hashesForSigning_total by blast
  from assms obtain sigs y where sigs: "Sign (rsigner R) hs (ps_env s) = (Ok sigs, y)"
    unfolding signs_all_def by blast
  from assms have "fst (sel R y)" by (simp add: signs_all_def)
  then have "sel R y = (True, snd (sel R y))" by (simp add: prod_eq_iff)
  then have "Base_Process (hashFor R) (sel R) (rsigner R) (baseProcessor r) s =
      (Ok (), s\<lparr>ps_ib := (ps_ib s)\<lparr>Signatures := sigs\<rparr>, ps_env := snd (sel R y),
         ps_out := ps_out s @ [(ps_ib s)\<lparr>Signatures := sigs\<rparr>]\<rparr>)"
    using assms hs sigs by (intro Base_Process_sends [where hs = hs and x = y]) (simp_all add: signs_all_def)
  then show ?thesis by (simp add: Process_def)
qed

context relay_contract
begin

lemma ended_not_plain:
  assumes "quiet s t \<or> emitted good s t" and "Route ol (ps_ib s) = Inr p" and "p \<noteq> BaseProcessor"
    and "bf \<in># ended (ps_out s) t res"
  shows "Route ol (fst bf) \<noteq> Inr BaseProcessor"
proof -
  from assms(1) have "origin (ps_ib t) = origin (ps_ib s)" by (cases rule: outcome_cases) simp_all
  then have "Route ol (ps_ib t) = Inr p" using assms(2) Route_origin by metis
  with in_ended [OF assms(4)] assms(3) show ?thesis by simp
qed

lemma step_gone:
  assumes "sys_step ol convert parse R r s t" and inv: "sys_inv ol convert parse R r valid s" and "signs_all R r"
    and "bf \<in># gone t" and "bf \<notin># gone s"
  shows "Route ol (fst bf) \<noteq> Inr BaseProcessor"
  using assms(1)
proof (cases rule: sys_step.cases)
  case (Goroutine p b M x u v)
  let ?st = "\<lparr>ps_ib = b, ps_out = outc s, ps_env = x\<rparr>"
  have run: "Process R r p ?st = (fst (Process R r p ?st), v)"
    using Goroutine(4) goroutine_snd [of "Process R r p" ?st] by (simp add: prod_eq_iff)
  have route: "Route ol (ps_ib ?st) = Inr p" using Goroutine(2) inv by (simp add: sys_inv_def)
  from Goroutine(1) assms(4,5) have bf: "bf \<in># ended (ps_out ?st) v (fst (Process R r p ?st))" by simp
  show ?thesis
  proof (cases "p = BaseProcessor")
    case True
    then have "ps_out v \<noteq> ps_out ?st" using signs_all_sends [OF assms(3), of ?st] run by (metis snd_conv)
    with in_ended [OF bf] show ?thesis by simp
  next
    case False
    from Process_outcome [OF run route Goroutine(3)] route False bf show ?thesis by (rule ended_not_plain)
  qed
next
  case (NotQueued b M x e v)
  have "Route ol (ps_ib \<lparr>ps_ib = b, ps_out = outc s, ps_env = x\<rparr>) = Inr FDCProcessor"
    using NotQueued(2) inv by (simp add: sys_inv_def)
  from ended_not_plain [OF disjI1 [OF FDC_Process_outcome [OF NotQueued(3)]] this] NotQueued(1) assms(4,5) show ?thesis
    by simp
next
  case (Attempt n b M x res v)
  have route: "Route ol (ps_ib \<lparr>ps_ib = b, ps_out = outc s, ps_env = x\<rparr>) = Inr FDCProcessor"
    using Attempt(2) inv by (simp add: sys_inv_def waiting_ok_def)
  from queued_outcome [OF Attempt(3) route] have "quiet \<lparr>ps_ib = b, ps_out = outc s, ps_env = x\<rparr> v \<or>
      emitted (relay_good ol R r valid) \<lparr>ps_ib = b, ps_out = outc s, ps_env = x\<rparr> v" by blast
  from ended_not_plain [OF this route] Attempt(1) assms(4,5) show ?thesis by simp
qed (use assms(4,5) in simp_all)

lemma plain_never_gone:
  "sys_reach ol convert parse R r l s \<Longrightarrow> signs_all R r \<Longrightarrow> bf \<in># gone s \<Longrightarrow> Route ol (fst bf) \<noteq> Inr BaseProcessor"
proof (induction rule: sys_reach.induct)
  case Start
  then show ?case by (simp add: sys_start_def)
next
  case (Step s t)
  show ?case
  proof (cases "bf \<in># gone s")
    case True
    with Step show ?thesis by simp
  next
    case False
    with Step.hyps(2) sys_reach_inv [OF Step.hyps(1)] Step.prems show ?thesis by (intro step_gone) 
  qed
qed

end

text \<open>Origins of plain instructions: the pair of operation type and command of their event says so.\<close>

definition plain :: "op_lib \<Rightarrow> event \<times> tee_machine list \<times> data \<Rightarrow> bool" where
  "plain ol x \<longleftrightarrow> instClass ol (ev_OpType (fst x)) (ev_OpCommand (fst x)) = Plain"

lemma plain_Route: "plain ol (origin b) \<longleftrightarrow> Route ol b = Inr BaseProcessor"
  by (auto simp: plain_def origin_def Route_def split: InstructionClass.split)

lemma filter_plain_gone:
  assumes "\<And>bf. bf \<in># G \<Longrightarrow> Route ol (fst bf) \<noteq> Inr BaseProcessor"
  shows "filter_mset (plain ol) (image_mset (\<lambda>bf. origin (fst bf)) G) = {#}"
proof -
  have "filter_mset (plain ol) (image_mset (\<lambda>bf. origin (fst bf)) G) = filter_mset (\<lambda>x. False) (image_mset (\<lambda>bf. origin (fst bf)) G)"
    using assms by (intro filter_mset_cong refl) (auto simp: plain_Route)
  then show ?thesis by simp
qed

end
