(* ===== verification/Sample_Run.thy ===== *)
theory Sample_Run
  imports Relay_Work Restore
begin

text \<open>
  A run of the pipeline on concrete data: the collector sees one log, the router dispatches its
  plain instruction for two machines, and the goroutine signs and sends it.
\<close>

definition sample_ol :: op_lib where
  "sample_ol = sample_ops\<lparr>HashToOPType := (\<lambda>h. ''other'')\<rparr>"

definition sample_relay :: "(nat, unit) relay" where
  "sample_relay = \<lparr>hashFor = sample_hash, sel = (\<lambda>n. (True, n)), rsigner = sample_signer, fdcLib = sample_fdc,
     backupLib = sample_backup_lib, clockNow = (\<lambda>n. (Ok 5, n)), queueAdd = (\<lambda>q b w. retA ()),
     verifierClient = Verifier_Response (\<lambda>f as. f) execute_seq sample_silent (\<lambda>d. None) 0\<rparr>"

definition sample_router :: router where
  "sample_router = \<lparr>Filterer = None, baseProcessor = SetOut (NewBase 14),
     fdcProcessor = fdc_tables sample_toHash (sample_fdc_cfg False), backupProcessor = NewBackup False\<rparr>"

definition sample_poll :: "unit db_log levent" where
  "sample_poll = Trigger \<lparr>fetchState = Inr \<lparr>Index = 15, BlockTimestamp = 0\<rparr>,
     fetchLogs = (\<lambda>p. Inr (in_window (\<lambda>_. 12) (sint (lp_From p)) (sint (lp_To p))
       (events_of (\<lambda>_. (7, 1)) (lp_Address p) (lp_Topic0 p) [sample_log]))), sends = True, clk = int\<rparr>"

definition sample_lst :: "unit db_log listener" where
  "sample_lst = \<lparr>qAddress = 7, qTopic0 = 1, From = windowStart 10 3, To = 10, stateDamper = newDamper ''fetching state'',
     logsDamper = newDamper ''fetching logs'', hstatus = reportState None \<lparr>Index = 10, BlockTimestamp = 0\<rparr>,
     sent = [], stopped = False, lines = []\<rparr>"

definition sample_signed_base :: base where
  "sample_signed_base = sample_base\<lparr>Signatures := [[15], [16]]\<rparr>"

abbreviation sample_reach :: "unit sys \<Rightarrow> bool" where
  "sample_reach \<equiv> sys_reach sample_ol Inr (\<lambda>l. Inr sample_event) sample_relay sample_router sample_lst"

abbreviation sample_step :: "unit sys \<Rightarrow> unit sys \<Rightarrow> bool" where
  "sample_step \<equiv> sys_step sample_ol Inr (\<lambda>l. Inr sample_event) sample_relay sample_router"

lemma sample_relay_own:
  "sample_relay\<lparr>rsigner := NewLocal sample_sign (\<lambda>c k. Inr c) (\<lambda>k. \<lparr>PX = 1, PY = 2\<rparr>) (),
     verifierClient := Verifier_Response (\<lambda>f as. f) execute_seq sample_silent (\<lambda>d. None) 0\<rparr> = sample_relay"
  by (simp add: sample_relay_def sample_signer_def)

lemma sample_lst_start: "listener_start 7 1 None 3 False (Inr \<lparr>Index = 10, BlockTimestamp = 0\<rparr>) = Ok sample_lst"
  by (simp add: listener_start_def sample_lst_def)

lemma sample_poll_good: "good_events (\<lambda>_. 12) (\<lambda>_. (7, 1)) [sample_log] 10 [sample_poll]"
  by (simp add: sample_poll_def honest_def not_behind_def)

lemma sample_polled: "concat (sent (listener_step sample_lst sample_poll)) = [sample_log]"
  by (simp add: listener_step_def sample_lst_def sample_poll_def poll_def poll_logs_def params_def events_of_def Let_def windowStart_def
      word_sless_alt in_window_def)

lemma sample_base_parsed: "parsed 9 sample_event = sample_base"
  by (simp add: parsed_def sample_base_def)

lemma sample_route: "Route sample_ol sample_base = Inr BaseProcessor"
  by (simp add: Route_def instClass_def sample_ol_def sample_ops_def Let_def sample_base_def EventToData_def)

lemma sample_dispatched:
  "Router_Handle sample_ol Inr (\<lambda>l. Inr sample_event) sample_router sample_log = Inr (Some (BaseProcessor, sample_base))"
  unfolding Router_Handle_Some
  by (simp add: parseTeeInstructionsSent_def relevant_def sample_router_def sample_log_def sample_base_parsed sample_route)

lemma sample_processed:
  "Process sample_relay sample_router BaseProcessor \<lparr>ps_ib = sample_base, ps_out = [], ps_env = 0\<rparr> =
     (Ok (), \<lparr>ps_ib = sample_signed_base, ps_out = [sample_signed_base], ps_env = 0\<rparr>)"
  using Base_Process_sends [of "SetOut (NewBase 14)" sample_hash "\<lparr>ps_ib = sample_base, ps_out = [], ps_env = 0\<rparr>"
      "[15, 16]" sample_signer "[[15], [16]]" 0 "\<lambda>n. (True, n)" 0]
  by (simp add: Process_def sample_relay_def sample_router_def sample_hashes sample_Sign sample_signed_base_def)

text \<open>The states of the run: polled, dispatched, sent.\<close>

definition sample_sys1 :: "unit sys" where
  "sample_sys1 = (sys_start sample_lst)\<lparr>lst := listener_step sample_lst sample_poll, polls := [sample_poll]\<rparr>"

definition sample_sys2 :: "unit sys" where
  "sample_sys2 = sample_sys1\<lparr>taken := 1, dispatched := {#(BaseProcessor, sample_base)#}, running := {#(BaseProcessor, sample_base)#}\<rparr>"

definition sample_sys3 :: "unit sys" where
  "sample_sys3 = sample_sys2\<lparr>running := {#}, outc := [sample_signed_base]\<rparr>"

lemma sample_reach1: "sample_reach sample_sys1"
proof -
  have "sample_reach (sys_start sample_lst)" by (rule sys_reach.Start) (simp add: sample_lst_def)
  from sys_reach.Step [OF this sys_step.Poll [of _ _ _ _ _ _ sample_poll]] show ?thesis
    by (simp add: sample_sys1_def sys_start_def)
qed

lemma sample_reach2: "sample_reach sample_sys2"
proof -
  have logs: "sent_logs sample_sys1 = [sample_log]"
    by (simp add: sent_logs_def sample_sys1_def sample_polled)
  have "sample_step sample_sys1 (sample_sys1\<lparr>taken := Suc (taken sample_sys1),
      dispatched := add_mset (BaseProcessor, sample_base) (dispatched sample_sys1),
      running := add_mset (BaseProcessor, sample_base) (running sample_sys1)\<rparr>)"
    by (rule sys_step.HandleLog)
      (simp_all add: logs sample_dispatched, simp_all add: sample_sys1_def sys_start_def sample_dispatched)
  from sys_reach.Step [OF sample_reach1 this] show ?thesis
    by (simp add: sample_sys2_def sample_sys1_def sys_start_def)
qed

lemma sample_sends: "sample_step sample_sys2 sample_sys3"
proof -
  have "running sample_sys2 = add_mset (BaseProcessor, sample_base) {#}" "outc sample_sys2 = []"
    by (simp_all add: sample_sys2_def sample_sys1_def sys_start_def)
  moreover have "goroutine (Process sample_relay sample_router BaseProcessor) \<lparr>ps_ib = sample_base, ps_out = [], ps_env = 0\<rparr> =
      (Ok (), \<lparr>ps_ib = sample_signed_base, ps_out = [sample_signed_base], ps_env = 0\<rparr>)"
    by (simp add: goroutine_def sample_processed)
  ultimately have "sample_step sample_sys2 (sample_sys2\<lparr>running := {#},
      outc := ps_out \<lparr>ps_ib = sample_signed_base, ps_out = [sample_signed_base], ps_env = 0 :: nat\<rparr>,
      gone := gone sample_sys2 + ended (outc sample_sys2) \<lparr>ps_ib = sample_signed_base, ps_out = [sample_signed_base], ps_env = 0 :: nat\<rparr>
        (fst (Process sample_relay sample_router BaseProcessor \<lparr>ps_ib = sample_base, ps_out = outc sample_sys2, ps_env = 0\<rparr>))\<rparr>)"
    by (intro sys_step.Goroutine) simp_all
  then show ?thesis by (simp add: sample_sys3_def ended_def \<open>outc sample_sys2 = []\<close>)
qed

lemma sample_reach3: "sample_reach sample_sys3"
  by (rule sys_reach.Step [OF sample_reach2 sample_sends])

text \<open>The same in the form of a relay with its own signer and verifiers.\<close>

abbreviation sample_own :: "(nat, unit) relay" where
  "sample_own \<equiv> sample_relay\<lparr>rsigner := NewLocal sample_sign (\<lambda>c k. Inr c) (\<lambda>k. \<lparr>PX = 1, PY = 2\<rparr>) (),
     verifierClient := Verifier_Response (\<lambda>f as. f) execute_seq sample_silent (\<lambda>d. None) 0\<rparr>"

lemma sample_reach_own:
  "sys_reach sample_ol Inr (\<lambda>l. Inr sample_event) sample_own sample_router sample_lst sample_sys2"
  "sys_reach sample_ol Inr (\<lambda>l. Inr sample_event) sample_own sample_router sample_lst sample_sys3"
  by (simp_all only: sample_relay_own sample_reach2 sample_reach3)

lemma sample_sends_own: "sys_step sample_ol Inr (\<lambda>l. Inr sample_event) sample_own sample_router sample_sys2 sample_sys3"
  by (simp only: sample_relay_own sample_sends)

text \<open>From the second state on, one step of the sender is left.\<close>

lemma sample_runs: "(sys_step sample_ol Inr (\<lambda>l. Inr sample_event) sample_own sample_router ^^ 1) sample_sys2 sample_sys3"
  by (subst relpowp_1) (rule sample_sends_own)

lemma sample_sys3_simps:
  "outc sample_sys3 = [sample_signed_base]" "polls sample_sys3 = [sample_poll]" "sent_logs sample_sys3 = [sample_log]"
  by (simp_all add: sample_sys3_def sample_sys2_def sample_sys1_def sent_logs_def sample_polled)

text \<open>The sender has taken the message: the relay is at rest.\<close>

definition sample_sys4 :: "unit sys" where
  "sample_sys4 = sample_sys3\<lparr>relayed := 1\<rparr>"

lemma sample_reach4: "sys_reach sample_ol Inr (\<lambda>l. Inr sample_event) sample_own sample_router sample_lst sample_sys4"
proof -
  have "relayed sample_sys3 = 0" by (simp add: sample_sys3_def sample_sys2_def sample_sys1_def sys_start_def)
  then have "sample_step sample_sys3 (sample_sys3\<lparr>relayed := Suc (relayed sample_sys3)\<rparr>)"
    by (intro sys_step.Relay) (simp add: sample_sys3_simps)
  with \<open>relayed sample_sys3 = 0\<close> have "sample_step sample_sys3 sample_sys4" by (simp add: sample_sys4_def)
  from sys_reach.Step [OF sample_reach3 this] show ?thesis by (simp only: sample_relay_own)
qed

end
