(* ===== verification/Spec2Isabelle.thy ===== *)
theory Spec2Isabelle
  imports Client Shutdown Health Test_Signer Sample_Run
begin

text \<open>
  The TEE relay client: a Go program that reads instruction events from the indexer of the Flare
  chain, signs them as a data provider or cosigner, and posts them to the TEE machines they are
  addressed to. This development models it as it is in \<open>src/\<close> and proves what each part and the
  running whole guarantee.

  \<^bold>\<open>How the program is put together.\<close> \<open>cmd/main\<close> loads the configuration, binds the health server and
  runs the client, which connects the collector (polls the indexer's database for the logs of
  TeeInstructionsSent), the router (parses a log, filters it, and starts a goroutine with the processor of
  its class) and the sender (posts each processed instruction to each of its machines) by two channels.
  Three processors share the signing of an instruction: the base one signs and sends; the FDC one puts the
  instruction on the queue of its attestation type and source, whose worker asks a verifier server,
  attests its answer, signs and sends, with retries; the backup one fetches and checks a wallet
  backup or a direct-backup envelope first.

  \<^bold>\<open>Theories, in the order of the imports.\<close>
  \<^item> \<open>Relay_Prelude\<close>: words and times of Go, errors as values, the type \<open>act\<close> of code with state that
    returns, fails or panics, its weakest preconditions, and text functions of the standard library.
  \<^item> \<open>Config\<close> (\<open>pkg/config/config.go\<close>): the configuration as records, defaults, environment override, checks.
  \<^item> \<open>Health\<close> (\<open>internal/health\<close>): status, verdicts, endpoints, listener of the server.
  \<^item> \<open>Collector\<close> (\<open>internal/collector\<close>): the listener's loop as steps over the answers of the database,
    the damper of its error lines.
  \<^item> \<open>Post\<close> (\<open>internal/post\<close>): the retried POST and the text of its errors.
  \<^item> \<open>Signer\<close> (\<open>pkg/signer\<close>): local and remote signer; locale \<open>signer_contract\<close>.
  \<^item> \<open>Instructions\<close> (\<open>internal/router/instructions\<close>): parsing, hashing, signing of an instruction.
  \<^item> \<open>Processor\<close>, \<open>Verifier\<close>, \<open>FdcHandler\<close>, \<open>FdcQueue\<close>, \<open>Fdc\<close>, \<open>Backup\<close>
    (\<open>internal/router/processors\<close>): the processors; locales \<open>processor\<close>, \<open>responder\<close>,
    \<open>queue_handler\<close>, \<open>fdc_handler\<close>. \<open>Restore\<close> holds what the backup processor guarantees.
  \<^item> \<open>Router\<close> (\<open>internal/router\<close>): filters, classes, handling of a log, the loop.
  \<^item> \<open>Sender\<close> (\<open>internal/sender\<close>): one message per machine, its URL, data and signature.
  \<^item> \<open>Pipeline\<close>: the running relay as a step relation over collector, router, goroutines, queues and
    sender, in any interleaving; its invariant; locale \<open>relay_contract\<close>.
  \<^item> \<open>Relay_Spec\<close>: the specification with two multisets that the pipeline refines.
  \<^item> \<open>Relay_Work\<close>: the work the pipeline has left, that every step takes some off and that it can go on until
    none is left; queued requests that are retried until they are sent.
  \<^item> \<open>Client\<close> (\<open>internal/client\<close>, \<open>pkg/client\<close>, \<open>cmd/main\<close>): initialisation, assembly, start and shutdown.
  \<^item> \<open>Shutdown\<close>: the goroutines of the wait group at their selects, the channels with their capacity, the cancel and
    the wait; beside them the goroutines of instructions and the handlers on workers of the queues, which it does not
    track.
  \<^item> \<open>Test_Signer\<close> (\<open>pkg/testutils\<close>): the signer server for simulations and its credentials.
  \<^item> \<open>Sample_Run\<close>: one run on concrete data, for the examples of the properties.

  \<^bold>\<open>How state and operations correspond.\<close> A struct is a record, a pointer that may be nil an option, an error
  a value of \<open>error\<close>, \<open>(T, error)\<close> a result of \<open>act\<close>, a panic its third outcome. \<open>pst\<close> is
  the state of a goroutine: its instruction, the out channel so far, and the outside world as a value of any type
  that every call of a signer, server or clock moves on. Code that is not in this repository (tee-node,
  go-flare-common, go-ethereum, the contract's ABI, the HTTP client, JSON, the queue's heap) is a parameter: an argument of the
  definitions or a field of the records \<open>fdc_lib\<close>, \<open>backup_lib\<close>, \<open>op_lib\<close>, \<open>relay\<close>, \<open>startup\<close>.

  \<^bold>\<open>What is shown.\<close> Contracts are locales: what a signer's signatures are worth, what a processor may
  send, what a verifier may answer. Each is interpreted on the program's own implementations, and the
  properties rest on those interpretations: every message in the out channel can be prepared and is signed
  for its machine over exactly its data; each log leads to at most one message; every instruction the router started
  is under way, in a queue with attempts left, sent, or ended with a recorded fate, and silently only when a verifier
  rejected it or the signer owns no part of the backup; without new logs the relay comes
  to rest after a bounded number of steps in any order; a message is the
  instruction of a collected log that passes the filter; an attestation or restore that is sent was
  verified or accepted; restores fetch over the guarded transport only; nothing gets stuck; the collector misses and repeats nothing, and the
  readiness probe tells the age of the block it fetched last; startup checks accept
  exactly what is stated; no state keeps the shutdown
  from ending, and with its end no log and no queued instruction is taken and no post started; every run of a retried
  call, however its attempts and waits turn out, fits its timeout; error texts are bounded and keep the cause.

  \<^bold>\<open>Bounds.\<close> No fuel is used: loops are structural recursions over the lists they range over or over the
  sequence of what their select yields; the two loops over the text of a variable end by its length. That the running
  relay ends its work is proved by a measure, \<open>work\<close>: the steps that the unhandled logs, the goroutines, the attempts
  left in the queues and the messages not yet taken account for. How often a queue attempts an instruction is
  \<open>max_attempts\<close>, the number in its configuration, as the README documents the queue.
  Block numbers are words of 64 bits as in the code, so wrap-around is part of the model.
  Channels of the pipeline are unbounded, a full channel of the program only delaying a step; what that delay can do to
  the shutdown is the subject of \<open>Shutdown\<close>, where a channel holds at most 50 elements.

  \<^bold>\<open>Findings.\<close> A cosigner with a remote signer and no API key cannot start (\<open>unnamed_cosigner_never_starts\<close>);
  keys with a control byte other than tab, CR and LF pass the check and fail at every request, unless their header is
  that of the content type (\<open>unsendable_never_identified\<close>); the probes answer HEAD as well as GET (\<open>endpoints_answer_ok\<close>).

  \<^bold>\<open>Not modelled.\<close> Log lines other than those of the damper, since they have no effect on what is sent; the
  timeouts of HTTP connections, which the parameters for calls stand for; the loggers'
  interfaces; how the queue's library runs: in \<open>Pipeline\<close> an attempt is one step, in \<open>Shutdown\<close> a dequeued instruction
  is on a worker until its handler ends, and when \<open>Dequeue\<close> returns without one is a parameter, of which the end of the wait
  needs that it does once its context is done.
\<close>

section \<open>The running relay\<close>

lemma mset_take_subset: "mset (List.map_filter f (take n xs)) \<subseteq># mset (List.map_filter f xs)"
proof -
  have "xs = take n xs @ drop n xs" by simp
  then have "List.map_filter f xs = List.map_filter f (take n xs) @ List.map_filter f (drop n xs)"
    by (metis List.map_filter_def filter_append map_append)
  then show ?thesis by simp
qed

lemma dispatched_of_event:
  "dispatched_of ol convert parse r lg = Some pb \<Longrightarrow>
     parseTeeInstructionsSent convert parse lg = Inr (Event (snd pb)) \<and> relevant r (Event (snd pb)) \<and>
     snd pb = parsed (LogTimestamp lg) (Event (snd pb))"
  by (cases pb) (auto simp: dispatched_of_Some Router_Handle_Some)

text \<open>What is in the out channel of a state that keeps the invariant comes from a log.\<close>

lemma sys_inv_from_log:
  assumes "sys_inv ol convert parse R r valid s" and "b \<in> set (outc s)"
  obtains lg p b0 where "lg \<in> set (sent_logs s)" and "dispatched_of ol convert parse r lg = Some (p, b0)"
    and "origin b0 = origin b"
proof -
  let ?logs = "take (taken s) (sent_logs s)"
  have "origin b \<in># origins s" using assms(2) by (simp add: origins_def)
  moreover have "origins s \<subseteq># image_mset (\<lambda>pb. origin (snd pb)) (dispatched s)"
    using assms(1) by (rule origins_subset)
  moreover have D: "dispatched s = mset (List.map_filter (dispatched_of ol convert parse r) ?logs)"
    using assms(1) unfolding sys_inv_def by blast
  ultimately have "origin b \<in># image_mset (\<lambda>pb. origin (snd pb)) (dispatched s)" by (metis mset_subset_eqD)
  then obtain pb where "pb \<in> set (List.map_filter (dispatched_of ol convert parse r) ?logs)" "origin (snd pb) = origin b"
    by (auto simp: D)
  then obtain lg where "lg \<in> set ?logs" "dispatched_of ol convert parse r lg = Some pb" "origin (snd pb) = origin b"
    by (auto simp: List.map_filter_def)
  then show ?thesis using that [of lg "fst pb" "snd pb"] by (auto dest: in_set_takeD)
qed

text \<open>The data of a parsed instruction, and what of it no processor changes.\<close>

lemma parsed_data:
  "InstructionID (GeneralData (parsed ts ev)) = ev_InstructionId ev" "OPType (GeneralData (parsed ts ev)) = ev_OpType ev"
  "OPCommand (GeneralData (parsed ts ev)) = ev_OpCommand ev" "OriginalMessage (GeneralData (parsed ts ev)) = ev_Message ev"
  by (simp_all add: parsed_def EventToData_def)

lemma chain_part_fields:
  "chain_part d = chain_part d' \<Longrightarrow> InstructionID d = InstructionID d' \<and> OPType d = OPType d' \<and>
     OPCommand d = OPCommand d' \<and> OriginalMessage d = OriginalMessage d'"
  by (cases d; cases d') (simp add: chain_part_def)

section \<open>The retry policies\<close>

lemmas retry_policies = sendTimeout_def sendRetry_def callTimeout_def signRetry_def identifyTimeout_def identifyRetry_def
  verifierCall_def verifierRetry_def

lemma policy_budgets:
  assumes "(limit, p) \<in> {(sendTimeout, sendRetry), (callTimeout, signRetry), (identifyTimeout, identifyRetry),
      (CallTimeout verifierCall, verifierRetry)}"
  shows "worst_schedule limit p \<le> of_int (RetryTimeout p)"
  using assms send_budget sign_budget identify_budget verifier_budget
  by (auto simp: verifierRetry_def)

section \<open>Properties that span components\<close>

text \<open>
  C16. A queued FDC2 request is sent when its verifier decides in time: as long as fewer attempts than the instruction
  has left end undecided, by RETRY or by a query that fails, an attempt that is answered VERIFIED and whose hashes
  can be computed and signed puts it into the out channel, with the response, the signature of its digest and the
  signatures for its machines.
\<close>

theorem queued_request_sent:
  assumes "waiting s = add_mset (n, b) M" and "length xs < n"
    and "asks (fdcLib R) (FDC_verifiers (verifierClient R) (fdcProcessor r)) b rq v"
    and "AdditionalFixedMessage (GeneralData b) = []" and "list_all (\<lambda>x. undecided (v rq x)) xs"
    and "v rq x = (Ok res, x0)" and "vr_Status res = ''VERIFIED''"
    and "HashMessage (fdcLib R) (bp_chainID (baseProcessor r)) rq (vr_ResponseBody res) (ev_Cosigners (Event b))
      (ev_CosignersThreshold (Event b)) (Timestamp (GeneralData b)) = Inr h"
    and "Sign (rsigner R) [ChainBoundRelayPrefixedHash (fdcLib R) (bp_chainID (baseProcessor r)) h] x0 = (Ok [sig], x1)"
    and "hashesForSigning (hashFor R) (bp_chainID (baseProcessor r)) (with_signature (answered b (vr_ResponseBody res)) sig) = Inr hs"
    and "Sign (rsigner R) hs x1 = (Ok sigs, x2)" and "bp_out (baseProcessor r)" and "sel R x2 = (True, x3)"
  shows "\<exists>t. (sys_step ol convert parse R r ^^ Suc (length xs)) s t \<and> waiting t = M \<and> running t = running s \<and>
    outc t = outc s @ [(with_signature (answered b (vr_ResponseBody res)) sig)\<lparr>Signatures := sigs\<rparr>]"
proof -
  let ?b = "(with_signature (answered b (vr_ResponseBody res)) sig)\<lparr>Signatures := sigs\<rparr>"
  have "queued_handler R r \<lparr>ps_ib = b, ps_out = out, ps_env = x\<rparr> = (Ok (), \<lparr>ps_ib = ?b, ps_out = out @ [?b], ps_env = x3\<rparr>)" for out
    by (rule queued_verified [OF assms(3,4,6-13) refl])
  from retried_until_sent [OF assms(1-5) this, of ol convert parse] show ?thesis by blast
qed

text \<open>A verifier that asks for another attempt until the world's count is 2.\<close>

definition sample_client :: "credentials \<Rightarrow> att_request \<Rightarrow> (nat, verifier_response) act" where
  "sample_client c rq n =
     (Ok \<lparr>vr_Status = (if n < 2 then ''RETRY'' else ''VERIFIED''), vr_ResponseBody = [6], vr_Message = ''m''\<rparr>, n)"

lemma queued_request_sent_witness:
  "\<exists>t. (sys_step sample_ol Inr (\<lambda>l. Inr sample_event) (sample_relay\<lparr>verifierClient := sample_client\<rparr>) sample_router ^^ 3)
      ((sys_start sample_lst)\<lparr>waiting := {#(3, sample_base)#}\<rparr>) t \<and> waiting t = {#} \<and>
     outc t = [(with_signature (answered sample_base [6]) [16])\<lparr>Signatures := [[15], [16]]\<rparr>]"
proof -
  let ?R = "sample_relay\<lparr>verifierClient := sample_client\<rparr>" and ?v = "sample_client (Server sample_verifier)"
  let ?s = "(sys_start sample_lst)\<lparr>waiting := {#(3, sample_base)#}\<rparr>"
  let ?res = "\<lparr>vr_Status = ''VERIFIED'', vr_ResponseBody = [6], vr_Message = ''m''\<rparr>"
  have "asks (fdcLib ?R) (FDC_verifiers (verifierClient ?R) (fdcProcessor sample_router)) sample_base sample_request ?v"
    by (simp add: asks_def sample_relay_def sample_router_def sample_fdc_def sample_request_def FDC_verifiers_def sample_pair)
  moreover have "AdditionalFixedMessage (GeneralData sample_base) = []" "waiting ?s = add_mset (3, sample_base) {#}"
    "length [0, 1 :: nat] < 3" "list_all (\<lambda>x. undecided (?v sample_request x)) [0, 1]"
    "?v sample_request 2 = (Ok ?res, 2)" "vr_Status ?res = ''VERIFIED''"
    by (simp_all add: sample_base_def EventToData_def undecided_def sample_client_def StatusRetry_def)
  moreover have "HashMessage (fdcLib ?R) (bp_chainID (baseProcessor sample_router)) sample_request (vr_ResponseBody ?res)
      (ev_Cosigners (Event sample_base)) (ev_CosignersThreshold (Event sample_base)) (Timestamp (GeneralData sample_base)) = Inr 15"
    "Sign (rsigner ?R) [ChainBoundRelayPrefixedHash (fdcLib ?R) (bp_chainID (baseProcessor sample_router)) 15] 2 = (Ok [[16]], 2)"
    "hashesForSigning (hashFor ?R) (bp_chainID (baseProcessor sample_router)) (with_signature (answered sample_base (vr_ResponseBody ?res)) [16]) = Inr [15, 16]"
    "Sign (rsigner ?R) [15, 16] 2 = (Ok [[15], [16]], 2)" "bp_out (baseProcessor sample_router)" "sel ?R 2 = (True, 2)"
    by (simp_all add: sample_relay_def sample_router_def sample_fdc_def SetOut_def NewBase_def sample_signer_def NewLocal_def
        Local_Sign_def sample_sign_def sample_hashes_any)
  ultimately obtain t where
    "(sys_step sample_ol Inr (\<lambda>l. Inr sample_event) ?R sample_router ^^ Suc (length [0, 1 :: nat])) ?s t" "waiting t = {#}"
    "outc t = outc ?s @ [(with_signature (answered sample_base (vr_ResponseBody ?res)) [16])\<lparr>Signatures := [[15], [16]]\<rparr>]"
    using queued_request_sent [of ?s 3 sample_base "{#}" "[0, 1]" ?R sample_router sample_request ?v 2 ?res 2 15 "[16]" 2 "[15, 16]"
        "[[15], [16]]" 2 2 sample_ol Inr "\<lambda>l. Inr sample_event"] by blast
  then show ?thesis by (intro exI [of _ t]) (simp add: numeral_3_eq_3 sys_start_def)
qed

text \<open>
  C1. In every reachable state of the relay with the local signer and its own verifier clients, preparing
  the message of any machine of any instruction in the out channel succeeds, so no goroutine of the sender
  panics; the message is addressed to that machine and carries this signer's signature of the
  hash of exactly the data in it.
\<close>

theorem every_message_valid:
  assumes "sys_reach ol convert parse (R\<lparr>rsigner := NewLocal utilsSign utilsDecrypt pubKeyToStruct priv,
      verifierClient := Verifier_Response sprintf execute post checkSize proveHash\<rparr>) r l s"
    and "b \<in> set (outc s)" and "i < length (Tees b)"
  shows "\<exists>msg h. PrepareInstruction b (int i) = Ok (msg, Url (Tees b ! i)) \<and>
    Data msg = (GeneralData b)\<lparr>TeeID := TeeId (Tees b ! i)\<rparr> \<and>
    hashFor R (bp_chainID (baseProcessor r)) (Data msg) = Inr h \<and> utilsSign h priv = Inr (Signature msg)"
proof -
  let ?R = "R\<lparr>rsigner := NewLocal utilsSign utilsDecrypt pubKeyToStruct priv,
      verifierClient := Verifier_Response sprintf execute post checkSize proveHash\<rparr>"
  have "sys_inv ol convert parse ?R r (made_by utilsSign priv) s"
    using assms(1) by (rule local_relay.sys_reach_inv)
  then have "relay_good ol ?R r (made_by utilsSign priv) b"
    using assms(2) by (simp add: sys_inv_def list_all_iff)
  from relay_good_signed [OF this]
  have "signed (hashFor R) (bp_chainID (baseProcessor r)) (made_by utilsSign priv) b" by simp
  then obtain msg h where "PrepareInstruction b (int i) = Ok (msg, Url (Tees b ! nat (int i)))"
    "Data msg = (GeneralData b)\<lparr>TeeID := TeeId (Tees b ! nat (int i))\<rparr>"
    "hashFor R (bp_chainID (baseProcessor r)) (Data msg) = Inr h" "made_by utilsSign priv h (Signature msg)"
    by (rule signed_prepared [where j = "int i"]) (use assms(3) in simp_all)
  then show ?thesis by (intro exI conjI) (simp_all add: made_by_def)
qed

lemma every_message_valid_witness:
  "\<exists>msg h. PrepareInstruction sample_signed_base 1 = Ok (msg, ''http://tee'') \<and>
     sample_hash 14 (Data msg) = Inr h \<and> sample_sign h () = Inr (Signature msg)"
proof -
  have "sample_signed_base \<in> set (outc sample_sys3)" "1 < length (Tees sample_signed_base)"
    by (simp_all add: sample_sys3_simps) (simp add: sample_signed_base_def sample_Tees)
  from every_message_valid [OF sample_reach_own(2) this] show ?thesis
    by (auto simp: sample_router_def sample_relay_def sample_signed_base_def sample_Tees sample_machine_def)
qed

text \<open>
  C5. Every message in the out channel is the instruction of a log that the collector sent on, for an event that
  this relay's filter lets through; it was routed, and what the route's processor promises holds of it: an
  FDC2 message is attested, a restore's backup is accepted.
\<close>

theorem messages_come_from_logs:
  assumes "sys_reach ol convert parse (R\<lparr>rsigner := NewLocal utilsSign utilsDecrypt pubKeyToStruct priv,
      verifierClient := Verifier_Response sprintf execute post checkSize proveHash\<rparr>) r l s"
    and "b \<in> set (outc s)"
  shows "(\<exists>lg \<in> set (sent_logs s). parseTeeInstructionsSent convert parse lg = Inr (Event b) \<and> relevant r (Event b) \<and>
      same_instruction (parsed (LogTimestamp lg) (Event b)) b) \<and>
    (case Route ol b of
       Inl e \<Rightarrow> False
     | Inr BaseProcessor \<Rightarrow> True
     | Inr FDCProcessor \<Rightarrow> attested (fdcLib R) (bp_chainID (baseProcessor r)) (made_by utilsSign priv) b
     | Inr BackupProcessor \<Rightarrow> backup_good (backupLib R) (hashFor R) (NewLocal utilsSign utilsDecrypt pubKeyToStruct priv)
         (bp_chainID (baseProcessor r)) (made_by utilsSign priv) b)"
proof -
  let ?R = "R\<lparr>rsigner := NewLocal utilsSign utilsDecrypt pubKeyToStruct priv,
      verifierClient := Verifier_Response sprintf execute post checkSize proveHash\<rparr>"
  have inv: "sys_inv ol convert parse ?R r (made_by utilsSign priv) s"
    using assms(1) by (rule local_relay.sys_reach_inv)
  then have good: "relay_good ol ?R r (made_by utilsSign priv) b"
    using assms(2) by (simp add: sys_inv_def list_all_iff)
  from inv assms(2) obtain lg p b0 where lg: "lg \<in> set (sent_logs s)" "dispatched_of ol convert parse r lg = Some (p, b0)"
    and b0: "origin b0 = origin b"
    by (rule sys_inv_from_log)
  from b0 have same: "same_instruction b0 b" and ev: "Event b0 = Event b"
    by (simp_all add: same_instruction_origin) (simp add: origin_def)
  from dispatched_of_event [OF lg(2)] have "b0 = parsed (LogTimestamp lg) (Event b)"
    "parseTeeInstructionsSent convert parse lg = Inr (Event b)" "relevant r (Event b)"
    by (simp_all add: ev)
  with lg(1) same good show ?thesis
    by (auto simp: relay_good_def fdc_good_def split: sum.splits proc.splits)
qed

lemma messages_come_from_logs_witness:
  "relevant sample_router (Event sample_signed_base) \<and>
     same_instruction (parsed 9 (Event sample_signed_base)) sample_signed_base"
proof -
  have "sample_signed_base \<in> set (outc sample_sys3)"
    by (simp add: sample_sys3_simps)
  from messages_come_from_logs [OF sample_reach_own(2) this] show ?thesis
    by (simp add: sample_sys3_simps sample_log_def)
qed

text \<open>
  C6. Every instruction in the out channel is well formed: no machine occurs in it twice, its machines are those
  of its event, it has one signature per machine, and identifier, operation and original message in its data are
  still those of the event, whatever processor it went through and however often it was attempted.
\<close>

theorem messages_well_formed:
  assumes "sys_reach ol convert parse (R\<lparr>rsigner := NewLocal utilsSign utilsDecrypt pubKeyToStruct priv,
      verifierClient := Verifier_Response sprintf execute post checkSize proveHash\<rparr>) r l s"
    and "b \<in> set (outc s)"
  shows "distinct (Tees b) \<and> set (Tees b) = set (ev_TeeMachines (Event b)) \<and> length (Signatures b) = length (Tees b) \<and>
    InstructionID (GeneralData b) = ev_InstructionId (Event b) \<and> OPType (GeneralData b) = ev_OpType (Event b) \<and>
    OPCommand (GeneralData b) = ev_OpCommand (Event b) \<and> OriginalMessage (GeneralData b) = ev_Message (Event b)"
proof -
  let ?R = "R\<lparr>rsigner := NewLocal utilsSign utilsDecrypt pubKeyToStruct priv,
      verifierClient := Verifier_Response sprintf execute post checkSize proveHash\<rparr>"
  have inv: "sys_inv ol convert parse ?R r (made_by utilsSign priv) s"
    using assms(1) by (rule local_relay.sys_reach_inv)
  then have "relay_good ol ?R r (made_by utilsSign priv) b"
    using assms(2) by (simp add: sys_inv_def list_all_iff)
  note len = signed_length [OF relay_good_signed [OF this]]
  from inv assms(2) obtain lg p b0 where lg: "dispatched_of ol convert parse r lg = Some (p, b0)" and "origin b0 = origin b"
    by (rule sys_inv_from_log)
  then have "Event b0 = Event b" "Tees b0 = Tees b" "chain_part (GeneralData b) = chain_part (GeneralData b0)"
    by (simp_all add: origin_def)
  moreover from this(1) dispatched_of_event [OF lg] have "b0 = parsed (LogTimestamp lg) (Event b)" by simp
  ultimately show ?thesis
    using len chain_part_fields [of "GeneralData b" "GeneralData b0"]
    by (metis distinct_removeDuplicates parsed_data parsed_simps(2) set_removeDuplicates)
qed

lemma messages_well_formed_witness:
  "distinct (Tees sample_signed_base) \<and> length (Signatures sample_signed_base) = length (Tees sample_signed_base)"
proof -
  have "sample_signed_base \<in> set (outc sample_sys3)" by (simp add: sample_sys3_simps)
  from messages_well_formed [OF sample_reach_own(2) this] show ?thesis by simp
qed

text \<open>
  C2. However the parts interleave and whatever fails, each log of the FlareTeeManager that the indexer holds in the
  collected window leads to at most one message: the instructions in the out channel are, as a multiset, among the
  ones that its logs of a gap-free window of blocks give, each log counted once. Retries and repeated polls never duplicate.
\<close>

theorem at_most_one_message_per_log:
  assumes "sys_reach ol convert parse (R\<lparr>rsigner := NewLocal utilsSign utilsDecrypt pubKeyToStruct priv,
      verifierClient := Verifier_Response sprintf execute post checkSize proveHash\<rparr>) r l s"
    and "0 \<le> sint startInterval" and "0 \<le> sint (Index state)"
    and "listener_start flareTeeManager selector st startInterval ctxDone (Inr state) = Ok l"
    and "sorted (map blk chain)" and "good_events blk src chain (sint (Index state)) (polls s)"
  shows "\<exists>hi \<le> sint (From (lst s)). image_mset origin (mset (outc s)) \<subseteq>#
    image_mset (\<lambda>pb. origin (snd pb)) (mset (List.map_filter (dispatched_of ol convert parse r)
      (in_window blk (max 0 (sint (Index state) - sint startInterval)) hi (events_of src flareTeeManager selector chain))))"
proof -
  let ?lo = "max 0 (sint (Index state) - sint startInterval)"
  have "lst s = listener_run l (polls s)" using assms(1) by (rule sys_reach_polls)
  with listener_started [OF assms(2-6)] have "delivered blk src chain ?lo (lst s)"
    "qAddress (lst s) = flareTeeManager" "qTopic0 (lst s) = selector" by simp_all
  then obtain hi where hi: "hi \<le> sint (From (lst s))"
    "sent_logs s = in_window blk ?lo hi (events_of src flareTeeManager selector chain)"
    unfolding delivered_def sent_logs_def by metis
  have inv: "sys_inv ol convert parse (R\<lparr>rsigner := NewLocal utilsSign utilsDecrypt pubKeyToStruct priv,
      verifierClient := Verifier_Response sprintf execute post checkSize proveHash\<rparr>) r (made_by utilsSign priv) s"
    using assms(1) by (rule local_relay.sys_reach_inv)
  have "image_mset origin (mset (outc s)) \<subseteq># origins s" by (simp add: origins_def)
  also have "\<dots> \<subseteq># image_mset (\<lambda>pb. origin (snd pb)) (dispatched s)"
    using inv by (rule origins_subset)
  also have "dispatched s = mset (List.map_filter (dispatched_of ol convert parse r) (take (taken s) (sent_logs s)))"
    using inv unfolding sys_inv_def by blast
  also have "image_mset (\<lambda>pb. origin (snd pb)) \<dots> \<subseteq>#
      image_mset (\<lambda>pb. origin (snd pb)) (mset (List.map_filter (dispatched_of ol convert parse r) (sent_logs s)))"
    by (intro image_mset_subseteq_mono mset_take_subset)
  finally show ?thesis using hi by (intro exI [of _ hi]) simp
qed

lemma at_most_one_message_per_log_witness:
  "\<exists>hi. image_mset origin (mset [sample_signed_base]) \<subseteq>#
    image_mset (\<lambda>pb. origin (snd pb)) (mset (List.map_filter (dispatched_of sample_ol Inr (\<lambda>l. Inr sample_event) sample_router)
      (in_window (\<lambda>_. 12) 7 hi [sample_log])))"
proof -
  have "0 \<le> sint (3 :: i64)" "0 \<le> sint (Index \<lparr>Index = 10, BlockTimestamp = 0\<rparr>)" "sorted (map (\<lambda>_. 12 :: int) [sample_log])"
    "good_events (\<lambda>_. 12) (\<lambda>_. (7, 1)) [sample_log] (sint (Index \<lparr>Index = 10, BlockTimestamp = 0\<rparr>)) (polls sample_sys3)"
    using sample_poll_good by (simp_all add: sample_sys3_simps)
  from at_most_one_message_per_log [OF sample_reach_own(2) this(1,2) sample_lst_start this(3,4)] show ?thesis
    by (auto simp: sample_sys3_simps events_of_def)
qed

text \<open>
  C7. The relay refines its specification: each step of the pipeline takes up the instruction of a log the
  collector sent on, drops an instruction under way, sends one off, once, or changes nothing of this.
\<close>

theorem relay_refines_spec:
  assumes "sys_reach ol convert parse (R\<lparr>rsigner := NewLocal utilsSign utilsDecrypt pubKeyToStruct priv,
      verifierClient := Verifier_Response sprintf execute post checkSize proveHash\<rparr>) r l s"
    and "sys_step ol convert parse (R\<lparr>rsigner := NewLocal utilsSign utilsDecrypt pubKeyToStruct priv,
      verifierClient := Verifier_Response sprintf execute post checkSize proveHash\<rparr>) r s t"
  shows "abs_sys t = abs_sys s \<or> spec_step (admitted ol convert parse r s) (abs_sys s) (abs_sys t)"
  by (rule local_relay.sys_step_refines [OF assms(2) local_relay.sys_reach_inv [OF assms(1)]])

lemma relay_refines_spec_witness:
  "abs_sys sample_sys3 = abs_sys sample_sys2 \<or>
   spec_step (admitted sample_ol Inr (\<lambda>l. Inr sample_event) sample_router sample_sys2) (abs_sys sample_sys2) (abs_sys sample_sys3)"
  by (rule relay_refines_spec [OF sample_reach_own(1) sample_sends_own])

text \<open>
  C4. The relay comes to rest: while the collector reports nothing new, the router, the goroutines, the queues
  with their retries and the sender take at most \<open>work\<close> steps from a reachable state, in whatever order they are
  scheduled; as long as a log is not handled, an instruction not ended or a message not taken, one of them can
  go on; and what was in the out channel stays there, in its order.
\<close>

theorem relay_quiesces:
  assumes "sys_reach ol convert parse (R\<lparr>rsigner := NewLocal utilsSign utilsDecrypt pubKeyToStruct priv,
      verifierClient := Verifier_Response sprintf execute post checkSize proveHash\<rparr>) r l s"
    and "R' = R\<lparr>rsigner := NewLocal utilsSign utilsDecrypt pubKeyToStruct priv,
      verifierClient := Verifier_Response sprintf execute post checkSize proveHash\<rparr>"
    and "(sys_step ol convert parse R' r ^^ n) s t" and "polls t = polls s"
  shows "n + work ol convert parse R' r t \<le> work ol convert parse R' r s \<and> (\<exists>rest. outc t = outc s @ rest) \<and>
    (idle t \<or> (\<exists>u. sys_step ol convert parse R' r t u \<and> polls u = polls t))"
proof -
  have inv: "sys_inv ol convert parse R' r (made_by utilsSign priv) s"
    unfolding assms(2) using assms(1) by (rule local_relay.sys_reach_inv)
  with assms(3) have "sys_inv ol convert parse R' r (made_by utilsSign priv) t"
    unfolding assms(2) by (rule local_relay.sys_inv_run)
  from local_relay.goes_on [OF this [unfolded assms(2)]]
  have "idle t \<or> (\<exists>u. sys_step ol convert parse R' r t u \<and> polls u = polls t)"
    unfolding assms(2) by (cases "idle t") simp_all
  with local_relay.run_bounded [OF inv [unfolded assms(2)] assms(3) [unfolded assms(2)] assms(4)] show ?thesis
    unfolding assms(2) by simp
qed

lemma relay_quiesces_witness:
  "1 + work sample_ol Inr (\<lambda>l. Inr sample_event) sample_own sample_router sample_sys3
     \<le> work sample_ol Inr (\<lambda>l. Inr sample_event) sample_own sample_router sample_sys2"
proof -
  have "polls sample_sys3 = polls sample_sys2" by (simp add: sample_sys3_def)
  from relay_quiesces [OF sample_reach_own(1) refl sample_runs this] show ?thesis by blast
qed

text \<open>
  C3. Nothing is lost or done twice: in every reachable state each instruction the router has started, one for each
  log that gives one, is in exactly one place, with its goroutine, in a queue with at least one and at most the
  configured number of attempts left, in the out channel, or ended with a recorded fate. One that ended without a
  message and without an error is an FDC2 request that its verifier rejected or a restore of a backup of which
  this signer owns no part; every other ended by an error or a panic. In a relay at rest every log that gives an
  instruction was answered.
\<close>

theorem every_instruction_accounted:
  assumes "sys_reach ol convert parse (R\<lparr>rsigner := NewLocal utilsSign utilsDecrypt pubKeyToStruct priv,
      verifierClient := Verifier_Response sprintf execute post checkSize proveHash\<rparr>) r l s"
  shows "image_mset (\<lambda>pb. origin (snd pb)) (running s) + image_mset (\<lambda>nb. origin (snd nb)) (waiting s)
      + image_mset origin (mset (outc s)) + image_mset (\<lambda>bf. origin (fst bf)) (gone s) =
    image_mset (\<lambda>pb. origin (snd pb))
      (mset (List.map_filter (dispatched_of ol convert parse r) (take (taken s) (sent_logs s)))) \<and>
    (\<forall>nb \<in># waiting s. 1 \<le> fst nb \<and> fst nb \<le> max_attempts (fdcLib R) (fdcProcessor r) (snd nb)) \<and>
    (\<forall>bf \<in># gone s. snd bf = Finished \<longrightarrow>
      Route ol (fst bf) = Inr FDCProcessor \<and>
        rejected (fdcLib R) (FDC_verifiers (Verifier_Response sprintf execute post checkSize proveHash) (fdcProcessor r)) (fst bf) \<or>
      Route ol (fst bf) = Inr BackupProcessor \<and>
        unowned (backupLib R) (NewLocal utilsSign utilsDecrypt pubKeyToStruct priv) (bp_chainID (baseProcessor r)) (fst bf)) \<and>
    (idle s \<longrightarrow> image_mset origin (mset (outc s)) + image_mset (\<lambda>bf. origin (fst bf)) (gone s) =
      image_mset (\<lambda>pb. origin (snd pb)) (mset (List.map_filter (dispatched_of ol convert parse r) (sent_logs s))))"
    (is "?places = ?logs \<and> ?waiting \<and> ?gone \<and> (idle s \<longrightarrow> ?rest)")
proof -
  have inv: "sys_inv ol convert parse (R\<lparr>rsigner := NewLocal utilsSign utilsDecrypt pubKeyToStruct priv,
      verifierClient := Verifier_Response sprintf execute post checkSize proveHash\<rparr>) r (made_by utilsSign priv) s"
    using assms by (rule local_relay.sys_reach_inv)
  then have "all_origins s = ?logs" unfolding sys_inv_def by metis
  then have acc: "?places = ?logs" by (simp only: all_origins_def origins_def)
  moreover have ?waiting using inv by (auto simp: sys_inv_def waiting_ok_def)
  moreover from inv have "\<forall>bf \<in># gone s. snd bf = Finished \<longrightarrow> silent ol (R\<lparr>rsigner := NewLocal utilsSign utilsDecrypt pubKeyToStruct priv,
      verifierClient := Verifier_Response sprintf execute post checkSize proveHash\<rparr>) r (fst bf)"
    by (simp add: sys_inv_def gone_ok_def)
  then have ?gone by (simp add: silent_iff)
  moreover have ?rest if "idle s" using acc that by (simp add: idle_def)
  ultimately show ?thesis by blast
qed

lemma every_instruction_accounted_witness:
  "image_mset origin (mset (outc sample_sys3)) =
     image_mset (\<lambda>pb. origin (snd pb)) {#(BaseProcessor, sample_base)#}"
proof -
  have "running sample_sys3 = {#}" "waiting sample_sys3 = {#}" "gone sample_sys3 = {#}" "taken sample_sys3 = 1"
    by (simp_all add: sample_sys3_def sample_sys2_def sample_sys1_def sys_start_def)
  moreover have "List.map_filter (dispatched_of sample_ol Inr (\<lambda>l. Inr sample_event) sample_router) [sample_log] =
      [(BaseProcessor, sample_base)]"
    by (simp add: List.map_filter_simps dispatched_of_Some [THEN iffD2, OF sample_dispatched])
  ultimately show ?thesis
    using every_instruction_accounted [OF sample_reach_own(2)] by (simp add: sample_sys3_simps)
qed

text \<open>
  C17. Where signing never fails and the runtime chooses the sends, every plain log is sent exactly once: in a relay
  at rest the messages for plain instructions are, as a multiset, those that the logs of the FlareTeeManager in a
  gap-free window of blocks give, and the window ends at the last block fetched while the collector runs.
\<close>

theorem plain_logs_sent_exactly_once:
  assumes "sys_reach ol convert parse (R\<lparr>rsigner := NewLocal utilsSign utilsDecrypt pubKeyToStruct priv,
      verifierClient := Verifier_Response sprintf execute post checkSize proveHash\<rparr>) r l s"
    and "idle s" and "bp_out (baseProcessor r)" and "\<And>d. \<exists>h. hashFor R (bp_chainID (baseProcessor r)) d = Inr h"
    and "\<And>h. \<exists>sig. utilsSign h priv = Inr sig" and "\<And>x. fst (sel R x)"
    and "0 \<le> sint startInterval" and "0 \<le> sint (Index state)"
    and "listener_start flareTeeManager selector st startInterval ctxDone (Inr state) = Ok l"
    and "sorted (map blk chain)" and "good_events blk src chain (sint (Index state)) (polls s)"
  shows "\<exists>hi. (\<not> stopped (lst s) \<longrightarrow> hi = sint (From (lst s))) \<and>
    filter_mset (plain ol) (image_mset origin (mset (outc s))) =
    filter_mset (plain ol) (image_mset (\<lambda>pb. origin (snd pb)) (mset (List.map_filter (dispatched_of ol convert parse r)
      (in_window blk (max 0 (sint (Index state) - sint startInterval)) hi (events_of src flareTeeManager selector chain)))))"
proof -
  let ?R = "R\<lparr>rsigner := NewLocal utilsSign utilsDecrypt pubKeyToStruct priv,
      verifierClient := Verifier_Response sprintf execute post checkSize proveHash\<rparr>"
  let ?lo = "max 0 (sint (Index state) - sint startInterval)"
  have "lst s = listener_run l (polls s)" using assms(1) by (rule sys_reach_polls)
  with listener_started [OF assms(7-11)] have "delivered blk src chain ?lo (lst s)"
    "qAddress (lst s) = flareTeeManager" "qTopic0 (lst s) = selector" by simp_all
  then obtain hi where hi: "\<not> stopped (lst s) \<longrightarrow> hi = sint (From (lst s))"
    and logs: "sent_logs s = in_window blk ?lo hi (events_of src flareTeeManager selector chain)"
    unfolding delivered_def sent_logs_def by metis
  have "\<exists>sigs. Sign (rsigner ?R) hs x = (Ok sigs, x)" for hs x
    using Local_signs_total [of utilsSign priv hs x] assms(5) by (simp add: NewLocal_def)
  then have "\<exists>sigs y. Sign (rsigner ?R) hs x = (Ok sigs, y)" for hs x by blast
  with assms(3,4,6) have "signs_all ?R r" by (simp add: signs_all_def)
  from local_relay.plain_never_gone [OF assms(1) this]
  have gone: "filter_mset (plain ol) (image_mset (\<lambda>bf. origin (fst bf)) (gone s)) = {#}"
    by (rule filter_plain_gone)
  have inv: "sys_inv ol convert parse ?R r (made_by utilsSign priv) s"
    using assms(1) by (rule local_relay.sys_reach_inv)
  then have "all_origins s = image_mset (\<lambda>pb. origin (snd pb)) (dispatched s)"
    and D: "dispatched s = mset (List.map_filter (dispatched_of ol convert parse r) (sent_logs s))"
    using assms(2) by (simp_all add: sys_inv_def idle_def)
  then have "image_mset origin (mset (outc s)) + image_mset (\<lambda>bf. origin (fst bf)) (gone s) =
      image_mset (\<lambda>pb. origin (snd pb)) (dispatched s)"
    using assms(2) by (simp add: all_origins_def origins_def idle_def)
  then have "filter_mset (plain ol) (image_mset origin (mset (outc s))) =
      filter_mset (plain ol) (image_mset (\<lambda>pb. origin (snd pb)) (dispatched s))"
    using gone by (metis add.right_neutral filter_union_mset)
  with hi logs D show ?thesis by metis
qed

lemma plain_logs_sent_exactly_once_witness:
  "plain sample_ol (origin sample_signed_base) \<and> (\<exists>hi. filter_mset (plain sample_ol) {#origin sample_signed_base#} =
    filter_mset (plain sample_ol) (image_mset (\<lambda>pb. origin (snd pb))
      (mset (List.map_filter (dispatched_of sample_ol Inr (\<lambda>l. Inr sample_event) sample_router)
        (in_window (\<lambda>_. 12) 7 hi [sample_log])))))"
proof -
  have idle: "idle sample_sys4"
    by (simp add: idle_def sample_sys4_def sample_sys3_simps) (simp add: sample_sys3_def sample_sys2_def sample_sys1_def sys_start_def)
  have "bp_out (baseProcessor sample_router)"
    "\<exists>h. hashFor sample_relay (bp_chainID (baseProcessor sample_router)) d = Inr h"
    "\<exists>sig. sample_sign h () = Inr sig" "fst (sel sample_relay x)" for d h x
    by (simp_all add: sample_router_def sample_relay_def SetOut_def sample_hash_def sample_sign_def)
  note ideal = this
  have "0 \<le> sint (3 :: i64)" "0 \<le> sint (Index \<lparr>Index = 10, BlockTimestamp = 0\<rparr>)" "sorted (map (\<lambda>_. 12 :: int) [sample_log])"
    "good_events (\<lambda>_. 12) (\<lambda>_. (7, 1)) [sample_log] (sint (Index \<lparr>Index = 10, BlockTimestamp = 0\<rparr>)) (polls sample_sys4)"
    using sample_poll_good by (simp_all add: sample_sys4_def sample_sys3_simps)
  from plain_logs_sent_exactly_once [OF sample_reach4 idle ideal this(1,2) sample_lst_start this(3,4)] obtain hi where
    "filter_mset (plain sample_ol) (image_mset origin (mset (outc sample_sys4))) =
      filter_mset (plain sample_ol) (image_mset (\<lambda>pb. origin (snd pb))
        (mset (List.map_filter (dispatched_of sample_ol Inr (\<lambda>l. Inr sample_event) sample_router)
          (in_window (\<lambda>_. 12) (max 0 (sint (Index \<lparr>Index = 10, BlockTimestamp = 0\<rparr>) - sint (3 :: i64))) hi
            (events_of (\<lambda>_. (7, 1)) 7 1 [sample_log])))))"
    by blast
  moreover have "image_mset origin (mset (outc sample_sys4)) = {#origin sample_signed_base#}"
    by (simp add: sample_sys4_def sample_sys3_simps)
  moreover have "events_of (\<lambda>_. (7, 1)) 7 1 [sample_log] = [sample_log]" by (simp add: events_of_def)
  moreover have "max 0 (sint (Index \<lparr>Index = 10, BlockTimestamp = 0\<rparr>) - sint (3 :: i64)) = 7" by simp
  moreover have "plain sample_ol (origin sample_signed_base)"
    by (simp add: plain_def origin_def instClass_def sample_signed_base_def sample_ol_def sample_ops_def sample_base_def)
  ultimately show ?thesis by metis
qed

text \<open>
  The next log that the router takes, when it gives a plain instruction whose hashes can be computed and
  signed, can be carried through by two steps, the router's and its goroutine's: the message is then the last in
  the out channel, is the log's instruction, and carries the signatures of this signer for its machines.
\<close>

lemma plain_log_is_sent:
  assumes "taken s < length (sent_logs s)"
    and "dispatched_of ol convert parse r (sent_logs s ! taken s) = Some (BaseProcessor, b)"
    and "bp_out (baseProcessor r)" and "hashesForSigning (hashFor R) (bp_chainID (baseProcessor r)) b = Inr hs"
    and "list_all2 (\<lambda>h sig. utilsSign h priv = Inr sig) hs sigs" and "sel R x = (True, y)"
    and "R' = R\<lparr>rsigner := NewLocal utilsSign utilsDecrypt pubKeyToStruct priv\<rparr>"
  shows "\<exists>u t. sys_step ol convert parse R' r s u \<and> sys_step ol convert parse R' r u t \<and>
    outc t = outc s @ [b\<lparr>Signatures := sigs\<rparr>] \<and> taken t = Suc (taken s) \<and> running t = running s"
proof -
  let ?u = "s\<lparr>taken := Suc (taken s), dispatched := add_mset (BaseProcessor, b) (dispatched s),
    running := add_mset (BaseProcessor, b) (running s)\<rparr>"
  let ?t = "?u\<lparr>running := running s, outc := outc s @ [b\<lparr>Signatures := sigs\<rparr>]\<rparr>"
  let ?p = "\<lparr>ps_ib = b, ps_out = outc ?u, ps_env = x\<rparr>"
  let ?v = "\<lparr>ps_ib = b\<lparr>Signatures := sigs\<rparr>, ps_out = outc s @ [b\<lparr>Signatures := sigs\<rparr>], ps_env = y\<rparr>"
  have "sys_step ol convert parse R' r s ?u"
    using assms(1,2) by (intro sys_step.HandleLog) (simp_all add: dispatched_of_Some)
  moreover have "Sign (rsigner R') hs x = (Ok sigs, x)"
    using Local_Sign_all [where utilsSign = utilsSign and priv = priv, OF assms(5)] by (simp add: assms(7) NewLocal_def)
  then have "goroutine (Process R' r BaseProcessor) ?p = (Ok (), ?v)"
    using Base_Process_sends [of "baseProcessor r" "hashFor R'" ?p hs "rsigner R'" sigs x "sel R'" y] assms(3,4,6,7)
    by (simp add: goroutine_def Process_def)
  then have "sys_step ol convert parse R' r ?u (?u\<lparr>running := running s, outc := ps_out ?v,
      gone := gone ?u + ended (outc ?u) ?v (fst (Process R' r BaseProcessor ?p))\<rparr>)"
    by (intro sys_step.Goroutine) simp_all
  then have "sys_step ol convert parse R' r ?u ?t" by (simp add: ended_def)
  ultimately show ?thesis by (intro exI [of _ ?u] exI [of _ ?t]) simp
qed

lemma plain_log_is_sent_witness:
  "\<exists>u t. sample_step sample_sys1 u \<and> sample_step u t \<and> outc t = [sample_signed_base]"
proof -
  have logs: "sent_logs sample_sys1 = [sample_log]" "taken sample_sys1 = 0" "outc sample_sys1 = []"
    by (simp_all add: sent_logs_def sample_sys1_def sample_polled sys_start_def)
  have "dispatched_of sample_ol Inr (\<lambda>l. Inr sample_event) sample_router (sent_logs sample_sys1 ! taken sample_sys1) =
      Some (BaseProcessor, sample_base)"
    by (simp add: logs dispatched_of_Some sample_dispatched)
  moreover have "list_all2 (\<lambda>h sig. sample_sign h () = Inr sig) [15, 16] [[15], [16]]"
    by (simp add: sample_sign_def)
  moreover have "sample_relay = sample_relay\<lparr>rsigner := NewLocal sample_sign (\<lambda>c k. Inr c) (\<lambda>k. \<lparr>PX = 1, PY = 2\<rparr>) ()\<rparr>"
    by (simp add: sample_relay_def sample_signer_def)
  moreover have "hashesForSigning (hashFor sample_relay) (bp_chainID (baseProcessor sample_router)) sample_base = Inr [15, 16]"
    "sel sample_relay 0 = (True, 0)" "bp_out (baseProcessor sample_router)"
    by (simp_all add: sample_relay_def sample_router_def sample_hashes)
  ultimately obtain u t where "sample_step sample_sys1 u" "sample_step u t"
    "outc t = outc sample_sys1 @ [sample_base\<lparr>Signatures := [[15], [16]]\<rparr>]"
    using plain_log_is_sent [of sample_sys1 sample_ol Inr "\<lambda>l. Inr sample_event" sample_router sample_base sample_relay
        "[15, 16]" sample_sign "()" "[[15], [16]]" 0 0 sample_relay "\<lambda>c k. Inr c" "\<lambda>k. \<lparr>PX = 1, PY = 2\<rparr>"] logs
    by auto
  then show ?thesis by (auto simp: logs sample_signed_base_def)
qed

text \<open>
  C35. No retried call is cut short by its own timeout: however long its attempts take within their time limit, and whatever
  the jitter makes of the waits between them, a run of a send, of a call of the remote signer, of its identification or
  of a query of a verifier ends within the timeout of its retries.
\<close>

theorem retry_runs_fit:
  assumes "(limit, p) \<in> {(sendTimeout, sendRetry), (callTimeout, signRetry), (identifyTimeout, identifyRetry),
      (CallTimeout verifierCall, verifierRetry)}"
    and "retry_run limit p ds ws"
  shows "of_int (sum_list ds) + sum_list ws \<le> (of_int (RetryTimeout p) :: rat)"
proof -
  have "0 \<le> limit \<and> 0 \<le> Delay p \<and> 0 \<le> Multiplier p \<and> 0 \<le> Jitter p"
    using assms(1) by (auto simp: retry_policies)
  with retry_run_bounded [OF assms(2)] have "of_int (sum_list ds) + sum_list ws \<le> worst_schedule limit p" by simp
  also have "\<dots> \<le> of_int (RetryTimeout p)" using assms(1) by (rule policy_budgets)
  finally show ?thesis .
qed

lemma retry_runs_fit_witness:
  "retry_run (CallTimeout verifierCall) verifierRetry [10 * second, 3 * second, 1] [6 * of_int second, 8 * of_int second] \<and>
   of_int (13 * second + 1) + 14 * of_int second \<le> (of_int (RetryTimeout verifierRetry) :: rat)"
proof -
  have run: "retry_run (CallTimeout verifierCall) verifierRetry [10 * second, 3 * second, 1] [6 * of_int second, 8 * of_int second]"
    by (simp add: retry_run_def wait_within_def growth_def verifierCall_def verifierRetry_def less_Suc_eq)
  show ?thesis
    using run retry_runs_fit [OF _ run] by simp
qed

end
